(* ===== verification/Prelude.thy ===== *)
theory Prelude
  imports Main "HOL-Library.Word" "HOL-Library.Monad_Syntax"
begin

text \<open>
  Shared vocabulary of the development: the machine integer types of the C code, pointers as
  abstract block identities with \<open>NULL = 0\<close>, and the generic lemmas on options, maps and lists
  that the component theories use.

  A C function that can run into undefined behaviour (a dereference of an invalid pointer, an
  access outside an array, a double free) or into an endless loop is a function into \<open>option\<close>:
  \<open>None\<close> is that outcome, and the do-notation of the option monad threads the state.
  Return codes of type \<open>int32_t\<close> that are only ever \<open>0\<close>, \<open>1\<close> or \<open>-1\<close> are of type \<open>int\<close>.
\<close>

type_synonym u8 = "8 word"
type_synonym u32 = "32 word"
type_synonym u64 = "64 word"
type_synonym ptr = nat

abbreviation NULL :: ptr where
  "NULL \<equiv> 0"

named_theorems alloc_simps \<open>behaviour of the allocation primitives\<close>
named_theorems pool_simps \<open>the memory pool operations on represented states\<close>

section \<open>Options\<close>

lemma bind_SomeE [elim?]:
  assumes "Option.bind m f = Some y"
  obtains x where "m = Some x" and "f x = Some y"
  using assms by (auto simp: bind_eq_Some_conv)

lemma bind_SomeI [intro?]: "m = Some x \<Longrightarrow> f x = Some y \<Longrightarrow> Option.bind m f = Some y"
  by simp

section \<open>Lists\<close>

lemma remove1_split: "x \<notin> set as \<Longrightarrow> remove1 x (as @ x # bs) = as @ bs"
  by (simp add: remove1_append)

lemma in_set_split_distinct:
  assumes "x \<in> set xs" and "distinct xs"
  obtains as bs where "xs = as @ x # bs" and "x \<notin> set as" and "x \<notin> set bs"
  using assms by (metis distinct.simps(2) distinct_append not_distinct_conv_prefix split_list_first)

lemma set_remove1_distinct: "distinct xs \<Longrightarrow> set (remove1 x xs) = set xs - {x}"
  by (rule set_remove1_eq)

section \<open>Words\<close>

lemma unat_u8_less: "unat (w :: u8) < 256"
  using unsigned_less [of w] by simp

lemma unat_u32_less: "unat (w :: u32) < 4294967296"
  using unsigned_less [of w] by simp

lemma unat_plus1_u32: "unat (w :: u32) + 1 < 4294967296 \<Longrightarrow> unat (w + 1) = unat w + 1"
  by (simp add: unat_word_ariths)

lemma unat_minus1_u32: "w \<noteq> (0 :: u32) \<Longrightarrow> unat (w - 1) = unat w - 1"
  by (rule unat_minus_one)

lemma unat_ucast_u32_u64 [simp]: "unat (ucast (w :: u32) :: u64) = unat w"
  using unat_u32_less [of w] by (simp add: unsigned_ucast_eq take_bit_nat_eq_self_iff)

lemma ucast_u32_u64_0 [simp]: "(ucast (w :: u32) :: u64) = 0 \<longleftrightarrow> w = 0"
  by (metis unat_ucast_u32_u64 unsigned_0 unsigned_eq_0_iff)

lemma unat_minus1_max [simp]: "unat (- 1 :: u32) = 4294967295"
  by (simp add: unsigned_minus_1_eq_mask mask_eq_exp_minus_1)

lemma uint_plus1_u32:
  assumes "(w :: u32) + 1 \<noteq> 0"
  shows "uint (w + 1) = uint w + 1"
proof (cases "uint w + 1 < 2 ^ 32")
  case True
  then show ?thesis by (simp add: uint_word_ariths)
next
  case False
  moreover have "uint w < 2 ^ 32" using uint_bounded [of w] by simp
  ultimately have "uint w + 1 = 2 ^ 32" by simp
  then have "uint (w + 1) = 0" by (simp add: uint_word_ariths)
  with assms show ?thesis by (simp add: uint_0_iff)
qed

text \<open>The size of an array of pointers does not wrap to zero.\<close>

lemma array_bytes_zero: "(ucast (n :: u32) * 8 :: u64) = 0 \<longleftrightarrow> n = 0"
proof -
  have "unat n * 8 < 2 ^ 64" using unat_u32_less [of n] by simp
  then have "unat (ucast n * 8 :: u64) = unat n * 8" by (simp add: unat_word_ariths)
  then show ?thesis using unat_eq_zero [of "ucast n * 8 :: u64"] unat_eq_zero [of n] by auto
qed

end
