(* ===== verification/Platform.thy ===== *)
theory Platform
  imports Prelude
begin

text \<open>
  What the program uses of the C library and the kernel for memory, and the console of
  \<^verbatim>\<open>src/src/io/io.c\<close>. The record \<open>os\<close> is the part of the process state that
  every component sees; the components extend it with their own static variables, so every
  operation here is polymorphic in the extension.

  Allocation is demonic: \<open>grant s n\<close> says whether the \<open>n\<close>-th request to the system allocator is
  granted, and every theorem is for all such schedules. Blocks are identified by fresh addresses
  that are never reused. \<open>heap\<close> and \<open>regions\<close> are the live blocks of \<open>malloc\<close> and of \<open>mmap\<close> with
  their sizes; \<open>bytes\<close> is the contents. Releasing a pointer that is not live is undefined.

  Every other call that leaves the program (a system call, a function of a third-party library) is
  appended with its arguments to \<open>trace\<close>, and its result is what the environment answers:
  \<open>answer s k f args\<close> is the return value, and one more number the call delivers, of the \<open>k\<close>-th
  such call if it is \<open>f args\<close>, and \<open>noise s k\<close> the bytes it delivers into a buffer. A theorem that
  relies on more about an external function states it as a hypothesis on \<open>answer\<close>.
\<close>

text \<open>
  A message is recorded as the stream it goes to and its format string without the newline that
  ends it.
\<close>

datatype stream = Stdout | Stderr

datatype out_type = ERROR | STD

record os =
  grant :: "nat \<Rightarrow> bool"
  asked :: nat
  fresh :: ptr
  heap :: "ptr \<rightharpoonup> u64"
  regions :: "ptr \<rightharpoonup> u64"
  bytes :: "ptr \<Rightarrow> nat \<Rightarrow> u8"
  console :: "(stream \<times> string) list"
  verbose :: int
  answer :: "nat \<Rightarrow> string \<Rightarrow> int list \<Rightarrow> int \<times> int"
  noise :: "nat \<Rightarrow> nat \<Rightarrow> u8"
  trace :: "(string \<times> int list) list"

text \<open>The initial image of a process whose every request is granted; the instances below use it.\<close>

definition os0 :: os where
  "os0 = \<lparr>grant = (\<lambda>_. True), asked = 0, fresh = 1, heap = Map.empty, regions = Map.empty,
          bytes = (\<lambda>_ _. 0), console = [], verbose = 0, answer = (\<lambda>_ _ _. (0, 0)),
          noise = (\<lambda>_ _. 0), trace = []\<rparr>"

section \<open>The console\<close>

definition printf :: "string \<Rightarrow> 'z os_scheme \<Rightarrow> 'z os_scheme" where
  "printf m s = s\<lparr>console := console s @ [(Stdout, m)]\<rparr>"

definition fprintf_stderr :: "string \<Rightarrow> 'z os_scheme \<Rightarrow> 'z os_scheme" where
  "fprintf_stderr m s = s\<lparr>console := console s @ [(Stderr, m)]\<rparr>"

definition console_output :: "out_type \<Rightarrow> string \<Rightarrow> 'z os_scheme \<Rightarrow> 'z os_scheme" where
  "console_output t m s =
     (case t of
        ERROR \<Rightarrow> fprintf_stderr m s
      | STD \<Rightarrow> printf m s)"

definition nx_output :: "out_type \<Rightarrow> string \<Rightarrow> 'z os_scheme \<Rightarrow> 'z os_scheme" where
  "nx_output t m s =
     (case t of
        ERROR \<Rightarrow> fprintf_stderr m s
      | STD \<Rightarrow> printf m s)"

definition set_verbosity :: "int \<Rightarrow> 'z os_scheme \<Rightarrow> 'z os_scheme" where
  "set_verbosity val s = s\<lparr>verbose := val\<rparr>"

section \<open>malloc, free, mmap, munmap, memset\<close>

definition malloc :: "u64 \<Rightarrow> 'z os_scheme \<Rightarrow> ptr \<times> 'z os_scheme" where
  "malloc n s =
     (if grant s (asked s)
      then (fresh s, s\<lparr>asked := asked s + 1, fresh := fresh s + 1,
                       heap := (heap s)(fresh s \<mapsto> n)\<rparr>)
      else (NULL, s\<lparr>asked := asked s + 1\<rparr>))"

definition free :: "ptr \<Rightarrow> 'z os_scheme \<Rightarrow> 'z os_scheme option" where
  "free p s =
     (if p = NULL then Some s
      else if p \<in> dom (heap s) then Some (s\<lparr>heap := (heap s)(p := None)\<rparr>)
      else None)"

text \<open>An anonymous mapping of length 0 is refused (\<open>EINVAL\<close>); a granted one is zero-filled.
  \<open>MAP_FAILED\<close> is \<open>None\<close>.\<close>

definition mmap :: "u64 \<Rightarrow> 'z os_scheme \<Rightarrow> ptr option \<times> 'z os_scheme" where
  "mmap n s =
     (if n \<noteq> 0 \<and> grant s (asked s)
      then (Some (fresh s), s\<lparr>asked := asked s + 1, fresh := fresh s + 1,
                              regions := (regions s)(fresh s \<mapsto> n),
                              bytes := (bytes s)(fresh s := (\<lambda>_. 0))\<rparr>)
      else (None, s\<lparr>asked := asked s + 1\<rparr>))"

text \<open>\<open>munmap\<close> of a positive length unmaps the page at the base address; of length 0 it is
  refused.\<close>

definition munmap :: "ptr \<Rightarrow> u64 \<Rightarrow> 'z os_scheme \<Rightarrow> 'z os_scheme" where
  "munmap p n s = (if n = 0 then s else s\<lparr>regions := (regions s)(p := None)\<rparr>)"

definition memset :: "ptr \<Rightarrow> u8 \<Rightarrow> nat \<Rightarrow> 'z os_scheme \<Rightarrow> 'z os_scheme" where
  "memset p c n s =
     s\<lparr>bytes := (bytes s)(p := (\<lambda>i. if i < n then c else bytes s p i))\<rparr>"

text \<open>The console writer is an object with one function pointer, to \<open>console_output\<close>; its users call that
  function directly here, so what is left of its construction is the allocation.\<close>

definition get_console_writter :: "'z os_scheme \<Rightarrow> ptr \<times> 'z os_scheme" where
  "get_console_writter s =
     (let (console, s) = malloc 8 s in
      if console = NULL then (NULL, printf ''Failed to allocate console writter'' s) else (console, s))"

text \<open>A write of \<open>n\<close> bytes at a live block is defined when the block has room for them.\<close>

definition room :: "ptr \<Rightarrow> nat \<Rightarrow> 'z os_scheme \<Rightarrow> bool" where
  "room p n s \<longleftrightarrow>
     (case heap s p of
        Some m \<Rightarrow> n \<le> unat m
      | None \<Rightarrow> (case regions s p of Some m \<Rightarrow> n \<le> unat m | None \<Rightarrow> False))"

definition store_bytes :: "ptr \<Rightarrow> nat \<Rightarrow> u8 list \<Rightarrow> 'z os_scheme \<Rightarrow> 'z os_scheme option" where
  "store_bytes p off bs s =
     (if room p (off + length bs) s
      then Some (s\<lparr>bytes := (bytes s)(p := (\<lambda>i. if off \<le> i \<and> i < off + length bs
                                                then bs ! (i - off) else bytes s p i))\<rparr>)
      else None)"

section \<open>Calls that leave the program\<close>

definition ext2 :: "string \<Rightarrow> int list \<Rightarrow> 'z os_scheme \<Rightarrow> (int \<times> int) \<times> 'z os_scheme" where
  "ext2 f args s = (answer s (length (trace s)) f args, s\<lparr>trace := trace s @ [(f, args)]\<rparr>)"

definition ext :: "string \<Rightarrow> int list \<Rightarrow> 'z os_scheme \<Rightarrow> int \<times> 'z os_scheme" where
  "ext f args s = (let (r, s) = ext2 f args s in (fst r, s))"

text \<open>A call that fills \<open>n\<close> bytes of the buffer at \<open>p\<close>, such as \<open>read\<close>: the bytes are the noise of
  this call.\<close>

definition ext_fill :: "string \<Rightarrow> int list \<Rightarrow> ptr \<Rightarrow> nat \<Rightarrow> 'z os_scheme \<Rightarrow> (int \<times> 'z os_scheme) option" where
  "ext_fill f args p n s =
     (let k = length (trace s); (r, s) = ext f args s in
      do { s \<leftarrow> store_bytes p 0 (map (noise s k) [0..<n]) s; Some (r, s) })"

section \<open>Well-formed allocation state\<close>

definition wf_os :: "'z os_scheme \<Rightarrow> bool" where
  "wf_os s \<longleftrightarrow> NULL < fresh s \<and>
     (\<forall>p n. heap s p = Some n \<longrightarrow> NULL < p \<and> p < fresh s \<and> regions s p = None) \<and>
     (\<forall>p n. regions s p = Some n \<longrightarrow> NULL < p \<and> p < fresh s)"

lemma wf_os_fresh: "wf_os s \<Longrightarrow> heap s (fresh s) = None \<and> regions s (fresh s) = None"
  unfolding wf_os_def by (metis less_irrefl not_None_eq)

lemma wf_os_malloc: "wf_os s \<Longrightarrow> malloc n s = (p, s') \<Longrightarrow> wf_os s'"
  using wf_os_fresh [of s] by (auto simp: wf_os_def malloc_def less_Suc_eq split: if_splits)

lemma wf_os_mmap: "wf_os s \<Longrightarrow> mmap n s = (p, s') \<Longrightarrow> wf_os s'"
  using wf_os_fresh [of s] by (auto simp: wf_os_def mmap_def less_Suc_eq split: if_splits)

lemma wf_os_free: "wf_os s \<Longrightarrow> free p s = Some s' \<Longrightarrow> wf_os s'"
  by (auto simp: wf_os_def free_def split: if_splits)

lemma wf_os_munmap: "wf_os s \<Longrightarrow> wf_os (munmap p n s)"
  by (auto simp: wf_os_def munmap_def)

lemma wf_os_cong:
  assumes "fresh t = fresh s" and "heap t = heap s" and "regions t = regions s"
  shows "wf_os t = wf_os s"
  using assms by (simp add: wf_os_def)

lemma wf_os_console [simp]: "wf_os (s\<lparr>console := c\<rparr>) = wf_os s"
  by (rule wf_os_cong) simp_all

lemma wf_os_bytes [simp]: "wf_os (s\<lparr>bytes := b\<rparr>) = wf_os s"
  by (rule wf_os_cong) simp_all

lemma wf_os_trace [simp]: "wf_os (s\<lparr>trace := b\<rparr>) = wf_os s"
  by (rule wf_os_cong) simp_all

lemma wf_os_printf [simp]: "wf_os (printf m s) = wf_os s"
  by (simp add: printf_def)

lemma wf_os_console_output [simp]: "wf_os (console_output t m s) = wf_os s"
  by (cases t) (simp_all add: console_output_def printf_def fprintf_stderr_def)

lemmas printing_defs = printf_def fprintf_stderr_def console_output_def nx_output_def

end
