(* ===== verification/Slist.thy ===== *)
theory Slist
  imports Prelude
begin

text \<open>
  The singly linked list macros \<open>CK_SLIST_*\<close> of
  \<^verbatim>\<open>src/deps/ck-0.5.2/include/ck_queue.h\<close>, which
  \<^verbatim>\<open>src/src/concurrent/concurrent.h\<close> renames to \<open>NX_SLIST_*\<close>. A list is a head
  pointer together with the \<open>sle_next\<close> field of the nodes, a partial map whose domain is the
  nodes that exist; reading the field of anything else is undefined. The lemmas relate the
  pointer operations to operations on the HOL list of the nodes (predicate \<open>slist\<close>).
\<close>

type_synonym links = "ptr \<rightharpoonup> ptr"

section \<open>The macros\<close>

definition slist_first :: "ptr \<times> links \<Rightarrow> ptr" where
  "slist_first l = fst l"

definition slist_insert_head :: "ptr \<Rightarrow> ptr \<times> links \<Rightarrow> (ptr \<times> links) option" where
  "slist_insert_head elm l =
     (if elm \<in> dom (snd l) then Some (elm, (snd l)(elm \<mapsto> fst l)) else None)"

definition slist_remove_head :: "ptr \<times> links \<Rightarrow> (ptr \<times> links) option" where
  "slist_remove_head l = do { n \<leftarrow> snd l (fst l); Some (n, snd l) }"

text \<open>The search loop of \<open>CK_SLIST_REMOVE\<close>: it reads \<open>curelm->sle_next\<close> until that is \<open>elm\<close>,
  and runs into \<open>NULL\<close> when \<open>elm\<close> is not on the list.\<close>

partial_function (option) slist_find_prev :: "links \<Rightarrow> ptr \<Rightarrow> ptr \<Rightarrow> ptr option" where
  "slist_find_prev h curelm elm =
     do { n \<leftarrow> h curelm;
          if n = elm then Some curelm else slist_find_prev h n elm }"

definition slist_remove_after :: "ptr \<Rightarrow> links \<Rightarrow> links option" where
  "slist_remove_after elm h =
     do { n \<leftarrow> h elm; nn \<leftarrow> h n; Some (h(elm \<mapsto> nn)) }"

definition slist_remove :: "ptr \<Rightarrow> ptr \<times> links \<Rightarrow> (ptr \<times> links) option" where
  "slist_remove elm l =
     (if fst l = elm then slist_remove_head l
      else do { curelm \<leftarrow> slist_find_prev (snd l) (fst l) elm;
                h \<leftarrow> slist_remove_after curelm (snd l);
                Some (fst l, h) })"

section \<open>The nodes of a list\<close>

fun slist :: "links \<Rightarrow> ptr \<Rightarrow> ptr list \<Rightarrow> bool" where
  "slist h p [] = (p = NULL)"
| "slist h p (x # xs) =
     (p = x \<and> p \<noteq> NULL \<and> (case h p of None \<Rightarrow> False | Some n \<Rightarrow> slist h n xs))"

lemma slist_NULL [simp]: "slist h NULL xs = (xs = [])"
  by (cases xs) auto

lemma slist_nonnull: "p \<noteq> NULL \<Longrightarrow>
    slist h p xs = (\<exists>n ys. xs = p # ys \<and> h p = Some n \<and> slist h n ys)"
  by (cases xs) (auto split: option.splits)

lemma slist_unique: "slist h p xs \<Longrightarrow> slist h p ys \<Longrightarrow> xs = ys"
proof (induction xs arbitrary: p ys)
  case Nil
  then show ?case by simp
next
  case (Cons x xs)
  then show ?case by (cases ys) (auto split: option.splits)
qed

lemma slist_in_dom: "slist h p xs \<Longrightarrow> set xs \<subseteq> dom h"
  by (induction xs arbitrary: p) (auto split: option.splits)

lemma slist_not_NULL: "slist h p xs \<Longrightarrow> NULL \<notin> set xs"
  by (induction xs arbitrary: p) (auto split: option.splits)

lemma slist_suffix: "slist h p (as @ bs) \<Longrightarrow> \<exists>q. slist h q bs"
  by (induction as arbitrary: p) (auto split: option.splits)

lemma slist_hd_fresh:
  assumes "slist h p (x # xs)"
  shows "x \<notin> set xs"
proof
  assume "x \<in> set xs"
  then obtain as bs where xs: "xs = as @ x # bs" by (auto simp: in_set_conv_decomp)
  with assms have "slist h p ((x # as) @ x # bs)" by (simp only: append_Cons)
  then obtain q where "slist h q (x # bs)" using slist_suffix by blast
  moreover from this have "q = x" by simp
  ultimately have "slist h x (x # bs)" by blast
  moreover from assms have "p = x" by simp
  with assms have "slist h x (x # xs)" by blast
  ultimately have "x # xs = x # bs" by (metis slist_unique)
  with xs show False by simp
qed

lemma slist_distinct: "slist h p xs \<Longrightarrow> distinct xs"
proof (induction xs arbitrary: p)
  case Nil
  then show ?case by simp
next
  case (Cons x xs)
  from Cons.prems have "x \<notin> set xs" by (rule slist_hd_fresh)
  moreover from Cons have "distinct xs" by (auto split: option.splits)
  ultimately show ?case by simp
qed

lemma slist_cong: "(\<And>q. q \<in> set xs \<Longrightarrow> h' q = h q) \<Longrightarrow> slist h' p xs = slist h p xs"
proof (induction xs arbitrary: p)
  case Nil
  then show ?case by simp
next
  case (Cons x xs)
  then show ?case by (auto split: option.splits)
qed

lemma slist_upd_other [simp]: "q \<notin> set xs \<Longrightarrow> slist (h(q := v)) p xs = slist h p xs"
  by (rule slist_cong) auto

lemma slist_frame:
  "slist h p xs \<Longrightarrow> (\<forall>q. q \<notin> B \<longrightarrow> h' q = h q) \<Longrightarrow> set xs \<inter> B = {} \<Longrightarrow> slist h' p xs"
  using slist_cong [of xs h' h p] by blast

section \<open>The operations on represented lists\<close>

lemma slist_first_hd: "slist h p xs \<Longrightarrow> slist_first (p, h) = (case xs of [] \<Rightarrow> NULL | x # _ \<Rightarrow> x)"
  by (cases xs) (auto simp: slist_first_def)

lemma slist_insert_head_Cons:
  assumes "slist h p xs" and "x \<in> dom h" and "x \<notin> set xs" and "x \<noteq> NULL"
  shows "\<exists>h'. slist_insert_head x (p, h) = Some (x, h') \<and> slist h' x (x # xs) \<and>
              dom h' = dom h \<and> (\<forall>q. q \<noteq> x \<longrightarrow> h' q = h q)"
  using assms by (auto simp: slist_insert_head_def)

text \<open>The search finds the predecessor of any member but the first.\<close>

lemma slist_find_prev_split:
  assumes "slist h p (as @ y # x # bs)"
  shows "slist_find_prev h p x = Some y"
  using assms
proof (induction as arbitrary: p)
  case Nil
  then show ?case
    by (subst slist_find_prev.simps) (auto split: option.splits)
next
  case (Cons a as)
  then obtain n where n: "h p = Some n" "slist h n (as @ y # x # bs)"
    by (auto split: option.splits)
  have "n \<noteq> x"
    using slist_distinct [OF n(2)] n(2) by (cases as) auto
  with n Cons.IH [OF n(2)] show ?case
    by (subst slist_find_prev.simps) simp
qed

text \<open>Off the list it never returns: it dereferences \<open>NULL\<close> after the last node.\<close>

lemma slist_find_prev_absent:
  assumes "slist h p xs" and "x \<notin> set xs" and "h NULL = None" and "x \<noteq> NULL"
  shows "slist_find_prev h p x = None"
  using assms
proof (induction xs arbitrary: p)
  case Nil
  then show ?case by (subst slist_find_prev.simps) simp
next
  case (Cons a xs)
  then obtain n where n: "h p = Some n" "slist h n xs" by (auto split: option.splits)
  have "n \<noteq> x" using n(2) Cons.prems by (cases xs) auto
  moreover have "slist_find_prev h n x = None"
    using Cons n by (intro Cons.IH) auto
  ultimately show ?case using n by (subst slist_find_prev.simps) simp
qed

text \<open>Unlinking a segment in the middle.\<close>

lemma slist_unlink:
  assumes "slist h p (as @ y # x # bs)" and "h x = Some nn"
  shows "slist (h(y \<mapsto> nn)) p (as @ y # bs)"
  using assms
proof (induction as arbitrary: p)
  case Nil
  have y: "y \<notin> set (x # bs)" using Nil.prems(1) slist_hd_fresh by fastforce
  from Nil have "slist h nn bs" by (auto split: option.splits)
  with y have "slist (h(y \<mapsto> nn)) nn bs" by simp
  with Nil show ?case by (simp del: fun_upd_apply add: fun_upd_same)
next
  case (Cons a as)
  then obtain n where n: "h p = Some n" "slist h n (as @ y # x # bs)" and a: "p = a" "p \<noteq> NULL"
    by (auto split: option.splits)
  have "a \<noteq> y" using slist_hd_fresh Cons.prems(1) by fastforce
  with n a Cons show ?case by auto
qed

lemma slist_remove_remove1:
  assumes l: "slist h p xs" and x: "x \<in> set xs"
  shows "\<exists>p' h'. slist_remove x (p, h) = Some (p', h') \<and> slist h' p' (remove1 x xs) \<and>
                 dom h' = dom h \<and> (\<forall>q. q \<notin> set xs \<longrightarrow> h' q = h q)"
proof -
  from l have dist: "distinct xs" by (rule slist_distinct)
  obtain as bs where xs: "xs = as @ x # bs" and xa: "x \<notin> set as"
    using in_set_split_distinct [OF x dist] by metis
  show ?thesis
  proof (cases as rule: rev_cases)
    case Nil
    with l xs show ?thesis
      by (auto simp: slist_remove_def slist_remove_head_def split: option.splits)
  next
    case (snoc as' y)
    with xs l have l': "slist h p (as' @ y # x # bs)" by simp
    have px: "p \<noteq> x" using l' xa snoc by (cases as') auto
    from l' have "x \<in> dom h" and "y \<in> dom h" using slist_in_dom by fastforce+
    then obtain nn where nn: "h x = Some nn" by blast
    from l' obtain q where "slist h q (y # x # bs)" using slist_suffix by blast
    then have yx: "h y = Some x" by (auto split: option.splits)
    have "slist_remove x (p, h) = Some (p, h(y \<mapsto> nn))"
      using px slist_find_prev_split [OF l'] yx nn
      by (simp add: slist_remove_def slist_remove_after_def)
    moreover have "slist (h(y \<mapsto> nn)) p (remove1 x xs)"
      using slist_unlink [OF l' nn] xs snoc xa by (simp add: remove1_split remove1_append)
    ultimately show ?thesis using \<open>y \<in> dom h\<close> xs snoc by auto
  qed
qed

lemma slist_remove_absent:
  assumes "slist h p xs" and "x \<notin> set xs" and "h NULL = None" and "x \<noteq> NULL"
  shows "slist_remove x (p, h) = None"
proof (cases "p = x")
  case True
  with assms show ?thesis by (cases xs) auto
next
  case False
  with slist_find_prev_absent [OF assms] show ?thesis by (simp add: slist_remove_def)
qed

end
