(* ===== verification/Memory.thy ===== *)
theory Memory
  imports Platform Slist "HOL-Library.Multiset"
begin

text \<open>
  Model of \<^verbatim>\<open>src/src/memory/memory.c\<close> and \<^verbatim>\<open>memory.h\<close>: the allocation
  wrappers and the shared memory pools. A pool is a spinlock and two \<open>CK_SLIST\<close>s over blocks in
  shared memory; \<open>nexts\<close> holds the link field and \<open>bptrs\<close> the \<open>ptr\<close> field of every
  \<open>struct memory_block\<close>. The spinlock is the fetch-and-store lock of
  \<^verbatim>\<open>ck-0.5.2/include/spinlock/fas.h\<close>; taken by a sequential caller that already holds it,
  it spins forever (\<open>None\<close>). The predicate \<open>pool_rep\<close> relates a pool to the lists of its free and
  its allocated blocks, and the locale \<open>block_pool\<close> is the contract its clients rely on.
\<close>

record mem_pool_shared =
  lock :: bool
  block_size :: u32
  block_count :: u32
  free_list :: ptr
  allocated_list :: ptr

record mem = os +
  nexts :: links
  bptrs :: "ptr \<rightharpoonup> ptr"
  pools :: "ptr \<rightharpoonup> mem_pool_shared"

section \<open>Allocation wrappers\<close>

definition default_mem_alloc :: "u64 \<Rightarrow> 'z os_scheme \<Rightarrow> ptr \<times> 'z os_scheme" where
  "default_mem_alloc nbytes s =
     (if nbytes = 0 then (NULL, s)
      else let (p, s) = malloc nbytes s in
           if p = NULL then (NULL, s) else (p, s))"

definition default_mem_alloc_shared :: "u64 \<Rightarrow> 'z os_scheme \<Rightarrow> ptr \<times> 'z os_scheme" where
  "default_mem_alloc_shared nbytes s =
     (case mmap nbytes s of
        (None, s) \<Rightarrow> (NULL, s)
      | (Some pointer, s) \<Rightarrow> (pointer, s))"

definition mem_alloc :: "u64 \<Rightarrow> 'z os_scheme \<Rightarrow> ptr \<times> 'z os_scheme" where
  "mem_alloc nbytes s =
     (if nbytes = 0 then (NULL, printf ''Can't allocate zero bytes'' s)
      else let (p, s) = malloc nbytes s in
           if p = NULL then (NULL, printf ''Can't allocate: %llu bytes, because: %s'' s)
           else (p, s))"

text \<open>\<open>memset\<close> returns its first argument, so the second error branch of the two \<open>calloc\<close>
  functions is never taken.\<close>

definition mem_calloc :: "u64 \<Rightarrow> 'z os_scheme \<Rightarrow> ptr \<times> 'z os_scheme" where
  "mem_calloc nbytes s =
     (if nbytes = 0 then (NULL, printf ''nbytes is zero'' s)
      else let (p, s) = mem_alloc nbytes s in
           if p = NULL then (NULL, printf ''Can't allocate buf'' s)
           else (p, memset p 0 (unat nbytes) s))"

definition mem_free :: "ptr \<Rightarrow> 'z os_scheme \<Rightarrow> (ptr \<times> 'z os_scheme) option" where
  "mem_free p s = (if p = NULL then Some (p, s) else do { s \<leftarrow> free p s; Some (NULL, s) })"

definition mem_alloc_shared :: "u64 \<Rightarrow> 'z os_scheme \<Rightarrow> ptr \<times> 'z os_scheme" where
  "mem_alloc_shared nbytes s =
     (case mmap nbytes s of
        (None, s) \<Rightarrow> (NULL, printf ''mmap: %s'' s)
      | (Some pointer, s) \<Rightarrow> (pointer, s))"

definition mem_calloc_shared :: "u64 \<Rightarrow> 'z os_scheme \<Rightarrow> ptr \<times> 'z os_scheme" where
  "mem_calloc_shared nbytes s =
     (if nbytes = 0 then (NULL, printf ''nbytes is zero'' s)
      else case mmap nbytes s of
        (None, s) \<Rightarrow> (NULL, printf ''mmap: %s'' s)
      | (Some pointer, s) \<Rightarrow> (pointer, memset pointer 0 (unat nbytes) s))"

definition mem_free_shared :: "ptr \<Rightarrow> u64 \<Rightarrow> 'z os_scheme \<Rightarrow> ptr \<times> 'z os_scheme" where
  "mem_free_shared p nbytes s = (if p = NULL then (p, s) else (NULL, munmap p nbytes s))"

definition default_mem_free :: "ptr \<Rightarrow> 'z os_scheme \<Rightarrow> (ptr \<times> 'z os_scheme) option" where
  "default_mem_free p s =
     (if p = NULL then Some (p, s) else do { s \<leftarrow> free p s; Some (NULL, s) })"

definition default_mem_free_shared :: "ptr \<Rightarrow> u64 \<Rightarrow> 'z os_scheme \<Rightarrow> ptr \<times> 'z os_scheme" where
  "default_mem_free_shared p nbytes s = (if p = NULL then (p, s) else (NULL, munmap p nbytes s))"

text \<open>The allocator object only carries the four default functions, which the other components
  call directly here; what is left of its construction is the allocation itself.\<close>

definition sizeof_memory_allocator :: u64 where
  "sizeof_memory_allocator = 32"

definition get_default_allocator :: "'z os_scheme \<Rightarrow> ptr \<times> 'z os_scheme" where
  "get_default_allocator s =
     (let (allocator, s) = default_mem_alloc sizeof_memory_allocator s in
      if allocator = NULL then (NULL, s) else (allocator, s))"

section \<open>Pools\<close>

definition sizeof_memory_block :: u64 where
  "sizeof_memory_block = 16"

definition sizeof_mem_pool_shared :: u64 where
  "sizeof_mem_pool_shared = 32"

definition spinlock_lock :: "ptr \<Rightarrow> 'z mem_scheme \<Rightarrow> 'z mem_scheme option" where
  "spinlock_lock pool s =
     do { pl \<leftarrow> pools s pool;
          if lock pl then None else Some (s\<lparr>pools := (pools s)(pool \<mapsto> pl\<lparr>lock := True\<rparr>)\<rparr>) }"

definition spinlock_unlock :: "ptr \<Rightarrow> 'z mem_scheme \<Rightarrow> 'z mem_scheme option" where
  "spinlock_unlock pool s =
     do { pl \<leftarrow> pools s pool; Some (s\<lparr>pools := (pools s)(pool \<mapsto> pl\<lparr>lock := False\<rparr>)\<rparr>) }"

definition free_list_insert_head :: "ptr \<Rightarrow> ptr \<Rightarrow> 'z mem_scheme \<Rightarrow> 'z mem_scheme option" where
  "free_list_insert_head pool block s =
     do { pl \<leftarrow> pools s pool;
          (hd, h) \<leftarrow> slist_insert_head block (free_list pl, nexts s);
          Some (s\<lparr>nexts := h, pools := (pools s)(pool \<mapsto> pl\<lparr>free_list := hd\<rparr>)\<rparr>) }"

definition free_list_remove :: "ptr \<Rightarrow> ptr \<Rightarrow> 'z mem_scheme \<Rightarrow> 'z mem_scheme option" where
  "free_list_remove pool block s =
     do { pl \<leftarrow> pools s pool;
          (hd, h) \<leftarrow> slist_remove block (free_list pl, nexts s);
          Some (s\<lparr>nexts := h, pools := (pools s)(pool \<mapsto> pl\<lparr>free_list := hd\<rparr>)\<rparr>) }"

definition allocated_list_insert_head :: "ptr \<Rightarrow> ptr \<Rightarrow> 'z mem_scheme \<Rightarrow> 'z mem_scheme option" where
  "allocated_list_insert_head pool block s =
     do { pl \<leftarrow> pools s pool;
          (hd, h) \<leftarrow> slist_insert_head block (allocated_list pl, nexts s);
          Some (s\<lparr>nexts := h, pools := (pools s)(pool \<mapsto> pl\<lparr>allocated_list := hd\<rparr>)\<rparr>) }"

definition allocated_list_remove :: "ptr \<Rightarrow> ptr \<Rightarrow> 'z mem_scheme \<Rightarrow> 'z mem_scheme option" where
  "allocated_list_remove pool block s =
     do { pl \<leftarrow> pools s pool;
          (hd, h) \<leftarrow> slist_remove block (allocated_list pl, nexts s);
          Some (s\<lparr>nexts := h, pools := (pools s)(pool \<mapsto> pl\<lparr>allocated_list := hd\<rparr>)\<rparr>) }"

text \<open>The loop of \<open>mem_create_shared_pool\<close>, with the number of blocks still to create; the flag
  tells whether it ran to the end or returned \<open>NULL\<close> on a failed allocation.\<close>

fun create_blocks :: "nat \<Rightarrow> ptr \<Rightarrow> u32 \<Rightarrow> 'z mem_scheme \<Rightarrow> (bool \<times> 'z mem_scheme) option" where
  "create_blocks 0 pool bsize s = Some (True, s)"
| "create_blocks (Suc n) pool bsize s =
     (let (block, s) = default_mem_alloc_shared sizeof_memory_block s in
      if block = NULL then Some (False, printf ''Can't alloc mem_block'' s)
      else
        let s = s\<lparr>nexts := (nexts s)(block \<mapsto> NULL), bptrs := (bptrs s)(block \<mapsto> NULL)\<rparr>;
            (p, s) = default_mem_alloc_shared (ucast bsize) s;
            s = s\<lparr>bptrs := (bptrs s)(block \<mapsto> p)\<rparr> in
        if p = NULL then Some (False, printf ''Can't alloc memory block pointer.'' s)
        else do { s \<leftarrow> free_list_insert_head pool block s; create_blocks n pool bsize s })"

definition mem_create_shared_pool ::
    "u32 \<Rightarrow> u32 \<Rightarrow> 'z mem_scheme \<Rightarrow> (ptr \<times> 'z mem_scheme) option" where
  "mem_create_shared_pool bsize bcount s =
     (if bsize = 0 then Some (NULL, printf ''block_size is zero'' s)
      else if bcount = 0 then Some (NULL, printf ''block_count is zero'' s)
      else
        let (pool, s) = default_mem_alloc_shared sizeof_mem_pool_shared s in
        if pool = NULL then Some (NULL, printf ''Can't allocate shared memory'' s)
        else
          let s_pool = \<lparr>lock = False, block_size = bsize, block_count = bcount,
                        free_list = NULL, allocated_list = NULL\<rparr>;
              s = s\<lparr>pools := (pools s)(pool \<mapsto> s_pool)\<rparr> in
          do { (ok, s) \<leftarrow> create_blocks (unat bcount) pool bsize s;
               Some (if ok then pool else NULL, s) })"

definition mem_clean_shared_pool :: "ptr \<Rightarrow> 'z mem_scheme \<Rightarrow> 'z mem_scheme" where
  "mem_clean_shared_pool pool s = s"

text \<open>One round of \<open>mem_get_shared_block\<close> takes the lock, unlinks the first free block if there is
  one, and drops the lock; the function repeats the round until a block was found.\<close>

partial_function (option) mem_get_shared_block ::
    "ptr \<Rightarrow> 'z mem_scheme \<Rightarrow> (ptr \<times> 'z mem_scheme) option" where
  "mem_get_shared_block pool s =
     do { s \<leftarrow> spinlock_lock pool s;
          pl \<leftarrow> pools s pool;
          let block = free_list pl in
          if block \<noteq> NULL
          then do { s \<leftarrow> free_list_remove pool block s;
                    s \<leftarrow> allocated_list_insert_head pool block s;
                    s \<leftarrow> spinlock_unlock pool s;
                    Some (block, s) }
          else do { s \<leftarrow> spinlock_unlock pool s; mem_get_shared_block pool s } }"

definition mem_free_shared_block :: "ptr \<Rightarrow> ptr \<Rightarrow> 'z mem_scheme \<Rightarrow> 'z mem_scheme option" where
  "mem_free_shared_block block pool s =
     (if block = NULL then Some (printf ''Block is NULL'' s)
      else if pool = NULL then Some (printf ''Pool is NULL'' s)
      else do { s \<leftarrow> spinlock_lock pool s;
                s \<leftarrow> allocated_list_remove pool block s;
                s \<leftarrow> free_list_insert_head pool block s;
                spinlock_unlock pool s })"


section \<open>The free and the allocated blocks of a pool\<close>

definition pool_rep :: "ptr \<Rightarrow> 'z mem_scheme \<Rightarrow> ptr list \<Rightarrow> ptr list \<Rightarrow> bool" where
  "pool_rep pool s fs as \<longleftrightarrow>
     (case pools s pool of
        None \<Rightarrow> False
      | Some pl \<Rightarrow> \<not> lock pl \<and> slist (nexts s) (free_list pl) fs \<and>
                  slist (nexts s) (allocated_list pl) as \<and> set fs \<inter> set as = {} \<and>
                  nexts s NULL = None)"

text \<open>What an operation on one pool may touch: the descriptor of that pool, up to its geometry,
  and the links of the blocks in \<open>bs\<close>.\<close>

definition pool_frame :: "ptr \<Rightarrow> ptr set \<Rightarrow> 'z mem_scheme \<Rightarrow> 'z mem_scheme \<Rightarrow> bool" where
  "pool_frame pool bs s s' \<longleftrightarrow>
     (\<exists>h pl pl'. s' = s\<lparr>nexts := h, pools := (pools s)(pool \<mapsto> pl')\<rparr> \<and>
        pools s pool = Some pl \<and> block_size pl' = block_size pl \<and>
        block_count pl' = block_count pl \<and>
        dom h = dom (nexts s) \<and> (\<forall>q. q \<notin> bs \<longrightarrow> h q = nexts s q))"

lemma pool_frameI:
  assumes "pools s pool = Some pl" and "block_size pl' = block_size pl"
    and "block_count pl' = block_count pl" and "dom h = dom (nexts s)"
    and "\<And>q. q \<notin> bs \<Longrightarrow> h q = nexts s q"
  shows "pool_frame pool bs s (s\<lparr>nexts := h, pools := (pools s)(pool \<mapsto> pl')\<rparr>)"
  unfolding pool_frame_def using assms by (intro exI conjI allI impI) (rule refl, auto)

lemma pool_repE:
  assumes "pool_rep pool s fs as"
  obtains pl where "pools s pool = Some pl" and "\<not> lock pl"
    and "slist (nexts s) (free_list pl) fs" and "slist (nexts s) (allocated_list pl) as"
    and "set fs \<inter> set as = {}" and "nexts s NULL = None"
  using assms by (auto simp: pool_rep_def split: option.splits)

lemma pool_rep_distinct: "pool_rep pool s fs as \<Longrightarrow> distinct (fs @ as)"
  by (elim pool_repE) (auto dest: slist_distinct)

lemma pool_rep_not_NULL: "pool_rep pool s fs as \<Longrightarrow> NULL \<notin> set (fs @ as)"
  by (elim pool_repE) (auto dest: slist_not_NULL)

lemma pool_rep_unique: "pool_rep pool s fs as \<Longrightarrow> pool_rep pool s fs' as' \<Longrightarrow> fs = fs' \<and> as = as'"
  by (auto elim!: pool_repE dest: slist_unique)

lemma pool_frame_other:
  assumes "pool_frame pool bs s s'" and "q \<noteq> pool" and "pool_rep q s fs as"
    and "bs \<inter> set (fs @ as) = {}"
  shows "pool_rep q s' fs as"
proof -
  from assms(1) obtain h pl' where s': "s' = s\<lparr>nexts := h, pools := (pools s)(pool \<mapsto> pl')\<rparr>"
    and h: "\<forall>q. q \<notin> bs \<longrightarrow> h q = nexts s q" and dom: "dom h = dom (nexts s)"
    by (auto simp: pool_frame_def)
  from assms(3) obtain ql where ql: "pools s q = Some ql" "\<not> lock ql"
    "slist (nexts s) (free_list ql) fs" "slist (nexts s) (allocated_list ql) as"
    "set fs \<inter> set as = {}" "nexts s NULL = None" by (rule pool_repE)
  have "slist h (free_list ql) fs" "slist h (allocated_list ql) as"
    using ql h assms(4) by (auto intro: slist_cong [THEN iffD2])
  moreover have "h NULL = None" using dom ql(6) by auto
  ultimately show ?thesis using ql s' assms(2) by (simp add: pool_rep_def)
qed

lemma pool_frame_mono: "pool_frame pool bs s s' \<Longrightarrow> bs \<subseteq> bs' \<Longrightarrow> pool_frame pool bs' s s'"
  unfolding pool_frame_def by blast

lemma pool_frame_same: "pool_frame pool bs s s' \<Longrightarrow>
    bptrs s' = bptrs s \<and> regions s' = regions s \<and> heap s' = heap s \<and> bytes s' = bytes s \<and>
    console s' = console s \<and> fresh s' = fresh s"
  by (auto simp: pool_frame_def)

section \<open>Taking and returning blocks\<close>

lemma mem_get_shared_block_rep:
  assumes "pool_rep pool s (f # fs) as"
  shows "\<exists>s'. mem_get_shared_block pool s = Some (f, s') \<and> pool_rep pool s' fs (f # as) \<and>
              pool_frame pool {f} s s'"
proof -
  from assms obtain pl n where pl: "pools s pool = Some pl" "\<not> lock pl" "free_list pl = f"
      "f \<noteq> NULL" "nexts s f = Some n" "slist (nexts s) n fs"
      "slist (nexts s) (allocated_list pl) as" "set (f # fs) \<inter> set as = {}" "nexts s NULL = None"
    by (auto elim!: pool_repE split: option.splits)
  have f: "f \<notin> set fs" using pool_rep_distinct [OF assms] by simp
  let ?h = "(nexts s)(f \<mapsto> allocated_list pl)"
  let ?pl = "pl\<lparr>free_list := n, allocated_list := f, lock := False\<rparr>"
  let ?s = "s\<lparr>nexts := ?h, pools := (pools s)(pool \<mapsto> ?pl)\<rparr>"
  have "mem_get_shared_block pool s = Some (f, ?s)"
    using pl by (subst mem_get_shared_block.simps)
      (simp add: spinlock_lock_def spinlock_unlock_def free_list_remove_def slist_remove_def
        slist_remove_head_def allocated_list_insert_head_def slist_insert_head_def domI Let_def)
  moreover have "slist ?h n fs" "slist ?h f (f # as)" "?h NULL = None"
    using pl f by (simp_all del: fun_upd_apply add: fun_upd_same fun_upd_other)
  then have "pool_rep pool ?s fs (f # as)"
    using pl f by (simp add: pool_rep_def del: slist.simps)
  moreover have "pool_frame pool {f} s ?s"
    using pl by (intro pool_frameI) auto
  ultimately show ?thesis by blast
qed

text \<open>With no free block the function never returns: each round leaves the pool as it was.\<close>


lemma mem_get_shared_block_empty:
  assumes "pool_rep pool s [] as"
  shows "mem_get_shared_block pool s = None"
proof -
  have "\<not> pool_rep pool s [] as" if "mem_get_shared_block pool s = Some r" for r
  proof (rule mem_get_shared_block.raw_induct [OF _ that], rule notI)
    fix get pool r and s :: "'a mem_scheme"
    assume IH: "\<And>pool s r. get pool s = Some r \<Longrightarrow> \<not> pool_rep pool s [] as"
      and get: "do { s \<leftarrow> spinlock_lock pool s;
          pl \<leftarrow> pools s pool;
          let block = free_list pl in
          if block \<noteq> NULL
          then do { s \<leftarrow> free_list_remove pool block s;
                    s \<leftarrow> allocated_list_insert_head pool block s;
                    s \<leftarrow> spinlock_unlock pool s;
                    Some (block, s) }
          else do { s \<leftarrow> spinlock_unlock pool s; get pool s } } = Some r"
      and rep: "pool_rep pool s [] as"
    from rep obtain pl where pl: "pools s pool = Some pl" "\<not> lock pl" "free_list pl = NULL"
      by (auto elim!: pool_repE)
    let ?s = "s\<lparr>pools := (pools s)(pool \<mapsto> pl\<lparr>lock := False\<rparr>)\<rparr>"
    from get pl have "get pool ?s = Some r" by (simp add: spinlock_lock_def spinlock_unlock_def)
    then have "\<not> pool_rep pool ?s [] as" by (rule IH)
    with rep pl show False by (simp add: pool_rep_def)
  qed
  with assms show ?thesis by (cases "mem_get_shared_block pool s") auto
qed

lemma mem_free_shared_block_rep:
  assumes rep: "pool_rep pool s fs as" and b: "b \<in> set as" and pool: "pool \<noteq> NULL"
  shows "\<exists>s'. mem_free_shared_block b pool s = Some s' \<and> pool_rep pool s' (b # fs) (remove1 b as) \<and>
              pool_frame pool (set as) s s'"
proof -
  from rep obtain pl where pl: "pools s pool = Some pl" "\<not> lock pl"
      "slist (nexts s) (free_list pl) fs" "slist (nexts s) (allocated_list pl) as"
      "set fs \<inter> set as = {}" "nexts s NULL = None" by (rule pool_repE)
  from slist_remove_remove1 [OF pl(4) b] obtain p' h' where
    rm: "slist_remove b (allocated_list pl, nexts s) = Some (p', h')"
      "slist h' p' (remove1 b as)" "dom h' = dom (nexts s)" "\<forall>q. q \<notin> set as \<longrightarrow> h' q = nexts s q"
    by blast
  have bn: "b \<noteq> NULL" and bd: "b \<in> dom h'" and bf: "b \<notin> set fs"
    using slist_not_NULL [OF pl(4)] slist_in_dom [OF pl(4)] b rm(3) pl(5) by auto
  have ba: "b \<notin> set (remove1 b as)" using slist_distinct [OF pl(4)] by simp
  let ?h = "h'(b \<mapsto> free_list pl)"
  let ?pl = "pl\<lparr>allocated_list := p', free_list := b, lock := False\<rparr>"
  let ?s = "s\<lparr>nexts := ?h, pools := (pools s)(pool \<mapsto> ?pl)\<rparr>"
  have "mem_free_shared_block b pool s = Some ?s"
    using pl rm bn bd pool
    by (simp add: mem_free_shared_block_def spinlock_lock_def spinlock_unlock_def
        allocated_list_remove_def free_list_insert_head_def slist_insert_head_def)
  moreover have "slist h' (free_list pl) fs"
    using pl(3,5) rm(4) by (auto intro: slist_cong [THEN iffD2])
  with bf have "slist ?h (free_list pl) fs" by simp
  with bn have "slist ?h b (b # fs)" by (simp del: fun_upd_apply add: fun_upd_same)
  moreover have "slist ?h p' (remove1 b as)" using rm(2) ba by simp
  moreover have "?h NULL = None" using rm(3) pl(6) bn by auto
  moreover have "set (b # fs) \<inter> set (remove1 b as) = {}"
    using pl(5) ba set_remove1_subset [of b as] by auto
  ultimately have "pool_rep pool ?s (b # fs) (remove1 b as)"
    using pl by (simp add: pool_rep_def del: slist.simps)
  moreover have "pool_frame pool (set as) s ?s"
    using pl(1) rm(3,4) bd b by (intro pool_frameI) auto
  ultimately show ?thesis using \<open>mem_free_shared_block b pool s = Some ?s\<close> by blast
qed

text \<open>Returning a block that is not allocated (a double free, or a block of another pool) walks
  off the end of the allocated list.\<close>

lemma mem_free_shared_block_absent:
  assumes "pool_rep pool s fs as" and "b \<notin> set as" and "b \<noteq> NULL" and "pool \<noteq> NULL"
  shows "mem_free_shared_block b pool s = None"
proof -
  from assms(1) obtain pl where "pools s pool = Some pl" "\<not> lock pl"
      "slist (nexts s) (allocated_list pl) as" "nexts s NULL = None" by (rule pool_repE)
  with slist_remove_absent [of "nexts s" "allocated_list pl" as b] assms show ?thesis
    by (simp add: mem_free_shared_block_def spinlock_lock_def allocated_list_remove_def)
qed

section \<open>The contract of a pool\<close>

text \<open>A client takes blocks and returns them. On the abstract pool, a pair of lists, \<open>Take\<close> moves
  the first free block to the allocated ones and blocks for good when there is none, and
  \<open>Return b\<close> moves an allocated block back and is an error for any other block.\<close>

datatype 'b pool_op = Take | Return 'b

fun abs_run :: "'b pool_op list \<Rightarrow> 'b list \<times> 'b list \<Rightarrow> ('b list \<times> 'b list \<times> 'b list) option" where
  "abs_run [] p = Some ([], p)"
| "abs_run (Take # ops) ([], as) = None"
| "abs_run (Take # ops) (f # fs, as) =
     do { (bs, p) \<leftarrow> abs_run ops (fs, f # as); Some (f # bs, p) }"
| "abs_run (Return b # ops) (fs, as) =
     (if b \<in> set as then abs_run ops (b # fs, remove1 b as) else None)"

fun pool_run ::
    "('s \<Rightarrow> ('b \<times> 's) option) \<Rightarrow> ('b \<Rightarrow> 's \<Rightarrow> 's option) \<Rightarrow> 'b pool_op list \<Rightarrow> 's \<Rightarrow>
     ('b list \<times> 's) option" where
  "pool_run get put [] s = Some ([], s)"
| "pool_run get put (Take # ops) s =
     do { (b, s) \<leftarrow> get s; (bs, s) \<leftarrow> pool_run get put ops s; Some (b # bs, s) }"
| "pool_run get put (Return b # ops) s = do { s \<leftarrow> put b s; pool_run get put ops s }"

lemma abs_run_conserves:
  "abs_run ops (fs, as) = Some (bs, fs', as') \<Longrightarrow> mset fs' + mset as' = mset fs + mset as"
proof (induction ops "(fs, as)" arbitrary: fs as bs rule: abs_run.induct)
  case (4 b ops fs as)
  then show ?case by (auto split: if_splits)
qed (auto split: option.splits prod.splits simp: bind_eq_Some_conv)

locale block_pool =
  fixes rep :: "'s \<Rightarrow> 'b list \<Rightarrow> 'b list \<Rightarrow> bool"
    and get :: "'s \<Rightarrow> ('b \<times> 's) option"
    and put :: "'b \<Rightarrow> 's \<Rightarrow> 's option"
    and valid :: "'b \<Rightarrow> bool"
  assumes get_rep: "rep s (f # fs) as \<Longrightarrow> \<exists>s'. get s = Some (f, s') \<and> rep s' fs (f # as)"
    and get_empty: "rep s [] as \<Longrightarrow> get s = None"
    and put_rep: "rep s fs as \<Longrightarrow> b \<in> set as \<Longrightarrow>
                    \<exists>s'. put b s = Some s' \<and> rep s' (b # fs) (remove1 b as)"
    and put_absent: "rep s fs as \<Longrightarrow> b \<notin> set as \<Longrightarrow> valid b \<Longrightarrow> put b s = None"
    and rep_distinct: "rep s fs as \<Longrightarrow> distinct (fs @ as)"
begin

lemma run_refines:
  assumes "rep s fs as" and "\<And>b. Return b \<in> set ops \<Longrightarrow> valid b"
  shows "case abs_run ops (fs, as) of
           None \<Rightarrow> pool_run get put ops s = None
         | Some (bs, fs', as') \<Rightarrow> \<exists>s'. pool_run get put ops s = Some (bs, s') \<and> rep s' fs' as'"
  using assms
proof (induction ops "(fs, as)" arbitrary: s fs as rule: abs_run.induct)
  case 1
  then show ?case by simp
next
  case (2 ops as)
  then show ?case by (simp add: get_empty)
next
  case (3 ops f fs as)
  from get_rep [OF 3(2)] obtain s' where s': "get s = Some (f, s')" "rep s' fs (f # as)" by blast
  from 3(1) [OF s'(2)] 3(3) s'(1) show ?case by (auto split: option.splits prod.splits)
next
  case (4 b ops fs as)
  show ?case
  proof (cases "b \<in> set as")
    case True
    from put_rep [OF 4(2) this] obtain s' where "put b s = Some s'" "rep s' (b # fs) (remove1 b as)"
      by blast
    with 4(1) [OF True this(2)] 4(3) True show ?thesis by (auto split: option.splits prod.splits)
  next
    case False
    with put_absent [OF 4(2) False] 4(3) show ?thesis by simp
  qed
qed

lemma take_many:
  "rep s fs as \<Longrightarrow> n \<le> length fs \<Longrightarrow>
     \<exists>s'. pool_run get put (replicate n Take) s = Some (take n fs, s') \<and>
          rep s' (drop n fs) (rev (take n fs) @ as)"
proof (induction n arbitrary: s fs as)
  case (Suc n)
  then obtain f fs' where fs: "fs = f # fs'" by (cases fs) auto
  from get_rep [of s f fs' as] Suc.prems fs obtain s' where
    s': "get s = Some (f, s')" "rep s' fs' (f # as)" by blast
  from Suc.IH [OF s'(2)] Suc.prems fs s'(1) show ?case by auto
qed auto

lemma take_too_many:
  assumes "rep s fs as" and "length fs < n"
  shows "pool_run get put (replicate n Take) s = None"
proof -
  have "abs_run (replicate n Take) (fs, as) = None" using assms(2)
  proof (induction n arbitrary: fs as)
    case (Suc n)
    then show ?case by (cases fs) auto
  qed simp
  with run_refines [OF assms(1), of "replicate n Take"] show ?thesis by simp
qed

lemma take_return:
  assumes "rep s (f # fs) as"
  shows "\<exists>s' s''. get s = Some (f, s') \<and> put f s' = Some s'' \<and> rep s'' (f # fs) as"
proof -
  from get_rep [OF assms] obtain s' where s': "get s = Some (f, s')" "rep s' fs (f # as)" by blast
  from put_rep [OF s'(2), of f] s'(1) show ?thesis by auto
qed

end

definition live_pool :: "ptr \<Rightarrow> 'z mem_scheme \<Rightarrow> ptr list \<Rightarrow> ptr list \<Rightarrow> bool" where
  "live_pool pool s fs as \<longleftrightarrow> pool \<noteq> NULL \<and> pool_rep pool s fs as"

interpretation mp: block_pool "live_pool pool" "mem_get_shared_block pool"
    "\<lambda>b. mem_free_shared_block b pool" "\<lambda>b. b \<noteq> NULL" for pool
proof
  show "live_pool pool s (f # fs) as \<Longrightarrow>
      \<exists>s'. mem_get_shared_block pool s = Some (f, s') \<and> live_pool pool s' fs (f # as)" for s f fs as
    using mem_get_shared_block_rep [of pool s f fs as] by (auto simp: live_pool_def)
  show "live_pool pool s [] as \<Longrightarrow> mem_get_shared_block pool s = None" for s as
    by (auto simp: live_pool_def intro: mem_get_shared_block_empty)
  show "live_pool pool s fs as \<Longrightarrow> b \<in> set as \<Longrightarrow>
      \<exists>s'. mem_free_shared_block b pool s = Some s' \<and> live_pool pool s' (b # fs) (remove1 b as)" for s fs as b
    using mem_free_shared_block_rep [of pool s fs as b] by (auto simp: live_pool_def)
  show "live_pool pool s fs as \<Longrightarrow> b \<notin> set as \<Longrightarrow> b \<noteq> NULL \<Longrightarrow>
      mem_free_shared_block b pool s = None" for s fs as b
    by (auto simp: live_pool_def intro: mem_free_shared_block_absent)
  show "live_pool pool s fs as \<Longrightarrow> distinct (fs @ as)" for s fs as
    unfolding live_pool_def by (blast dest: pool_rep_distinct)
qed

section \<open>Creating a pool\<close>

definition wf_mem :: "'z mem_scheme \<Rightarrow> bool" where
  "wf_mem s \<longleftrightarrow> wf_os s \<and>
     (\<forall>p n. nexts s p = Some n \<longrightarrow> NULL < p \<and> p < fresh s) \<and>
     (\<forall>p pl. pools s p = Some pl \<longrightarrow> NULL < p \<and> p < fresh s) \<and>
     (\<forall>b p. bptrs s b = Some p \<longrightarrow> b < fresh s \<and> p < fresh s)"

text \<open>Every block of the list has its own data region of the size of the pool.\<close>

definition blocks_ok :: "'z mem_scheme \<Rightarrow> u32 \<Rightarrow> ptr list \<Rightarrow> bool" where
  "blocks_ok s bsize bs \<longleftrightarrow> distinct (map (bptrs s) bs) \<and>
     (\<forall>b \<in> set bs. case bptrs s b of
        None \<Rightarrow> False
      | Some p \<Rightarrow> p \<noteq> NULL \<and> regions s p = Some (ucast bsize))"

lemma default_mem_alloc_shared_eq [alloc_simps]:
  "default_mem_alloc_shared n s =
     (if n \<noteq> 0 \<and> grant s (asked s)
      then (fresh s, s\<lparr>asked := asked s + 1, fresh := fresh s + 1,
                       regions := (regions s)(fresh s \<mapsto> n),
                       bytes := (bytes s)(fresh s := (\<lambda>_. 0))\<rparr>)
      else (NULL, s\<lparr>asked := asked s + 1\<rparr>))"
  by (simp add: default_mem_alloc_shared_def mmap_def)

lemma create_blocks_refused:
  assumes "0 < fresh s" and "\<not> (grant s (asked s) \<and> grant s (asked s + 1))"
  shows "\<exists>s'. create_blocks (Suc n) pool bsize s = Some (False, s')"
  using assms by (auto simp: alloc_simps sizeof_memory_block_def)

lemma create_blocks_granted:
  assumes wf: "wf_mem s" and rep: "pool_rep pool s fs []" and ok: "blocks_ok s bsize fs"
    and bsize: "bsize \<noteq> 0" and grant: "grant s (asked s)" "grant s (asked s + 1)"
  shows "\<exists>s'. create_blocks (Suc n) pool bsize s = create_blocks n pool bsize s' \<and> wf_mem s' \<and>
     pool_rep pool s' (fresh s # fs) [] \<and> blocks_ok s' bsize (fresh s # fs) \<and>
     grant s' = grant s \<and> asked s' = asked s + 2"
proof -
  from rep obtain pl where pl: "pools s pool = Some pl" "\<not> lock pl"
    "slist (nexts s) (free_list pl) fs" "allocated_list pl = NULL" "nexts s NULL = None"
    by (auto elim!: pool_repE)
  let ?b = "fresh s"
  let ?h = "(nexts s)(?b \<mapsto> free_list pl)"
  let ?s = "s\<lparr>asked := asked s + 2, fresh := fresh s + 2,
      regions := (regions s)(?b \<mapsto> 16, Suc ?b \<mapsto> ucast bsize),
      bytes := (bytes s)(?b := (\<lambda>_. 0), Suc ?b := (\<lambda>_. 0)),
      bptrs := (bptrs s)(?b \<mapsto> Suc ?b), nexts := ?h, pools := (pools s)(pool \<mapsto> pl\<lparr>free_list := ?b\<rparr>)\<rparr>"
  have b: "?b > 0" using wf by (simp add: wf_mem_def wf_os_def)
  have eq: "create_blocks (Suc n) pool bsize s = create_blocks n pool bsize ?s"
    using bsize grant pl b
    by (simp add: alloc_simps sizeof_memory_block_def free_list_insert_head_def slist_insert_head_def)
  have fs: "?b \<notin> set fs" "\<forall>x \<in> set fs. x < ?b"
    using slist_in_dom [OF pl(3)] wf by (auto simp: wf_mem_def)
  have "slist ?h ?b (?b # fs)" using pl(3) fs b by (simp del: fun_upd_apply add: fun_upd_same)
  then have "pool_rep pool ?s (?b # fs) []"
    using pl b by (simp add: pool_rep_def del: slist.simps(2))
  moreover have "wf_mem ?s"
    using wf pl b by (auto simp: wf_mem_def wf_os_def less_Suc_eq split: if_splits)
  moreover have "blocks_ok ?s bsize (?b # fs)"
  proof -
    have mp: "map (bptrs ?s) fs = map (bptrs s) fs" using fs(1) by (auto intro: map_cong)
    have "Some (Suc ?b) \<notin> bptrs s ` set fs" 
    proof
      assume "Some (Suc ?b) \<in> bptrs s ` set fs"
      then obtain x where "bptrs s x = Some (Suc ?b)" by (metis imageE)
      with wf have "Suc ?b < ?b" unfolding wf_mem_def by blast
      then show False by simp
    qed
    then have "distinct (map (bptrs ?s) (?b # fs))"
      unfolding list.map mp using ok by (simp add: blocks_ok_def)
    moreover have "\<exists>p. bptrs ?s x = Some p \<and> p \<noteq> NULL \<and> regions ?s p = Some (ucast bsize)"
      if "x \<in> set fs" for x
    proof -
      from ok that obtain p where p: "bptrs s x = Some p" "p \<noteq> NULL" "regions s p = Some (ucast bsize)"
        by (auto simp: blocks_ok_def split: option.splits)
      then have "p < ?b" using wf by (auto simp: wf_mem_def)
      with p fs(1) that show ?thesis by auto
    qed
    ultimately show ?thesis unfolding blocks_ok_def by (fastforce split: option.splits)
  qed
  ultimately show ?thesis using eq by (intro exI [of _ ?s]) simp
qed

lemma create_blocks_all:
  assumes "wf_mem s" and "pool_rep pool s fs []" and "blocks_ok s bsize fs" and "bsize \<noteq> 0"
  shows "\<exists>ok s'. create_blocks n pool bsize s = Some (ok, s') \<and>
     (ok \<longleftrightarrow> (\<forall>i < 2 * n. grant s (asked s + i))) \<and>
     (ok \<longrightarrow> wf_mem s' \<and> (\<exists>bs. length bs = n \<and> pool_rep pool s' (bs @ fs) [] \<and>
                                blocks_ok s' bsize (bs @ fs)))"
  using assms
proof (induction n arbitrary: s fs)
  case 0
  then show ?case by (auto intro!: exI [of _ "[]"])
next
  case (Suc n)
  have split: "(\<forall>i < 2 * Suc n. grant s (asked s + i)) \<longleftrightarrow>
      grant s (asked s) \<and> grant s (asked s + 1) \<and> (\<forall>i < 2 * n. grant s (asked s + 2 + i))"
    by (simp add: All_less_Suc2 add.commute [of 2])
  show ?case
  proof (cases "grant s (asked s) \<and> grant s (asked s + 1)")
    case True
    from create_blocks_granted [OF Suc.prems] True obtain s1 where
      s1: "create_blocks (Suc n) pool bsize s = create_blocks n pool bsize s1" "wf_mem s1"
        "pool_rep pool s1 (fresh s # fs) []" "blocks_ok s1 bsize (fresh s # fs)"
        "grant s1 = grant s" "asked s1 = asked s + 2" by blast
    from Suc.IH [OF s1(2,3,4) Suc.prems(4)] obtain ok s' where
      IH: "create_blocks n pool bsize s1 = Some (ok, s')"
        "ok \<longleftrightarrow> (\<forall>i < 2 * n. grant s (asked s + 2 + i))"
        "ok \<longrightarrow> wf_mem s' \<and> (\<exists>bs. length bs = n \<and> pool_rep pool s' (bs @ fresh s # fs) [] \<and>
                                    blocks_ok s' bsize (bs @ fresh s # fs))"
      using s1(5,6) by auto
    have "ok \<longrightarrow> wf_mem s' \<and> (\<exists>bs. length bs = Suc n \<and> pool_rep pool s' (bs @ fs) [] \<and>
                                    blocks_ok s' bsize (bs @ fs))"
    proof
      assume ok
      with IH(3) obtain bs where "wf_mem s'" "length bs = n" "pool_rep pool s' (bs @ fresh s # fs) []"
          "blocks_ok s' bsize (bs @ fresh s # fs)" by blast
      then show "wf_mem s' \<and> (\<exists>bs. length bs = Suc n \<and> pool_rep pool s' (bs @ fs) [] \<and>
          blocks_ok s' bsize (bs @ fs))" by (auto intro!: exI [of _ "bs @ [fresh s]"])
    qed
    with s1(1) IH(1,2) split True show ?thesis by auto
  next
    case False
    moreover have "0 < fresh s" using Suc.prems(1) by (simp add: wf_mem_def wf_os_def)
    ultimately show ?thesis using create_blocks_refused [of s n pool bsize] split by blast
  qed
qed

lemma mem_create_shared_pool_spec:
  assumes "wf_mem s" and "bsize \<noteq> 0" and "bcount \<noteq> 0"
  shows "\<exists>pool s'. mem_create_shared_pool bsize bcount s = Some (pool, s') \<and>
     (pool \<noteq> NULL \<longleftrightarrow> (\<forall>i \<le> 2 * unat bcount. grant s (asked s + i))) \<and>
     (pool \<noteq> NULL \<longrightarrow> wf_mem s' \<and> (\<exists>bs. length bs = unat bcount \<and> pool_rep pool s' bs [] \<and>
                                            blocks_ok s' bsize bs))"
proof (cases "grant s (asked s)")
  case False
  with assms show ?thesis
    by (auto simp: mem_create_shared_pool_def alloc_simps intro!: exI [of _ 0])
next
  case True
  let ?pl = "\<lparr>lock = False, block_size = bsize, block_count = bcount,
              free_list = NULL, allocated_list = NULL\<rparr>"
  let ?s = "s\<lparr>asked := asked s + 1, fresh := fresh s + 1,
      regions := (regions s)(fresh s \<mapsto> sizeof_mem_pool_shared),
      bytes := (bytes s)(fresh s := (\<lambda>_. 0)), pools := (pools s)(fresh s \<mapsto> ?pl)\<rparr>"
  have f: "0 < fresh s" using assms(1) by (simp add: wf_mem_def wf_os_def)
  have "nexts s NULL = None" using assms(1) by (force simp: wf_mem_def)
  then have rep: "pool_rep (fresh s) ?s [] []" by (simp add: pool_rep_def)
  moreover have "wf_mem ?s" using assms(1)
    by (auto simp: wf_mem_def wf_os_def less_Suc_eq split: if_splits)
  moreover have "blocks_ok ?s bsize []" by (simp add: blocks_ok_def)
  ultimately obtain ok s' where run: "create_blocks (unat bcount) (fresh s) bsize ?s = Some (ok, s')"
      "ok \<longleftrightarrow> (\<forall>i < 2 * unat bcount. grant s (asked s + 1 + i))"
      "ok \<longrightarrow> wf_mem s' \<and> (\<exists>bs. length bs = unat bcount \<and> pool_rep (fresh s) s' bs [] \<and>
                                    blocks_ok s' bsize bs)"
    using create_blocks_all [of ?s "fresh s" "[]" bsize "unat bcount"] assms(2) by auto
  have "(\<forall>i \<le> 2 * unat bcount. grant s (asked s + i)) \<longleftrightarrow> ok"
    using True run(2) by (simp add: less_Suc_eq_le [symmetric] All_less_Suc2)
  moreover have "mem_create_shared_pool bsize bcount s = Some (if ok then fresh s else NULL, s')"
    using assms True f run(1)
    by (simp add: mem_create_shared_pool_def alloc_simps sizeof_mem_pool_shared_def)
  ultimately show ?thesis using run(3) f by auto
qed

section \<open>Properties\<close>

text \<open>A process image with nothing allocated, whose every request is granted.\<close>

definition mem0 :: mem where
  "mem0 = \<lparr>grant = (\<lambda>_. True), asked = 0, fresh = 1, heap = Map.empty, regions = Map.empty,
           bytes = (\<lambda>_ _. 0), console = [], verbose = 0, answer = (\<lambda>_ _ _. (0, 0)), noise = (\<lambda>_ _. 0), trace = [],
           nexts = Map.empty, bptrs = Map.empty, pools = Map.empty\<rparr>"

lemma wf_mem0: "wf_mem mem0"
  by (simp add: wf_mem_def wf_os_def mem0_def)

text \<open>C21. Creating a pool of \<open>bcount\<close> blocks of \<open>bsize\<close> bytes always returns; it returns a pool
  exactly when the system grants the \<open>2 * bcount + 1\<close> mappings it asks for, and then all blocks are
  free, none is allocated, and each has its own data region of \<open>bsize\<close> bytes.\<close>

theorem create_pool_all_free:
  assumes "wf_mem s" and "bsize \<noteq> 0" and "bcount \<noteq> 0"
  shows "\<exists>pool s'. mem_create_shared_pool bsize bcount s = Some (pool, s') \<and>
     (pool \<noteq> NULL \<longleftrightarrow> (\<forall>i \<le> 2 * unat bcount. grant s (asked s + i))) \<and>
     (pool \<noteq> NULL \<longrightarrow> wf_mem s' \<and> (\<exists>bs. length bs = unat bcount \<and> pool_rep pool s' bs [] \<and>
                                            blocks_ok s' bsize bs))"
  using assms by (rule mem_create_shared_pool_spec)

theorem create_pool_all_free_witness:
  "\<exists>pool s'. mem_create_shared_pool 64 3 mem0 = Some (pool, s') \<and> pool \<noteq> NULL \<and>
     (\<exists>bs. length bs = 3 \<and> pool_rep pool s' bs [] \<and> blocks_ok s' 64 bs)"
  using create_pool_all_free [OF wf_mem0, of 64 3] by (auto simp: mem0_def)

text \<open>C1. The pool refines the abstract pool: for every sequence of takes and returns of non-\<open>NULL\<close>
  blocks, the code hands out the same blocks as the pair of lists and ends in a state that
  represents them, and it fails to return (it spins on an empty pool, or runs off the allocated
  list on a block that is not allocated) exactly where the abstract pool does.\<close>

theorem pool_refines_lists:
  assumes "pool \<noteq> NULL" and "pool_rep pool s fs as" and "\<forall>b. Return b \<in> set ops \<longrightarrow> b \<noteq> NULL"
  shows "case abs_run ops (fs, as) of
     None \<Rightarrow> pool_run (mem_get_shared_block pool) (\<lambda>b. mem_free_shared_block b pool) ops s = None
   | Some (bs, fs', as') \<Rightarrow> mset fs' + mset as' = mset fs + mset as \<and>
       (\<exists>s'. pool_run (mem_get_shared_block pool) (\<lambda>b. mem_free_shared_block b pool) ops s = Some (bs, s') \<and>
             pool_rep pool s' fs' as')"
proof -
  have "live_pool pool s fs as" using assms by (simp add: live_pool_def)
  from mp.run_refines [OF this, of ops] assms(3) abs_run_conserves [of ops fs as] show ?thesis
    by (auto simp: live_pool_def split: option.splits prod.splits)
qed

text \<open>A pool at address 9 with the free blocks 1 and 2 and the allocated block 3.\<close>

definition mem_two_free :: mem where
  "mem_two_free = mem0\<lparr>nexts := [1 \<mapsto> 2, 2 \<mapsto> 0, 3 \<mapsto> 0], bptrs := [1 \<mapsto> 4, 2 \<mapsto> 5, 3 \<mapsto> 6],
     fresh := 10, regions := [4 \<mapsto> 64, 5 \<mapsto> 64, 6 \<mapsto> 64],
     pools := [9 \<mapsto> \<lparr>lock = False, block_size = 64, block_count = 3, free_list = 1,
                     allocated_list = 3\<rparr>]\<rparr>"

lemma mem_two_free_rep: "pool_rep 9 mem_two_free [1, 2] [3]"
  by (simp add: pool_rep_def mem_two_free_def mem0_def)

theorem pool_refines_lists_witness:
  "(\<exists>s'. pool_run (mem_get_shared_block 9) (\<lambda>b. mem_free_shared_block b 9) [Take, Return 3, Take] mem_two_free
         = Some ([1, 3], s') \<and> pool_rep 9 s' [2] [3, 1]) \<and>
   pool_run (mem_get_shared_block 9) (\<lambda>b. mem_free_shared_block b 9) [Take, Return 2] mem_two_free = None"
  using pool_refines_lists [OF _ mem_two_free_rep, of "[Take, Return 3, Take]"]
    pool_refines_lists [OF _ mem_two_free_rep, of "[Take, Return 2]"] by auto

text \<open>C20. A fresh pool delivers exactly \<open>bcount\<close> distinct blocks: that many consecutive calls of
  \<open>mem_get_shared_block\<close> return, and one more never does.\<close>

theorem pool_capacity:
  assumes "wf_mem s" and "bsize \<noteq> 0" and "bcount \<noteq> 0"
    and "mem_create_shared_pool bsize bcount s = Some (pool, s')" and "pool \<noteq> NULL"
  shows "(\<exists>bs s''. pool_run (mem_get_shared_block pool) (\<lambda>b. mem_free_shared_block b pool)
             (replicate (unat bcount) Take) s' = Some (bs, s'') \<and>
             distinct bs \<and> length bs = unat bcount \<and> pool_rep pool s'' [] (rev bs)) \<and>
         pool_run (mem_get_shared_block pool) (\<lambda>b. mem_free_shared_block b pool)
             (replicate (unat bcount + 1) Take) s' = None"
proof -
  from mem_create_shared_pool_spec [OF assms(1-3)] assms(4,5) obtain bs where
    bs: "length bs = unat bcount" "pool_rep pool s' bs []" by auto
  then have live: "live_pool pool s' bs []" using assms(5) by (simp add: live_pool_def)
  from mp.take_many [OF live, of "length bs"] obtain s'' where
    "pool_run (mem_get_shared_block pool) (\<lambda>b. mem_free_shared_block b pool)
       (replicate (unat bcount) Take) s' = Some (bs, s'')" "pool_rep pool s'' [] (rev bs)"
    using bs(1) by (auto simp: live_pool_def)
  moreover have "distinct bs" using pool_rep_distinct [OF bs(2)] by simp
  moreover have "pool_run (mem_get_shared_block pool) (\<lambda>b. mem_free_shared_block b pool)
       (replicate (unat bcount + 1) Take) s' = None"
    using bs(1) by (intro mp.take_too_many [OF live]) simp
  ultimately show ?thesis using bs(1) by blast
qed

theorem pool_capacity_witness:
  "\<exists>pool s'. mem_create_shared_pool 64 2 mem0 = Some (pool, s') \<and>
     pool_run (mem_get_shared_block pool) (\<lambda>b. mem_free_shared_block b pool) [Take, Take, Take] s' = None"
proof -
  from mem_create_shared_pool_spec [OF wf_mem0, of 64 2] obtain pool s' where
    "mem_create_shared_pool 64 2 mem0 = Some (pool, s')" "pool \<noteq> NULL" by (auto simp: mem0_def)
  with pool_capacity [OF wf_mem0 _ _ this] show ?thesis by (auto simp: numeral_3_eq_3)
qed

text \<open>Taking a block from one pool or returning one to it leaves the free and the allocated blocks
  of every other pool with disjoint blocks, and all data regions, as they were.\<close>

lemma pool_ops_frame:
  assumes "pool_rep pool s fs as" and "pool_rep q s gs bs" and "q \<noteq> pool"
    and "set (fs @ as) \<inter> set (gs @ bs) = {}"
    and "mem_get_shared_block pool s = Some (b, s') \<or>
         pool \<noteq> NULL \<and> b \<in> set as \<and> mem_free_shared_block b pool s = Some s'"
  shows "pool_rep q s' gs bs \<and> bptrs s' = bptrs s \<and> regions s' = regions s \<and> bytes s' = bytes s"
proof -
  have "pool_frame pool (set (fs @ as)) s s'"
    using assms(5)
  proof
    assume get: "mem_get_shared_block pool s = Some (b, s')"
    then obtain f fs' where "fs = f # fs'"
      using mem_get_shared_block_empty [of pool s as] assms(1) by (cases fs) auto
    with mem_get_shared_block_rep [of pool s f fs' as] assms(1) get
    have "pool_frame pool {f} s s'" by auto
    then show ?thesis by (rule pool_frame_mono) (simp add: \<open>fs = f # fs'\<close>)
  next
    assume "pool \<noteq> NULL \<and> b \<in> set as \<and> mem_free_shared_block b pool s = Some s'"
    with mem_free_shared_block_rep [OF assms(1), of b] have "pool_frame pool (set as) s s'" by auto
    then show ?thesis by (rule pool_frame_mono) simp
  qed
  with pool_frame_other [OF this assms(3,2,4)] pool_frame_same [OF this] show ?thesis by simp
qed

definition mem_two_pools :: mem where
  "mem_two_pools = mem_two_free\<lparr>nexts := (nexts mem_two_free)(7 \<mapsto> 0),
     pools := (pools mem_two_free)(8 \<mapsto> \<lparr>lock = False, block_size = 64, block_count = 1,
                     free_list = 7, allocated_list = 0\<rparr>)\<rparr>"

lemma mem_two_pools_rep: "pool_rep 9 mem_two_pools [1, 2] [3]" "pool_rep 8 mem_two_pools [7] []"
  by (simp_all add: pool_rep_def mem_two_pools_def mem_two_free_def mem0_def)

end
