(* ===== verification/Pool_Conc.thy ===== *)
theory Pool_Conc
  imports Memory
begin

text \<open>
  Concurrent use of one shared pool. The fuzzing children are separate processes that share the
  mapping of the pool and call \<open>mem_get_shared_block\<close> and \<open>mem_free_shared_block\<close> of
  \<^verbatim>\<open>src/src/memory/memory.c\<close> at the same time. Each process is at one point of one of the two
  functions (\<open>pc\<close>), and one step of the relation \<open>pstep\<close> is one access to the shared memory: an
  attempt on the spinlock, the read of the list head, one list macro, or the release. The steps of
  different processes interleave in every order. \<open>own p\<close> is what the process has been given and
  has not returned; a process returns only what it owns.
\<close>

datatype pc =
    Idle
  | GetLock | GetFirst | GetRemove ptr | GetInsert ptr | GetUnlock ptr | GetRetry
  | FreeLock ptr | FreeRemove ptr | FreeInsert ptr | FreeUnlock

record conc =
  store :: mem
  pc :: "nat \<Rightarrow> pc"
  own :: "nat \<Rightarrow> ptr set"

inductive pstep :: "ptr \<Rightarrow> nat \<Rightarrow> conc \<Rightarrow> conc \<Rightarrow> bool" for pool p where
  call_get: "pc c p = Idle \<Longrightarrow> pstep pool p c (c\<lparr>pc := (pc c)(p := GetLock)\<rparr>)"
| get_lock: "pc c p = GetLock \<Longrightarrow> spinlock_lock pool (store c) = Some s \<Longrightarrow>
    pstep pool p c (c\<lparr>store := s, pc := (pc c)(p := GetFirst)\<rparr>)"
| get_first: "pc c p = GetFirst \<Longrightarrow> pools (store c) pool = Some pl \<Longrightarrow>
    pstep pool p c (c\<lparr>pc := (pc c)(p := if free_list pl = NULL then GetRetry
                                        else GetRemove (free_list pl))\<rparr>)"
| get_remove: "pc c p = GetRemove b \<Longrightarrow> free_list_remove pool b (store c) = Some s \<Longrightarrow>
    pstep pool p c (c\<lparr>store := s, pc := (pc c)(p := GetInsert b)\<rparr>)"
| get_insert: "pc c p = GetInsert b \<Longrightarrow> allocated_list_insert_head pool b (store c) = Some s \<Longrightarrow>
    pstep pool p c (c\<lparr>store := s, pc := (pc c)(p := GetUnlock b)\<rparr>)"
| get_unlock: "pc c p = GetUnlock b \<Longrightarrow> spinlock_unlock pool (store c) = Some s \<Longrightarrow>
    pstep pool p c (c\<lparr>store := s, pc := (pc c)(p := Idle), own := (own c)(p := insert b (own c p))\<rparr>)"
| get_retry: "pc c p = GetRetry \<Longrightarrow> spinlock_unlock pool (store c) = Some s \<Longrightarrow>
    pstep pool p c (c\<lparr>store := s, pc := (pc c)(p := GetLock)\<rparr>)"
| call_free: "pc c p = Idle \<Longrightarrow> b \<in> own c p \<Longrightarrow>
    pstep pool p c (c\<lparr>pc := (pc c)(p := FreeLock b), own := (own c)(p := own c p - {b})\<rparr>)"
| free_lock: "pc c p = FreeLock b \<Longrightarrow> spinlock_lock pool (store c) = Some s \<Longrightarrow>
    pstep pool p c (c\<lparr>store := s, pc := (pc c)(p := FreeRemove b)\<rparr>)"
| free_remove: "pc c p = FreeRemove b \<Longrightarrow> allocated_list_remove pool b (store c) = Some s \<Longrightarrow>
    pstep pool p c (c\<lparr>store := s, pc := (pc c)(p := FreeInsert b)\<rparr>)"
| free_insert: "pc c p = FreeInsert b \<Longrightarrow> free_list_insert_head pool b (store c) = Some s \<Longrightarrow>
    pstep pool p c (c\<lparr>store := s, pc := (pc c)(p := FreeUnlock)\<rparr>)"
| free_unlock: "pc c p = FreeUnlock \<Longrightarrow> spinlock_unlock pool (store c) = Some s \<Longrightarrow>
    pstep pool p c (c\<lparr>store := s, pc := (pc c)(p := Idle)\<rparr>)"

inductive reach :: "ptr \<Rightarrow> conc \<Rightarrow> conc \<Rightarrow> bool" for pool c0 where
  start: "reach pool c0 c0"
| step: "reach pool c0 c \<Longrightarrow> pstep pool p c c' \<Longrightarrow> reach pool c0 c'"

fun in_cs :: "pc \<Rightarrow> bool" where
  "in_cs Idle = False"
| "in_cs GetLock = False"
| "in_cs (FreeLock b) = False"
| "in_cs _ = True"

text \<open>The block an operation in progress holds while it is on the allocated list, and the block it
  has taken off one list and not yet put on the other.\<close>

fun holds :: "pc \<Rightarrow> ptr set" where
  "holds (GetUnlock b) = {b}"
| "holds (FreeLock b) = {b}"
| "holds (FreeRemove b) = {b}"
| "holds _ = {}"

fun limbo :: "pc \<Rightarrow> ptr set" where
  "limbo (GetInsert b) = {b}"
| "limbo (FreeInsert b) = {b}"
| "limbo _ = {}"

section \<open>The list operations on a pool in any lock state\<close>

definition pool_view :: "ptr \<Rightarrow> mem \<Rightarrow> bool \<Rightarrow> ptr list \<Rightarrow> ptr list \<Rightarrow> bool" where
  "pool_view pool s l fs as \<longleftrightarrow>
     (case pools s pool of
        None \<Rightarrow> False
      | Some pl \<Rightarrow> lock pl = l \<and> slist (nexts s) (free_list pl) fs \<and>
                  slist (nexts s) (allocated_list pl) as \<and> set fs \<inter> set as = {} \<and>
                  nexts s NULL = None)"

lemma pool_rep_view: "pool_rep pool s fs as = pool_view pool s False fs as"
  by (auto simp: pool_rep_def pool_view_def split: option.splits)

lemma pool_viewE:
  assumes "pool_view pool s l fs as"
  obtains pl where "pools s pool = Some pl" and "lock pl = l"
    and "slist (nexts s) (free_list pl) fs" and "slist (nexts s) (allocated_list pl) as"
    and "set fs \<inter> set as = {}" and "nexts s NULL = None"
  using assms by (auto simp: pool_view_def split: option.splits)

lemma view_lock_step: "pool_view pool s l fs as \<Longrightarrow> spinlock_lock pool s = Some s' \<Longrightarrow>
    \<not> l \<and> pool_view pool s' True fs as \<and> nexts s' = nexts s"
  by (auto simp: pool_view_def spinlock_lock_def bind_eq_Some_conv split: option.splits if_splits)

lemma view_unlock: "pool_view pool s l fs as \<Longrightarrow>
    \<exists>s'. spinlock_unlock pool s = Some s' \<and> pool_view pool s' False fs as \<and> nexts s' = nexts s"
  by (elim pool_viewE) (simp add: spinlock_unlock_def pool_view_def)

lemma view_free_remove:
  assumes "pool_view pool s l (b # fs) as"
  shows "\<exists>s'. free_list_remove pool b s = Some s' \<and> pool_view pool s' l fs as \<and> nexts s' = nexts s"
proof -
  from assms obtain pl where pl: "pools s pool = Some pl" "lock pl = l"
    "slist (nexts s) (free_list pl) (b # fs)" "slist (nexts s) (allocated_list pl) as"
    "set (b # fs) \<inter> set as = {}" "nexts s NULL = None" by (rule pool_viewE)
  from pl(3) obtain n where "free_list pl = b" "nexts s b = Some n" "slist (nexts s) n fs"
    by (auto split: option.splits)
  with pl show ?thesis
    by (simp add: free_list_remove_def slist_remove_def slist_remove_head_def pool_view_def)
qed

lemma view_alloc_insert:
  assumes v: "pool_view pool s l fs as" and b: "b \<in> dom (nexts s)" "b \<notin> set fs" "b \<notin> set as"
  shows "\<exists>s'. allocated_list_insert_head pool b s = Some s' \<and> pool_view pool s' l fs (b # as) \<and>
              dom (nexts s') = dom (nexts s)"
proof -
  from v obtain pl where pl: "pools s pool = Some pl" "lock pl = l"
    "slist (nexts s) (free_list pl) fs" "slist (nexts s) (allocated_list pl) as"
    "set fs \<inter> set as = {}" "nexts s NULL = None" by (rule pool_viewE)
  then have "b \<noteq> NULL" using b by (metis domIff)
  from slist_insert_head_Cons [OF pl(4) b(1,3) this] obtain h where
    h: "slist_insert_head b (allocated_list pl, nexts s) = Some (b, h)" "slist h b (b # as)"
      "dom h = dom (nexts s)" "\<forall>q. q \<noteq> b \<longrightarrow> h q = nexts s q" by blast
  then have "slist h (free_list pl) fs" using pl b by (auto intro: slist_cong [THEN iffD2])
  moreover have "h NULL = None" using pl(6) h(3) by (metis domIff)
  ultimately show ?thesis using pl h b
    by (simp add: allocated_list_insert_head_def pool_view_def del: slist.simps)
qed

lemma view_free_insert:
  assumes v: "pool_view pool s l fs as" and b: "b \<in> dom (nexts s)" "b \<notin> set fs" "b \<notin> set as"
  shows "\<exists>s'. free_list_insert_head pool b s = Some s' \<and> pool_view pool s' l (b # fs) as \<and>
              dom (nexts s') = dom (nexts s)"
proof -
  from v obtain pl where pl: "pools s pool = Some pl" "lock pl = l"
    "slist (nexts s) (free_list pl) fs" "slist (nexts s) (allocated_list pl) as"
    "set fs \<inter> set as = {}" "nexts s NULL = None" by (rule pool_viewE)
  then have "b \<noteq> NULL" using b by (metis domIff)
  from slist_insert_head_Cons [OF pl(3) b(1,2) this] obtain h where
    h: "slist_insert_head b (free_list pl, nexts s) = Some (b, h)" "slist h b (b # fs)"
      "dom h = dom (nexts s)" "\<forall>q. q \<noteq> b \<longrightarrow> h q = nexts s q" by blast
  then have "slist h (allocated_list pl) as" using pl b by (auto intro: slist_cong [THEN iffD2])
  moreover have "h NULL = None" using pl(6) h(3) by (metis domIff)
  ultimately show ?thesis using pl h b
    by (simp add: free_list_insert_head_def pool_view_def del: slist.simps)
qed

lemma view_alloc_remove:
  assumes v: "pool_view pool s l fs as" and b: "b \<in> set as"
  shows "\<exists>s'. allocated_list_remove pool b s = Some s' \<and> pool_view pool s' l fs (remove1 b as) \<and>
              dom (nexts s') = dom (nexts s)"
proof -
  from v obtain pl where pl: "pools s pool = Some pl" "lock pl = l"
    "slist (nexts s) (free_list pl) fs" "slist (nexts s) (allocated_list pl) as"
    "set fs \<inter> set as = {}" "nexts s NULL = None" by (rule pool_viewE)
  from slist_remove_remove1 [OF pl(4) b] obtain p' h' where
    h: "slist_remove b (allocated_list pl, nexts s) = Some (p', h')"
      "slist h' p' (remove1 b as)" "dom h' = dom (nexts s)" "\<forall>q. q \<notin> set as \<longrightarrow> h' q = nexts s q"
    by blast
  then have "slist h' (free_list pl) fs" using pl slist_frame by blast
  moreover have "h' NULL = None" using pl(6) h(3) by (metis domIff)
  moreover have "set fs \<inter> set (remove1 b as) = {}" using pl(5) set_remove1_subset [of b as] by blast
  ultimately show ?thesis using pl h by (simp add: allocated_list_remove_def pool_view_def)
qed

section \<open>The invariant\<close>

abbreviation held :: "conc \<Rightarrow> nat \<Rightarrow> ptr set" where
  "held c p \<equiv> own c p \<union> holds (pc c p)"

text \<open>\<open>B\<close> is the set of all blocks of the pool. The lock is taken exactly while a process is between
  its two lock operations, at most one process is, every block is on one of the two lists or in
  transit, and the allocated blocks are those the processes hold, each held once.\<close>

definition pool_inv :: "ptr \<Rightarrow> ptr set \<Rightarrow> conc \<Rightarrow> bool" where
  "pool_inv pool B c \<longleftrightarrow>
     (\<exists>fs as. pool_view pool (store c) (\<exists>p. in_cs (pc c p)) fs as \<and>
        B \<subseteq> dom (nexts (store c)) \<and>
        (\<forall>p b. pc c p = GetRemove b \<longrightarrow> (\<exists>fs'. fs = b # fs')) \<and>
        B = set fs \<union> set as \<union> (\<Union>p. limbo (pc c p)) \<and>
        (set fs \<union> set as) \<inter> (\<Union>p. limbo (pc c p)) = {} \<and>
        set as = (\<Union>p. held c p)) \<and>
     (\<forall>p q. in_cs (pc c p) \<longrightarrow> in_cs (pc c q) \<longrightarrow> p = q) \<and>
     (\<forall>p. own c p \<inter> holds (pc c p) = {}) \<and>
     (\<forall>p q. p \<noteq> q \<longrightarrow> held c p \<inter> held c q = {})"

text \<open>The same seen from one process: \<open>x\<close> and \<open>o\<close> are its program point and its blocks; \<open>X\<close>, \<open>Y\<close>, \<open>G\<close>
  and \<open>C\<close> are what the others hold, what they have in transit, what they are about to unlink, and
  whether one of them is inside. A step of the process leaves the latter alone.\<close>

definition local_inv ::
    "ptr \<Rightarrow> ptr set \<Rightarrow> mem \<Rightarrow> pc \<Rightarrow> ptr set \<Rightarrow> ptr set \<Rightarrow> ptr set \<Rightarrow> ptr set \<Rightarrow> bool \<Rightarrow> bool" where
  "local_inv pool B s x w X Y G C \<longleftrightarrow>
     (\<exists>fs as. pool_view pool s (in_cs x \<or> C) fs as \<and> B \<subseteq> dom (nexts s) \<and>
        (\<forall>b. x = GetRemove b \<or> b \<in> G \<longrightarrow> (\<exists>fs'. fs = b # fs')) \<and>
        B = set fs \<union> set as \<union> (limbo x \<union> Y) \<and> (set fs \<union> set as) \<inter> (limbo x \<union> Y) = {} \<and>
        set as = w \<union> holds x \<union> X) \<and>
     \<not> (in_cs x \<and> C) \<and> (\<not> C \<longrightarrow> Y = {} \<and> G = {}) \<and>
     w \<inter> holds x = {} \<and> (w \<union> holds x) \<inter> X = {}"

definition others_inv :: "nat \<Rightarrow> conc \<Rightarrow> bool" where
  "others_inv p c \<longleftrightarrow>
     (\<forall>q r. q \<noteq> p \<longrightarrow> r \<noteq> p \<longrightarrow> in_cs (pc c q) \<longrightarrow> in_cs (pc c r) \<longrightarrow> q = r) \<and>
     (\<forall>q. q \<noteq> p \<longrightarrow> own c q \<inter> holds (pc c q) = {}) \<and>
     (\<forall>q r. q \<noteq> p \<longrightarrow> r \<noteq> p \<longrightarrow> q \<noteq> r \<longrightarrow> held c q \<inter> held c r = {})"

lemma UN_split_at: "(\<Union>q. F q) = F p \<union> (\<Union>q\<in>-{p}. F q)"
  by auto

lemma disjoint_split_at:
  "(\<forall>q r. q \<noteq> r \<longrightarrow> F q \<inter> F r = {}) \<longleftrightarrow> F p \<inter> (\<Union>q\<in>-{p}. F q) = {} \<and>
     (\<forall>q r. q \<noteq> p \<longrightarrow> r \<noteq> p \<longrightarrow> q \<noteq> r \<longrightarrow> F q \<inter> F r = {})" (is "?L \<longleftrightarrow> ?R")
proof
  assume R: ?R
  have "F p \<inter> F r = {}" if "r \<noteq> p" for r using R that by blast
  with R show ?L by (metis inf_commute)
qed blast

lemma limbo_in_cs: "b \<in> limbo x \<Longrightarrow> in_cs x"
  by (cases x) auto

lemma pool_inv_local:
  "pool_inv pool B c \<longleftrightarrow>
     local_inv pool B (store c) (pc c p) (own c p) (\<Union>q\<in>-{p}. held c q)
       (\<Union>q\<in>-{p}. limbo (pc c q)) {b. \<exists>q. q \<noteq> p \<and> pc c q = GetRemove b}
       (\<exists>q. q \<noteq> p \<and> in_cs (pc c q)) \<and> others_inv p c"
proof -
  have cs: "(\<exists>q. in_cs (pc c q)) \<longleftrightarrow> in_cs (pc c p) \<or> (\<exists>q. q \<noteq> p \<and> in_cs (pc c q))" by metis
  have rm: "(\<forall>q b. pc c q = GetRemove b \<longrightarrow> (\<exists>fs'. fs = b # fs')) \<longleftrightarrow>
      (\<forall>b. pc c p = GetRemove b \<or> b \<in> {b. \<exists>q. q \<noteq> p \<and> pc c q = GetRemove b} \<longrightarrow> (\<exists>fs'. fs = b # fs'))" for fs
    by auto
  have quiet: "\<not> (\<exists>q. q \<noteq> p \<and> in_cs (pc c q)) \<longrightarrow>
      (\<Union>q\<in>-{p}. limbo (pc c q)) = {} \<and> {b. \<exists>q. q \<noteq> p \<and> pc c q = GetRemove b} = {}"
  proof (intro impI conjI)
    assume none: "\<not> (\<exists>q. q \<noteq> p \<and> in_cs (pc c q))"
    then show "(\<Union>q\<in>-{p}. limbo (pc c q)) = {}" using limbo_in_cs by blast
    have "in_cs (pc c q)" if "pc c q = GetRemove b" for q b using that by simp
    with none show "{b. \<exists>q. q \<noteq> p \<and> pc c q = GetRemove b} = {}" by blast
  qed
  have excl: "(\<forall>q r. in_cs (pc c q) \<longrightarrow> in_cs (pc c r) \<longrightarrow> q = r) \<longleftrightarrow>
      \<not> (in_cs (pc c p) \<and> (\<exists>q. q \<noteq> p \<and> in_cs (pc c q))) \<and>
      (\<forall>q r. q \<noteq> p \<longrightarrow> r \<noteq> p \<longrightarrow> in_cs (pc c q) \<longrightarrow> in_cs (pc c r) \<longrightarrow> q = r)" by metis
  have own: "(\<forall>q. own c q \<inter> holds (pc c q) = {}) \<longleftrightarrow> own c p \<inter> holds (pc c p) = {} \<and>
      (\<forall>q. q \<noteq> p \<longrightarrow> own c q \<inter> holds (pc c q) = {})" by metis
  show ?thesis
    unfolding pool_inv_def local_inv_def others_inv_def rm excl own cs
      disjoint_split_at [of "held c" p]
      UN_split_at [of "held c" p] UN_split_at [of "\<lambda>q. limbo (pc c q)" p]
    using quiet by argo
qed

lemma local_invI:
  assumes "pool_view pool s (in_cs x \<or> C) fs as" and "B \<subseteq> dom (nexts s)"
    and "\<And>b. x = GetRemove b \<or> b \<in> G \<Longrightarrow> \<exists>fs'. fs = b # fs'"
    and "B = set fs \<union> set as \<union> (limbo x \<union> Y)" and "(set fs \<union> set as) \<inter> (limbo x \<union> Y) = {}"
    and "set as = w \<union> holds x \<union> X" and "\<not> (in_cs x \<and> C)" and "\<not> C \<longrightarrow> Y = {} \<and> G = {}"
    and "w \<inter> holds x = {}" and "(w \<union> holds x) \<inter> X = {}"
  shows "local_inv pool B s x w X Y G C"
  unfolding local_inv_def using assms by blast

lemma local_inv_step:
  assumes "pstep pool p c c'"
    and "local_inv pool B (store c) (pc c p) (own c p) X Y G C"
  shows "local_inv pool B (store c') (pc c' p) (own c' p) X Y G C"
proof -
  from assms(2) obtain fs as where v: "pool_view pool (store c) (in_cs (pc c p) \<or> C) fs as"
    and B: "B \<subseteq> dom (nexts (store c))"
    and rm: "\<And>b. pc c p = GetRemove b \<or> b \<in> G \<Longrightarrow> \<exists>fs'. fs = b # fs'"
    and Beq: "B = set fs \<union> set as \<union> (limbo (pc c p) \<union> Y)"
    and lim: "(set fs \<union> set as) \<inter> (limbo (pc c p) \<union> Y) = {}"
    and as: "set as = own c p \<union> holds (pc c p) \<union> X" and cs: "\<not> (in_cs (pc c p) \<and> C)"
    and quiet: "\<not> C \<longrightarrow> Y = {} \<and> G = {}" and own: "own c p \<inter> holds (pc c p) = {}"
    and disj: "held c p \<inter> X = {}"
    unfolding local_inv_def by blast
  have dist: "distinct fs" "distinct as" "set fs \<inter> set as = {}"
    using v by (auto elim!: pool_viewE dest: slist_distinct)
  from assms(1) show ?thesis
  proof cases
    case call_get
    then show ?thesis using v B rm Beq lim as cs quiet own disj by (auto intro!: local_invI)
  next
    case (get_lock s)
    with view_lock_step [OF v, of s] show ?thesis
      using B rm Beq lim as cs quiet own disj by (auto intro!: local_invI)
  next
    case (get_first pl)
    have "\<exists>fs'. fs = free_list pl # fs'" if "free_list pl \<noteq> NULL"
      using v get_first that by (cases fs) (auto elim!: pool_viewE)
    with get_first show ?thesis
      using v B rm Beq lim as cs quiet own disj by (auto intro!: local_invI)
  next
    case (get_remove b s)
    with rm obtain fs' where fs: "fs = b # fs'" by blast
    from view_free_remove [OF v [unfolded this]] get_remove have
      "pool_view pool s True fs' as" "nexts s = nexts (store c)" by auto
    with get_remove fs show ?thesis
      using B Beq lim as cs quiet own disj dist by (auto intro!: local_invI)
  next
    case (get_insert b s)
    then have b: "b \<in> dom (nexts (store c))" "b \<notin> set fs" "b \<notin> set as" using B Beq lim by auto
    from view_alloc_insert [OF v this] get_insert have
      "pool_view pool s True fs (b # as)" "dom (nexts s) = dom (nexts (store c))" by auto
    with get_insert b show ?thesis
      using B Beq lim as cs quiet own disj dist by (auto intro!: local_invI)
  next
    case (get_unlock b s)
    with view_unlock [OF v] have "pool_view pool s False fs as" "nexts s = nexts (store c)" by auto
    with get_unlock show ?thesis
      using B Beq lim as cs quiet own disj dist by (auto intro!: local_invI)
  next
    case (get_retry s)
    with view_unlock [OF v] have "pool_view pool s False fs as" "nexts s = nexts (store c)" by auto
    with get_retry show ?thesis
      using B Beq lim as cs quiet own disj dist by (auto intro!: local_invI)
  next
    case (call_free b)
    then show ?thesis using v B rm Beq lim as cs quiet own disj by (auto intro!: local_invI)
  next
    case (free_lock b s)
    with view_lock_step [OF v, of s] show ?thesis
      using B rm Beq lim as cs quiet own disj by (auto intro!: local_invI)
  next
    case (free_remove b s)
    then have b: "b \<in> set as" using as by auto
    from view_alloc_remove [OF v this] free_remove have
      "pool_view pool s True fs (remove1 b as)" "dom (nexts s) = dom (nexts (store c))" by auto
    with free_remove b show ?thesis
      using B Beq lim as cs quiet own disj dist by (auto intro!: local_invI simp: set_remove1_distinct)
  next
    case (free_insert b s)
    then have b: "b \<in> dom (nexts (store c))" "b \<notin> set fs" "b \<notin> set as" using B Beq lim by auto
    from view_free_insert [OF v this] free_insert have
      "pool_view pool s True (b # fs) as" "dom (nexts s) = dom (nexts (store c))" by auto
    with free_insert b show ?thesis
      using B Beq lim as cs quiet own disj dist by (auto intro!: local_invI)
  next
    case (free_unlock s)
    with view_unlock [OF v] have "pool_view pool s False fs as" "nexts s = nexts (store c)" by auto
    with free_unlock show ?thesis
      using B Beq lim as cs quiet own disj dist by (auto intro!: local_invI)
  qed
qed

lemma pool_inv_step:
  assumes "pstep pool p c c'" and "pool_inv pool B c"
  shows "pool_inv pool B c'"
proof -
  have same: "pc c' q = pc c q" "own c' q = own c q" if "q \<noteq> p" for q
    using assms(1) that by (cases, auto)+
  then have "others_inv p c' = others_inv p c"
    unfolding others_inv_def by (simp cong: imp_cong)
  moreover have "(\<Union>q\<in>-{p}. held c' q) = (\<Union>q\<in>-{p}. held c q)"
    "(\<Union>q\<in>-{p}. limbo (pc c' q)) = (\<Union>q\<in>-{p}. limbo (pc c q))"
    "{b. \<exists>q. q \<noteq> p \<and> pc c' q = GetRemove b} = {b. \<exists>q. q \<noteq> p \<and> pc c q = GetRemove b}"
    "(\<exists>q. q \<noteq> p \<and> in_cs (pc c' q)) = (\<exists>q. q \<noteq> p \<and> in_cs (pc c q))"
    using same by auto
  moreover have "local_inv pool B (store c') (pc c' p) (own c' p) (\<Union>q\<in>-{p}. held c q)
      (\<Union>q\<in>-{p}. limbo (pc c q)) {b. \<exists>q. q \<noteq> p \<and> pc c q = GetRemove b}
      (\<exists>q. q \<noteq> p \<and> in_cs (pc c q))"
    using assms(2) by (intro local_inv_step [OF assms(1)]) (simp add: pool_inv_local [of _ _ _ p])
  moreover have "others_inv p c" using assms(2) by (simp add: pool_inv_local [of _ _ _ p])
  ultimately show ?thesis by (simp add: pool_inv_local [of _ _ _ p])
qed

section \<open>Properties of every interleaving\<close>

text \<open>The children start outside the two functions and own nothing; all blocks are free.\<close>

definition conc_start :: "ptr \<Rightarrow> ptr set \<Rightarrow> conc \<Rightarrow> bool" where
  "conc_start pool B c \<longleftrightarrow> (\<forall>p. pc c p = Idle \<and> own c p = {}) \<and>
     (\<exists>fs. pool_rep pool (store c) fs [] \<and> set fs = B)"

lemma pool_inv_start: "conc_start pool B c \<Longrightarrow> pool_inv pool B c"
proof -
  assume start: "conc_start pool B c"
  then obtain fs where fs: "pool_view pool (store c) False fs []" "set fs = B"
    by (auto simp: conc_start_def pool_rep_view)
  then have "B \<subseteq> dom (nexts (store c))" by (auto elim!: pool_viewE dest: slist_in_dom)
  with start fs show ?thesis
    unfolding pool_inv_def conc_start_def by (intro conjI exI [of _ fs] exI [of _ "[]"]) auto
qed

lemma pool_inv_reach:
  assumes "reach pool c0 c" and "conc_start pool B c0"
  shows "pool_inv pool B c"
  using assms by induction (auto intro: pool_inv_start pool_inv_step)

text \<open>C3. Whatever the interleaving, at most one process is between its lock and unlock, no block is
  given to two processes at a time, and while no process is inside, the free and the allocated list
  together hold exactly the blocks the pool was created with, the allocated ones being those the
  processes own or are about to return.\<close>

theorem pool_exclusive:
  assumes "conc_start pool B c0" and "reach pool c0 c"
  shows "(\<forall>p q. in_cs (pc c p) \<and> in_cs (pc c q) \<longrightarrow> p = q) \<and>
         (\<forall>p q. p \<noteq> q \<longrightarrow> own c p \<inter> own c q = {}) \<and>
         ((\<forall>p. \<not> in_cs (pc c p)) \<longrightarrow>
            (\<exists>fs as. pool_rep pool (store c) fs as \<and> set fs \<union> set as = B \<and>
                     set as = (\<Union>p. own c p \<union> holds (pc c p))))"
proof -
  have inv: "pool_inv pool B c" using assms by (blast intro: pool_inv_reach)
  have "\<exists>fs as. pool_rep pool (store c) fs as \<and> set fs \<union> set as = B \<and>
      set as = (\<Union>p. own c p \<union> holds (pc c p))" if out: "\<forall>p. \<not> in_cs (pc c p)"
  proof -
    have "(\<Union>p. limbo (pc c p)) = {}" using limbo_in_cs out by blast
    with inv out show ?thesis unfolding pool_inv_def pool_rep_view by auto
  qed
  with inv show ?thesis unfolding pool_inv_def by blast
qed

text \<open>The number of accesses a process inside has left until it has released the lock.\<close>

fun cs_left :: "pc \<Rightarrow> nat" where
  "cs_left GetFirst = 4"
| "cs_left (GetRemove b) = 3"
| "cs_left (GetInsert b) = 2"
| "cs_left (GetUnlock b) = 1"
| "cs_left GetRetry = 1"
| "cs_left (FreeRemove b) = 3"
| "cs_left (FreeInsert b) = 2"
| "cs_left FreeUnlock = 1"
| "cs_left _ = 0"

text \<open>The process that is inside never crashes on the lists and never waits: it can always make
  its next step, and each of its steps brings it nearer to the release of the lock.\<close>

lemma pool_cs_progress:
  assumes "conc_start pool B c0" and "reach pool c0 c" and "in_cs (pc c p)"
  shows "(\<exists>c'. pstep pool p c c') \<and> (\<forall>c'. pstep pool p c c' \<longrightarrow> cs_left (pc c' p) < cs_left (pc c p))"
proof
  from pool_inv_reach [OF assms(2,1)] obtain fs as where
    v: "pool_view pool (store c) (\<exists>p. in_cs (pc c p)) fs as" and B: "B \<subseteq> dom (nexts (store c))"
    and rm: "\<forall>p b. pc c p = GetRemove b \<longrightarrow> (\<exists>fs'. fs = b # fs')"
    and Beq: "B = set fs \<union> set as \<union> (\<Union>p. limbo (pc c p))"
    and lim: "(set fs \<union> set as) \<inter> (\<Union>p. limbo (pc c p)) = {}"
    and as: "set as = (\<Union>p. held c p)" unfolding pool_inv_def by (elim conjE exE) (rule that)
  have limbo: "b \<in> dom (nexts (store c)) \<and> b \<notin> set fs \<and> b \<notin> set as" if "b \<in> limbo (pc c p)" for b
  proof -
    have "b \<in> (\<Union>p. limbo (pc c p))" using that by (rule UN_I [OF UNIV_I])
    moreover from this have "b \<in> B" unfolding Beq by (rule UnI2)
    ultimately show ?thesis using B lim by (meson UnI1 UnI2 disjoint_iff subsetD)
  qed
  have held: "b \<in> set as" if "b \<in> holds (pc c p)" for b using as that by (metis UN_I UNIV_I UnI2)
  from v obtain pl where pl: "pools (store c) pool = Some pl" by (rule pool_viewE)
  obtain su where un: "spinlock_unlock pool (store c) = Some su" using view_unlock [OF v] by blast
  show "\<exists>c'. pstep pool p c c'"
  proof (cases "pc c p")
    case GetFirst
    then show ?thesis using get_first pl by blast
  next
    case (GetRemove b)
    with rm obtain fs' where "fs = b # fs'" by blast
    with v view_free_remove show ?thesis using get_remove [OF GetRemove] by blast
  next
    case (GetInsert b)
    then show ?thesis using view_alloc_insert [OF v, of b] limbo get_insert by fastforce
  next
    case (GetUnlock b)
    then show ?thesis using get_unlock un by blast
  next
    case GetRetry
    then show ?thesis using get_retry un by blast
  next
    case (FreeRemove b)
    then show ?thesis using view_alloc_remove [OF v, of b] held free_remove by fastforce
  next
    case (FreeInsert b)
    then show ?thesis using view_free_insert [OF v, of b] limbo free_insert by fastforce
  next
    case FreeUnlock
    then show ?thesis using free_unlock un by blast
  qed (use assms(3) in auto)
  show "\<forall>c'. pstep pool p c c' \<longrightarrow> cs_left (pc c' p) < cs_left (pc c p)"
    using assms(3) by (auto elim!: pstep.cases)
qed

text \<open>Two free blocks, two processes: the first is given block 1.\<close>

definition conc0 :: conc where
  "conc0 = \<lparr>store = mem_two_free\<lparr>pools := [9 \<mapsto> \<lparr>lock = False, block_size = 64, block_count = 2,
                                   free_list = 1, allocated_list = 0\<rparr>]\<rparr>,
            pc = (\<lambda>_. Idle), own = (\<lambda>_. {})\<rparr>"

lemma conc0_start: "conc_start 9 {1, 2} conc0"
  unfolding conc_start_def conc0_def
  by (auto simp: pool_rep_def mem_two_free_def mem0_def intro!: exI [of _ "[1, 2]"])

lemma conc0_locked: "\<exists>c. reach 9 conc0 c \<and> pc c 0 = GetFirst"
proof -
  let ?c = "conc0\<lparr>pc := (pc conc0)(0 := GetLock)\<rparr>"
  have "reach 9 conc0 ?c" by (rule step [OF start call_get]) (simp add: conc0_def)
  moreover have "spinlock_lock 9 (store ?c) \<noteq> None"
    by (simp add: conc0_def spinlock_lock_def)
  then obtain s where "spinlock_lock 9 (store ?c) = Some s" by blast
  then have "pstep 9 0 ?c (?c\<lparr>store := s, pc := (pc ?c)(0 := GetFirst)\<rparr>)"
    by (intro get_lock) simp_all
  ultimately have "reach 9 conc0 (?c\<lparr>store := s, pc := (pc ?c)(0 := GetFirst)\<rparr>)" by (rule step)
  then show ?thesis by (intro exI conjI) (assumption, simp)
qed

theorem pool_exclusive_witness:
  "\<exists>c. reach 9 conc0 c \<and> in_cs (pc c 0) \<and> (\<forall>q. in_cs (pc c q) \<longrightarrow> q = 0)"
proof -
  from conc0_locked obtain c where c: "reach 9 conc0 c" "pc c 0 = GetFirst" by blast
  with pool_exclusive [OF conc0_start c(1)] show ?thesis by (intro exI [of _ c]) auto
qed

end
