(* ===== verification/Spinlock.thy ===== *)
theory Spinlock
  imports Pool_Conc
begin

text \<open>
  The fetch-and-store spinlock of the concurrency kit, \<^verbatim>\<open>src/deps/ck-0.5.2/include/spinlock/fas.h\<close>, which is the lock of the
  shared pools. Its functions work on the lock word. The loop of \<open>ck_spinlock_fas_lock\<close> sees in its \<open>i\<close>-th access the word that
  the other processes have left: \<open>obs i\<close>. For the pools the loop is split into its accesses: one exchange, and, when it
  has found the lock taken, loads until the lock looks free. The atomic lock of \<^verbatim>\<open>Pool_Conc\<close> is what these accesses
  implement.
\<close>

section \<open>The functions\<close>

text \<open>The atomic exchange: the old value and the new one.\<close>

definition ck_pr_fas_uint :: "u32 \<Rightarrow> u32 \<Rightarrow> u32 \<times> u32" where
  "ck_pr_fas_uint target new = (target, new)"

definition ck_spinlock_fas_init :: u32 where
  "ck_spinlock_fas_init = 0"

definition ck_spinlock_fas_trylock :: "u32 \<Rightarrow> bool \<times> u32" where
  "ck_spinlock_fas_trylock lock_word = (let (old, lock_word) = ck_pr_fas_uint lock_word 1 in (\<not> old \<noteq> 0, lock_word))"

definition ck_spinlock_fas_locked :: "u32 \<Rightarrow> bool" where
  "ck_spinlock_fas_locked lock_word \<longleftrightarrow> lock_word \<noteq> 0"

definition ck_spinlock_fas_unlock :: "u32 \<Rightarrow> u32" where
  "ck_spinlock_fas_unlock lock_word = 0"

text \<open>\<open>inner\<close> is true in the inner loop, which only loads. The result is the access that took the lock and the word it
  has left.\<close>

partial_function (option) ck_spinlock_fas_lock :: "(nat \<Rightarrow> u32) \<Rightarrow> bool \<Rightarrow> nat \<Rightarrow> (nat \<times> u32) option" where
  "ck_spinlock_fas_lock obs inner i =
     (if inner
      then if obs i = 1 then ck_spinlock_fas_lock obs True (i + 1) else ck_spinlock_fas_lock obs False (i + 1)
      else let (old, lock_word) = ck_pr_fas_uint (obs i) 1 in
           if old = 1 then ck_spinlock_fas_lock obs True (i + 1) else Some (i, lock_word))"

text \<open>The loop takes the lock in an exchange that found it free, and leaves it taken. It returns when the word is
  free in two accesses that follow each other, and not when it is never free.\<close>

lemma fas_lock_took:
  assumes "ck_spinlock_fas_lock obs inner i = Some r"
  shows "i \<le> fst r \<and> obs (fst r) \<noteq> 1 \<and> snd r = 1"
  by (rule ck_spinlock_fas_lock.raw_induct [OF _ assms]) (fastforce simp: ck_pr_fas_uint_def split: if_splits)

lemma fas_lock_returns:
  assumes "obs n \<noteq> 1" and "obs (n + 1) \<noteq> 1" and "i \<le> n"
  shows "\<exists>r. ck_spinlock_fas_lock obs inner i = Some r \<and> fst r \<le> n + 1"
  using assms(3)
proof (induction "n - i" arbitrary: i inner)
  case 0
  then show ?case
    using assms(1,2) by (subst ck_spinlock_fas_lock.simps, subst (2) ck_spinlock_fas_lock.simps)
      (auto simp: ck_pr_fas_uint_def)
next
  case (Suc k)
  then have "\<exists>r. ck_spinlock_fas_lock obs b (i + 1) = Some r \<and> fst r \<le> n + 1" for b by (intro Suc.hyps(1)) auto
  then show ?case using Suc.prems Suc.hyps(2) by (subst ck_spinlock_fas_lock.simps) (auto simp: ck_pr_fas_uint_def)
qed

section \<open>The lock of a pool, access by access\<close>

text \<open>The lock word of a pool, and whether a process is about to take it. \<open>w p\<close>: the process is in the inner loop.\<close>

definition lock_word :: "ptr \<Rightarrow> conc \<Rightarrow> u32 option" where
  "lock_word pool c = map_option (\<lambda>pl. of_bool (lock pl)) (pools (store c) pool)"

definition at_lock :: "pc \<Rightarrow> bool" where
  "at_lock x \<longleftrightarrow> x = GetLock \<or> (\<exists>b. x = FreeLock b)"

text \<open>An access that stores the word \<open>v\<close>, and where a process goes when it has taken the lock.\<close>

definition set_word :: "ptr \<Rightarrow> u32 \<Rightarrow> mem \<Rightarrow> mem" where
  "set_word pool v s =
     (case pools s pool of None \<Rightarrow> s | Some pl \<Rightarrow> s\<lparr>pools := (pools s)(pool \<mapsto> pl\<lparr>lock := (v \<noteq> 0)\<rparr>)\<rparr>)"

fun locked_pc :: "pc \<Rightarrow> pc" where
  "locked_pc GetLock = GetFirst"
| "locked_pc (FreeLock b) = FreeRemove b"
| "locked_pc x = x"

inductive fas_step :: "ptr \<Rightarrow> nat \<Rightarrow> conc \<times> (nat \<Rightarrow> bool) \<Rightarrow> conc \<times> (nat \<Rightarrow> bool) \<Rightarrow> bool" for pool p where
  exchange: "at_lock (pc c p) \<Longrightarrow> \<not> w p \<Longrightarrow> lock_word pool c = Some v \<Longrightarrow> ck_spinlock_fas_trylock v = (ok, v') \<Longrightarrow>
    fas_step pool p (c, w) (c\<lparr>store := set_word pool v' (store c),
      pc := (if ok then (pc c)(p := locked_pc (pc c p)) else pc c)\<rparr>, w(p := \<not> ok))"
| load: "at_lock (pc c p) \<Longrightarrow> w p \<Longrightarrow> lock_word pool c = Some v \<Longrightarrow>
    fas_step pool p (c, w) (c, w(p := ck_spinlock_fas_locked v))"
| other: "\<not> at_lock (pc c p) \<Longrightarrow> pstep pool p c c' \<Longrightarrow> fas_step pool p (c, w) (c', w)"

inductive fas_reach :: "ptr \<Rightarrow> conc \<times> (nat \<Rightarrow> bool) \<Rightarrow> conc \<times> (nat \<Rightarrow> bool) \<Rightarrow> bool" for pool c0 where
  fas_start: "fas_reach pool c0 c0"
| fas_next: "fas_reach pool c0 c \<Longrightarrow> fas_step pool p c c' \<Longrightarrow> fas_reach pool c0 c'"

text \<open>An exchange that finds the lock taken changes nothing, one that finds it free takes the atomic lock; the release
  stores what the function for it stores.\<close>

lemma set_word_taken: "lock_word pool c = Some 1 \<Longrightarrow> set_word pool 1 (store c) = store c"
  by (auto simp: lock_word_def set_word_def map_upd_triv split: option.splits if_splits)

lemma set_word_free: "lock_word pool c = Some 0 \<Longrightarrow> spinlock_lock pool (store c) = Some (set_word pool 1 (store c))"
  by (auto simp: lock_word_def set_word_def spinlock_lock_def split: if_splits)

lemma set_word_unlock: "lock_word pool c = Some v \<Longrightarrow>
    spinlock_unlock pool (store c) = Some (set_word pool (ck_spinlock_fas_unlock v) (store c))"
  by (auto simp: lock_word_def set_word_def spinlock_unlock_def ck_spinlock_fas_unlock_def)

lemma lock_word_cases: "lock_word pool c = Some v \<Longrightarrow> v = 0 \<or> v = 1"
  by (auto simp: lock_word_def)

lemma exchange_free:
  assumes "at_lock (pc c p)" and "lock_word pool c = Some 0"
  shows "pstep pool p c (c\<lparr>store := set_word pool 1 (store c), pc := (pc c)(p := locked_pc (pc c p))\<rparr>)"
  using assms(1) get_lock [OF _ set_word_free [OF assms(2)], of p] free_lock [OF _ set_word_free [OF assms(2)], of p]
  unfolding at_lock_def by auto

lemma fas_step_refines:
  assumes "fas_step pool p (c, w) (c', w')"
  shows "c' = c \<or> pstep pool p c c'"
  using assms
proof cases
  case (exchange v ok v')
  with lock_word_cases [of pool c v] show ?thesis
    by (auto simp: ck_spinlock_fas_trylock_def ck_pr_fas_uint_def set_word_taken exchange_free)
qed auto

lemma fas_reach_refines:
  assumes "fas_reach pool x y"
  shows "reach pool (fst x) (fst y)"
  using assms
proof induction
  case (fas_next y p z)
  then show ?case
    using fas_step_refines [of pool p "fst y" "snd y" "fst z" "snd z"] by (auto intro: reach.intros)
qed (rule reach.start)

text \<open>A free lock is taken by an exchange, and the next load sees that it is free.\<close>

lemma free_lock_taken:
  assumes "pool_view pool (store c) False fs as" and "at_lock (pc c p)"
  shows "\<exists>u c'. (u = w \<or> fas_step pool p (c, w) (c, u)) \<and> fas_step pool p (c, u) (c', u) \<and> in_cs (pc c' p)"
proof -
  let ?c = "c\<lparr>store := set_word pool 1 (store c), pc := (pc c)(p := locked_pc (pc c p))\<rparr>"
  have word: "lock_word pool c = Some 0" using assms(1) by (auto simp: lock_word_def elim!: pool_viewE)
  have cs: "in_cs (pc ?c p)" using assms(2) by (auto simp: at_lock_def)
  have got: "fas_step pool p (c, u) (?c, u)" if "\<not> u p" for u
    using exchange [where c = c and p = p and w = u and v = 0 and ok = True and v' = 1] assms(2) word that by (simp add: ck_spinlock_fas_trylock_def ck_pr_fas_uint_def fun_upd_idem)
  have "fas_step pool p (c, w) (c, w(p := False))" if "w p"
    using load [where c = c and p = p and w = w and v = 0] assms(2) that word by (simp add: ck_spinlock_fas_locked_def)
  moreover have "\<not> (w(p := False)) p" by simp
  ultimately show ?thesis using cs got by (cases "w p") blast+
qed

text \<open>C18. The spinlock of the concurrency kit protects the pools. Taken access by access, every interleaving of the
  processes is one of the model with the atomic lock, so that at most one process is inside. No interleaving gets
  stuck: a process inside can always make its next access, each of which brings it nearer to the release, and when none
  is inside, every process at the lock gets in with at most two accesses of its own.\<close>

theorem spinlock_progress:
  assumes "conc_start pool B c0" and "fas_reach pool (c0, \<lambda>_. False) (c, w)"
  shows "reach pool c0 c \<and> (\<forall>p q. in_cs (pc c p) \<and> in_cs (pc c q) \<longrightarrow> p = q) \<and>
     (\<forall>p. in_cs (pc c p) \<longrightarrow> (\<exists>c'. fas_step pool p (c, w) (c', w)) \<and>
        (\<forall>c' w'. fas_step pool p (c, w) (c', w') \<longrightarrow> cs_left (pc c' p) < cs_left (pc c p))) \<and>
     ((\<forall>q. \<not> in_cs (pc c q)) \<longrightarrow> (\<forall>p. at_lock (pc c p) \<longrightarrow>
        (\<exists>u c'. (u = w \<or> fas_step pool p (c, w) (c, u)) \<and> fas_step pool p (c, u) (c', u) \<and> in_cs (pc c' p))))"
proof -
  have reach: "reach pool c0 c" using fas_reach_refines [OF assms(2)] by simp
  have inv: "pool_inv pool B c" by (rule pool_inv_reach [OF reach assms(1)])
  have excl: "\<forall>p q. in_cs (pc c p) \<and> in_cs (pc c q) \<longrightarrow> p = q" using inv unfolding pool_inv_def by blast
  have inside: "(\<exists>c'. fas_step pool p (c, w) (c', w)) \<and>
      (\<forall>c' w'. fas_step pool p (c, w) (c', w') \<longrightarrow> cs_left (pc c' p) < cs_left (pc c p))" if p: "in_cs (pc c p)" for p
  proof -
    have no: "\<not> at_lock (pc c p)" using p by (auto simp: at_lock_def)
    then show ?thesis using pool_cs_progress [OF assms(1) reach p] by (auto elim!: fas_step.cases intro: fas_step.other)
  qed
  have outside: "\<exists>u c'. (u = w \<or> fas_step pool p (c, w) (c, u)) \<and> fas_step pool p (c, u) (c', u) \<and> in_cs (pc c' p)"
    if out: "\<forall>q. \<not> in_cs (pc c q)" and p: "at_lock (pc c p)" for p
  proof -
    obtain fs as where "pool_view pool (store c) False fs as" using inv out unfolding pool_inv_def by auto
    then show ?thesis using p by (rule free_lock_taken)
  qed
  show ?thesis by (intro conjI allI impI; (rule reach | rule excl [rule_format] | rule inside [THEN conjunct1]
      | rule inside [THEN conjunct2, rule_format] | rule outside); simp?)
qed

text \<open>The second process comes to a free lock and gets in.\<close>

theorem spinlock_progress_witness: "\<exists>c u c'. reach 9 conc0 c \<and> fas_step 9 1 (c, u) (c', u) \<and> in_cs (pc c' 1)"
proof -
  let ?c = "conc0\<lparr>pc := (pc conc0)(1 := GetLock)\<rparr>"
  have "pstep 9 1 conc0 ?c" by (rule call_get) (simp add: conc0_def)
  then have "fas_step 9 1 (conc0, \<lambda>_. False) (?c, \<lambda>_. False)" by (rule fas_step.other [rotated]) (simp add: conc0_def at_lock_def)
  then have run: "fas_reach 9 (conc0, \<lambda>_. False) (?c, \<lambda>_. False)" by (rule fas_next [OF fas_start])
  have "\<forall>q. \<not> in_cs (pc ?c q)" "at_lock (pc ?c 1)" by (simp_all add: conc0_def at_lock_def)
  with spinlock_progress [OF conc0_start run] show ?thesis by blast
qed

end
