(* ===== verification/Reallocarray.thy ===== *)
theory Reallocarray
  imports Platform
begin

text \<open>
  Model of \<^verbatim>\<open>src/src/utils/reallocarray.c\<close>: \<open>realloc\<close> of an array with a check that the
  product of the element count and the element size fits a \<open>size_t\<close>. The theorem states that the
  check is exact. The value of \<open>errno\<close> is not modelled.
\<close>

text \<open>\<open>realloc\<close> of the C library: a granted request moves the contents to a new block and releases
  the old one, a refused one leaves the old block alone; size 0 releases it.\<close>

definition realloc :: "ptr \<Rightarrow> u64 \<Rightarrow> 'z os_scheme \<Rightarrow> (ptr \<times> 'z os_scheme) option" where
  "realloc optr n s =
     (if optr \<noteq> NULL \<and> optr \<notin> dom (heap s) then None
      else if n = 0 then Some (NULL, s\<lparr>heap := (heap s)(optr := None)\<rparr>)
      else let (p, s') = malloc n s in
           if p = NULL then Some (NULL, s')
           else Some (p, s'\<lparr>heap := (heap s')(optr := None), bytes := (bytes s')(p := bytes s' optr)\<rparr>))"

definition MUL_NO_OVERFLOW :: u64 where
  "MUL_NO_OVERFLOW = 4294967296"

definition SIZE_MAX :: u64 where
  "SIZE_MAX = 18446744073709551615"

definition reallocarray :: "ptr \<Rightarrow> u64 \<Rightarrow> u64 \<Rightarrow> 'z os_scheme \<Rightarrow> (ptr \<times> 'z os_scheme) option" where
  "reallocarray optr nmemb esize s =
     (if (MUL_NO_OVERFLOW \<le> nmemb \<or> MUL_NO_OVERFLOW \<le> esize) \<and> 0 < nmemb \<and> SIZE_MAX div nmemb < esize
      then Some (NULL, s)
      else realloc optr (esize * nmemb) s)"

lemma unat_SIZE_MAX: "unat SIZE_MAX = 2 ^ 64 - 1"
  by (simp add: SIZE_MAX_def)

lemma size_max_div: "0 < n \<Longrightarrow> (2 ^ 64 - 1) div n < m \<longleftrightarrow> 2 ^ 64 \<le> n * (m :: nat)"
  by (subst div_less_iff_less_mult) (auto simp: mult.commute)

lemma overflow_check_exact:
  fixes nmemb esize :: u64
  shows "((MUL_NO_OVERFLOW \<le> nmemb \<or> MUL_NO_OVERFLOW \<le> esize) \<and> 0 < nmemb \<and> SIZE_MAX div nmemb < esize)
         \<longleftrightarrow> 2 ^ 64 \<le> unat nmemb * unat esize"
proof (cases "nmemb = 0")
  case True
  then show ?thesis by simp
next
  case False
  then have pos: "0 < unat nmemb" by (simp add: unat_gt_0)
  have "SIZE_MAX div nmemb < esize \<longleftrightarrow> (2 ^ 64 - 1) div unat nmemb < unat esize"
    by (simp add: word_less_nat_alt unat_div_distrib unat_SIZE_MAX)
  also have "\<dots> \<longleftrightarrow> 2 ^ 64 \<le> unat nmemb * unat esize" by (rule size_max_div [OF pos])
  finally have div: "SIZE_MAX div nmemb < esize \<longleftrightarrow> 2 ^ 64 \<le> unat nmemb * unat esize" .
  have small: "unat nmemb * unat esize < 2 ^ 64" if "\<not> MUL_NO_OVERFLOW \<le> nmemb" "\<not> MUL_NO_OVERFLOW \<le> esize"
  proof -
    from that have "unat nmemb < 2 ^ 32" "unat esize < 2 ^ 32"
      by (auto simp: MUL_NO_OVERFLOW_def word_le_nat_alt not_le)
    then have "unat nmemb * unat esize < 2 ^ 32 * 2 ^ 32" by (intro mult_strict_mono) auto
    then show ?thesis by simp
  qed
  show ?thesis using div small False by (meson not_le word_neq_0_conv)
qed

text \<open>C22. \<open>reallocarray\<close> refuses a request exactly when the product of count and size does not fit 64
  bits; every other request reaches \<open>realloc\<close> with the true product.\<close>

theorem reallocarray_exact:
  "reallocarray optr nmemb esize s =
     (if 2 ^ 64 \<le> unat nmemb * unat esize then Some (NULL, s)
      else realloc optr (word_of_nat (unat nmemb * unat esize)) s) \<and>
   (unat nmemb * unat esize < 2 ^ 64 \<longrightarrow>
      unat (word_of_nat (unat nmemb * unat esize) :: u64) = unat nmemb * unat esize)"
proof -
  have e: "esize * nmemb = word_of_nat (unat nmemb * unat esize)" by (simp add: mult.commute)
  have u: "unat (word_of_nat k :: u64) = k" if "k < 2 ^ 64" for k
    using that by (simp add: unat_of_nat take_bit_nat_eq_self)
  show ?thesis unfolding reallocarray_def overflow_check_exact e using u by blast
qed

text \<open>The largest array of 8-byte elements is granted its true size, the next larger one is refused.\<close>

theorem reallocarray_exact_witness:
  "reallocarray NULL 2305843009213693951 8 os0 = realloc NULL 18446744073709551608 os0 \<and>
   unat (word_of_nat (unat (2305843009213693951 :: u64) * unat (8 :: u64)) :: u64) = 18446744073709551608 \<and>
   reallocarray NULL 2305843009213693952 8 os0 = Some (NULL, os0)"
  using reallocarray_exact [of NULL 2305843009213693951 8 os0]
    reallocarray_exact [of NULL 2305843009213693952 8 os0] by simp

end
