(* ===== verification/Epoch.thy ===== *)
theory Epoch
  imports Memory Reallocarray
begin

text \<open>
  Model of \<^verbatim>\<open>src/src/concurrent/epoch.c\<close>: the per-thread context for epoch protected
  sections. A context owns an epoch record and an array of pointers to the sections that are open.
  Of the epoch record of the concurrency kit only the nesting counter \<open>active\<close> is kept, which
  \<open>ck_epoch_register\<close> sets to 0, \<open>ck_epoch_begin\<close> increments and \<open>ck_epoch_end\<close> decrements; its
  size is the argument \<open>rsize\<close>. \<open>slots a i\<close> is element \<open>i\<close> of the pointer array at \<open>a\<close>, and an
  access is defined only within the bytes allocated at \<open>a\<close>.
\<close>

record thread_ctx =
  epoch_rec :: ptr
  section_arr :: ptr
  section_count :: u32
  buf_size :: u32

record epoch = mem +
  threads :: "ptr \<rightharpoonup> thread_ctx"
  actives :: "ptr \<rightharpoonup> u32"
  slots :: "ptr \<Rightarrow> nat \<Rightarrow> ptr"

definition slot_valid :: "'z epoch_scheme \<Rightarrow> ptr \<Rightarrow> nat \<Rightarrow> bool" where
  "slot_valid s a i \<longleftrightarrow> (case heap s a of None \<Rightarrow> False | Some n \<Rightarrow> 8 * (i + 1) \<le> unat n)"

definition slot_read :: "ptr \<Rightarrow> nat \<Rightarrow> 'z epoch_scheme \<Rightarrow> ptr option" where
  "slot_read a i s = (if slot_valid s a i then Some (slots s a i) else None)"

definition slot_write :: "ptr \<Rightarrow> nat \<Rightarrow> ptr \<Rightarrow> 'z epoch_scheme \<Rightarrow> 'z epoch_scheme option" where
  "slot_write a i p s =
     (if slot_valid s a i then Some (s\<lparr>slots := (slots s)(a := (slots s a)(i := p))\<rparr>) else None)"

definition epoch_register :: "ptr \<Rightarrow> 'z epoch_scheme \<Rightarrow> 'z epoch_scheme" where
  "epoch_register r s = s\<lparr>actives := (actives s)(r \<mapsto> 0)\<rparr>"

definition epoch_begin :: "ptr \<Rightarrow> 'z epoch_scheme \<Rightarrow> 'z epoch_scheme option" where
  "epoch_begin r s =
     do { a \<leftarrow> actives s r;
          Some (s\<lparr>actives := (actives s)(r \<mapsto> if a = 0 then 1 else a + 1)\<rparr>) }"

definition epoch_end :: "ptr \<Rightarrow> 'z epoch_scheme \<Rightarrow> 'z epoch_scheme option" where
  "epoch_end r s = do { a \<leftarrow> actives s r; Some (s\<lparr>actives := (actives s)(r \<mapsto> a - 1)\<rparr>) }"

text \<open>The context is allocated but not yet initialised between its allocation and the assignments;
  no field is read before it is written. On the last error path \<open>allocator->free\<close> has set
  \<open>thread\<close> to \<open>NULL\<close> when \<open>thread->record\<close> is read.\<close>

definition init_thread :: "u64 \<Rightarrow> 'z epoch_scheme \<Rightarrow> (ptr \<times> 'z epoch_scheme) option" where
  "init_thread rsize s =
     (let (thread, s) = default_mem_alloc 24 s in
      if thread = NULL
      then Some (NULL, console_output ERROR ''Thread context allocation failed'' s)
      else
        let (rec, s) = default_mem_alloc rsize s in
        if rec = NULL
        then do { (thread, s) \<leftarrow> default_mem_free thread
                    (console_output ERROR ''Epoch record allocation failed'' s);
                  Some (NULL, s) }
        else
          let (arr, s) = default_mem_alloc (8 * 8) s;
              s = s\<lparr>threads := (threads s)(thread \<mapsto>
                     \<lparr>epoch_rec = rec, section_arr = arr, section_count = 0, buf_size = 8\<rparr>)\<rparr> in
          if arr = NULL
          then do { (thread, s) \<leftarrow> default_mem_free thread
                      (console_output ERROR ''Epoch section array allocation failed'' s);
                    ctx \<leftarrow> (if thread = NULL then None else threads s thread);
                    (r, s) \<leftarrow> default_mem_free (epoch_rec ctx) s;
                    Some (NULL, s) }
          else Some (thread, epoch_register rec s))"

definition clean_thread :: "ptr \<Rightarrow> 'z epoch_scheme \<Rightarrow> (ptr \<times> 'z epoch_scheme) option" where
  "clean_thread thread s =
     do { ctx \<leftarrow> threads s thread;
          a \<leftarrow> actives s (epoch_rec ctx);
          let s = s\<lparr>actives := (actives s)(epoch_rec ctx := None)\<rparr>;
          (arr, s) \<leftarrow> default_mem_free (section_arr ctx) s;
          (r, s) \<leftarrow> default_mem_free (epoch_rec ctx) s;
          let s = s\<lparr>threads := (threads s)(thread := None)\<rparr>;
          default_mem_free thread s }"

definition get_record :: "ptr \<Rightarrow> 'z epoch_scheme \<Rightarrow> ptr option" where
  "get_record thread s = do { ctx \<leftarrow> threads s thread; Some (epoch_rec ctx) }"

text \<open>The first part of \<open>epoch_start\<close>: when the count is beyond the buffer size, double it.\<close>

definition epoch_grow :: "ptr \<Rightarrow> 'z epoch_scheme \<Rightarrow> (bool \<times> 'z epoch_scheme) option" where
  "epoch_grow thread s =
     do { ctx \<leftarrow> threads s thread;
          if section_count ctx > buf_size ctx
          then do { let old = section_arr ctx;
                    (arr, s) \<leftarrow> reallocarray old (ucast (buf_size ctx * 2)) 8 s;
                    let s = s\<lparr>slots := (slots s)(arr := slots s old),
                              threads := (threads s)(thread \<mapsto> ctx\<lparr>section_arr := arr\<rparr>)\<rparr>;
                    if arr = NULL
                    then Some (False, console_output ERROR ''Can't reallocate epoch section array'' s)
                    else Some (True, s\<lparr>threads := (threads s)(thread \<mapsto>
                           ctx\<lparr>section_arr := arr, buf_size := buf_size ctx * 2\<rparr>)\<rparr>) }
          else Some (True, s) }"

definition epoch_start :: "ptr \<Rightarrow> 'z epoch_scheme \<Rightarrow> (int \<times> 'z epoch_scheme) option" where
  "epoch_start thread s =
     do { (ok, s) \<leftarrow> epoch_grow thread s;
          if \<not> ok then Some (-1, s)
          else do {
            ctx \<leftarrow> threads s thread;
            let count = section_count ctx;
            let (p, s) = default_mem_alloc 4 s;
            s \<leftarrow> slot_write (section_arr ctx) (unat count) p s;
            if p = NULL
            then Some (-1, console_output ERROR ''Epoch section allocation failed'' s)
            else do {
              s \<leftarrow> epoch_begin (epoch_rec ctx) s;
              Some (0, s\<lparr>threads := (threads s)(thread \<mapsto> ctx\<lparr>section_count := count + 1\<rparr>)\<rparr>) } } }"

definition epoch_stop :: "ptr \<Rightarrow> 'z epoch_scheme \<Rightarrow> 'z epoch_scheme option" where
  "epoch_stop thread s =
     do { ctx \<leftarrow> threads s thread;
          let count = section_count ctx - 1;
          let s = s\<lparr>threads := (threads s)(thread \<mapsto> ctx\<lparr>section_count := count\<rparr>)\<rparr>;
          p \<leftarrow> slot_read (section_arr ctx) (unat count) s;
          s \<leftarrow> epoch_end (epoch_rec ctx) s;
          (p, s) \<leftarrow> default_mem_free p s;
          slot_write (section_arr ctx) (unat count) p s }"

text \<open>The loop of \<open>stop_all_sections\<close> from index \<open>i\<close>, with \<open>n\<close> sections left.\<close>

fun stop_sections :: "thread_ctx \<Rightarrow> nat \<Rightarrow> nat \<Rightarrow> 'z epoch_scheme \<Rightarrow> 'z epoch_scheme option" where
  "stop_sections ctx i 0 s = Some s"
| "stop_sections ctx i (Suc n) s =
     do { p \<leftarrow> slot_read (section_arr ctx) i s;
          s \<leftarrow> epoch_end (epoch_rec ctx) s;
          (p, s) \<leftarrow> default_mem_free p s;
          s \<leftarrow> slot_write (section_arr ctx) i p s;
          stop_sections ctx (i + 1) n s }"

definition stop_all_sections :: "ptr \<Rightarrow> 'z epoch_scheme \<Rightarrow> 'z epoch_scheme option" where
  "stop_all_sections thread s =
     do { ctx \<leftarrow> threads s thread;
          s \<leftarrow> stop_sections ctx 0 (unat (section_count ctx)) s;
          Some (s\<lparr>threads := (threads s)(thread \<mapsto> ctx\<lparr>section_count := 0\<rparr>)\<rparr>) }"

section \<open>Open sections of a context\<close>

text \<open>The context at \<open>t\<close> has the \<open>n\<close> open sections \<open>slots 0\<close> to \<open>slots (n - 1)\<close>: distinct live blocks,
  and the nesting counter of its record is \<open>n\<close>. The array is the one \<open>init_thread\<close> allocates.\<close>

definition epoch_ok :: "ptr \<Rightarrow> nat \<Rightarrow> 'z epoch_scheme \<Rightarrow> bool" where
  "epoch_ok t n s \<longleftrightarrow> wf_os s \<and> n \<le> 8 \<and>
     (case threads s t of
        None \<Rightarrow> False
      | Some ctx \<Rightarrow> section_count ctx = word_of_nat n \<and> buf_size ctx = 8 \<and>
          heap s (section_arr ctx) = Some 64 \<and> actives s (epoch_rec ctx) = Some (word_of_nat n) \<and>
          distinct (map (slots s (section_arr ctx)) [0..<n]) \<and>
          (\<forall>i<n. heap s (slots s (section_arr ctx) i) = Some 4))"

lemma epoch_okE:
  assumes "epoch_ok t n s"
  obtains ctx where "threads s t = Some ctx" and "wf_os s" and "n \<le> 8"
    and "section_count ctx = word_of_nat n" and "buf_size ctx = 8"
    and "heap s (section_arr ctx) = Some 64" and "actives s (epoch_rec ctx) = Some (word_of_nat n)"
    and "distinct (map (slots s (section_arr ctx)) [0..<n])"
    and "\<forall>i<n. heap s (slots s (section_arr ctx) i) = Some 4"
  using assms by (auto simp: epoch_ok_def split: option.splits)

lemma epoch_okI:
  assumes "threads s t = Some ctx" and "wf_os s" and "n \<le> 8"
    and "section_count ctx = word_of_nat n" and "buf_size ctx = 8"
    and "heap s (section_arr ctx) = Some 64" and "actives s (epoch_rec ctx) = Some (word_of_nat n)"
    and "distinct (map (slots s (section_arr ctx)) [0..<n])"
    and "\<And>i. i < n \<Longrightarrow> heap s (slots s (section_arr ctx) i) = Some 4"
  shows "epoch_ok t n s"
  using assms by (simp add: epoch_ok_def)

lemma unat_of_small [simp]: "n \<le> 8 \<Longrightarrow> unat (word_of_nat n :: u32) = n"
  by (simp add: unat_of_nat take_bit_nat_eq_self)

lemma epoch_grow_none: "epoch_ok t n s \<Longrightarrow> epoch_grow t s = Some (True, s)"
  by (erule epoch_okE) (simp add: epoch_grow_def word_less_nat_alt)

lemma epoch_begin_Some:
  "actives s r = Some a \<Longrightarrow> epoch_begin r s = Some (s\<lparr>actives := (actives s)(r \<mapsto> a + 1)\<rparr>)"
  by (simp add: epoch_begin_def)

lemma epoch_start_granted:
  assumes ok: "epoch_ok t n s" and n: "n < 8" and g: "grant s (asked s)"
  shows "\<exists>s'. epoch_start t s = Some (0, s') \<and> epoch_ok t (n + 1) s' \<and> grant s' = grant s"
proof -
  from ok obtain ctx where c: "threads s t = Some ctx" "wf_os s" "n \<le> 8"
    "section_count ctx = word_of_nat n" "buf_size ctx = 8"
    "heap s (section_arr ctx) = Some 64" "actives s (epoch_rec ctx) = Some (word_of_nat n)"
    "distinct (map (slots s (section_arr ctx)) [0..<n])"
    "\<forall>i<n. heap s (slots s (section_arr ctx) i) = Some 4" by (rule epoch_okE)
  let ?a = "section_arr ctx" and ?p = "fresh s"
  have p: "0 < ?p" "?p \<noteq> ?a" "\<forall>i<n. slots s ?a i \<noteq> ?p"
    using c(2,6,9) wf_os_fresh [OF c(2)] by (auto simp: wf_os_def)
  let ?s = "s\<lparr>asked := asked s + 1, fresh := ?p + 1, heap := (heap s)(?p \<mapsto> 4),
      slots := (slots s)(?a := (slots s ?a)(n := ?p)),
      actives := (actives s)(epoch_rec ctx \<mapsto> word_of_nat n + 1),
      threads := (threads s)(t \<mapsto> ctx\<lparr>section_count := word_of_nat n + 1\<rparr>)\<rparr>"
  have "epoch_start t s = Some (0, ?s)"
    using epoch_grow_none [OF ok] c g n p
    by (simp add: epoch_start_def default_mem_alloc_def malloc_def slot_write_def slot_valid_def
        epoch_begin_Some Let_def)
  moreover have "epoch_ok t (n + 1) ?s"
  proof (rule epoch_okI)
    show "wf_os ?s" using wf_os_malloc [OF c(2), of 4] g by (simp add: malloc_def wf_os_def)
    show "distinct (map (slots ?s (section_arr (ctx\<lparr>section_count := word_of_nat n + 1\<rparr>))) [0..<n + 1])"
      using c(8) p(3) by auto
  qed (use c n p in \<open>auto simp: less_Suc_eq\<close>)
  ultimately show ?thesis by (intro exI [of _ ?s]) simp
qed

lemma epoch_start_refused:
  assumes ok: "epoch_ok t n s" and n: "n < 8" and g: "\<not> grant s (asked s)"
  shows "\<exists>s'. epoch_start t s = Some (-1, s') \<and> epoch_ok t n s'"
proof -
  from ok obtain ctx where c: "threads s t = Some ctx" "wf_os s" "n \<le> 8"
    "section_count ctx = word_of_nat n" "buf_size ctx = 8"
    "heap s (section_arr ctx) = Some 64" "actives s (epoch_rec ctx) = Some (word_of_nat n)"
    "distinct (map (slots s (section_arr ctx)) [0..<n])"
    "\<forall>i<n. heap s (slots s (section_arr ctx) i) = Some 4" by (rule epoch_okE)
  let ?s = "console_output ERROR ''Epoch section allocation failed''
      (s\<lparr>asked := asked s + 1, slots := (slots s)(section_arr ctx := (slots s (section_arr ctx))(n := NULL))\<rparr>)"
  have "epoch_start t s = Some (-1, ?s)"
    using epoch_grow_none [OF ok] c g n
    by (simp add: epoch_start_def default_mem_alloc_def malloc_def slot_write_def slot_valid_def)
  moreover have "epoch_ok t n ?s"
    by (rule epoch_okI [of _ _ ctx])
      (use c n in \<open>auto simp: console_output_def fprintf_stderr_def wf_os_def distinct_map inj_on_def\<close>)
  ultimately show ?thesis by blast
qed

text \<open>At the size of the array the check \<open>count > buf_size\<close> does not fire, and the new section is
  stored one element past the end.\<close>

lemma epoch_start_full:
  assumes "epoch_ok t 8 s"
  shows "epoch_start t s = None"
proof -
  from assms obtain ctx where "threads s t = Some ctx" "section_count ctx = 8" "wf_os s"
    "heap s (section_arr ctx) = Some 64" by (auto elim!: epoch_okE)
  moreover from this wf_os_fresh [of s] have "fresh s \<noteq> section_arr ctx" by auto
  ultimately show ?thesis using epoch_grow_none [OF assms]
    by (simp add: epoch_start_def default_mem_alloc_def malloc_def slot_write_def slot_valid_def)
qed

lemma epoch_stop_ok:
  assumes ok: "epoch_ok t (Suc n) s"
  shows "\<exists>s'. epoch_stop t s = Some s' \<and> epoch_ok t n s' \<and> grant s' = grant s"
proof -
  from ok obtain ctx where c: "threads s t = Some ctx" "wf_os s" "Suc n \<le> 8"
    "section_count ctx = word_of_nat (Suc n)" "buf_size ctx = 8"
    "heap s (section_arr ctx) = Some 64" "actives s (epoch_rec ctx) = Some (word_of_nat (Suc n))"
    "distinct (map (slots s (section_arr ctx)) [0..<Suc n])"
    "\<forall>i<Suc n. heap s (slots s (section_arr ctx) i) = Some 4" by (rule epoch_okE)
  let ?a = "section_arr ctx"
  let ?p = "slots s ?a n"
  have w: "(word_of_nat (Suc n) :: u32) - 1 = word_of_nat n" by simp
  have p: "heap s ?p = Some 4" "?p \<noteq> ?a" "?p \<noteq> NULL" "\<forall>i<n. slots s ?a i \<noteq> ?p"
  proof -
    show "heap s ?p = Some 4" using c(9) by simp
    then show "?p \<noteq> ?a" "?p \<noteq> NULL" using c(2,6) by (auto simp: wf_os_def)
    show "\<forall>i<n. slots s ?a i \<noteq> ?p" using c(8) by (auto dest: image_eqI [of "slots s ?a n" "slots s ?a" _ "{0..<n}", OF sym])
  qed
  let ?s = "s\<lparr>threads := (threads s)(t \<mapsto> ctx\<lparr>section_count := word_of_nat n\<rparr>),
      actives := (actives s)(epoch_rec ctx \<mapsto> word_of_nat n), heap := (heap s)(?p := None),
      slots := (slots s)(?a := (slots s ?a)(n := NULL))\<rparr>"
  have "epoch_stop t s = Some ?s"
    using c p unfolding epoch_stop_def w
    by (simp add: slot_read_def slot_valid_def slot_write_def epoch_end_def default_mem_free_def
        free_def domI Let_def)
  moreover have "epoch_ok t n ?s"
  proof (rule epoch_okI)
    show "wf_os ?s" using c(2) by (auto simp: wf_os_def)
    show "distinct (map (slots ?s (section_arr (ctx\<lparr>section_count := word_of_nat n\<rparr>))) [0..<n])"
    proof -
      have "map ((slots s ?a)(n := NULL)) [0..<n] = map (slots s ?a) [0..<n]" by (rule map_cong) auto
      with c(8) show ?thesis by (simp del: fun_upd_apply add: fun_upd_same)
    qed
  qed (use c p in auto)
  ultimately show ?thesis by (intro exI [of _ ?s]) simp
qed

lemma epoch_stop_empty: "epoch_ok t 0 s \<Longrightarrow> epoch_stop t s = None"
  by (elim epoch_okE) (simp add: epoch_stop_def slot_read_def slot_valid_def Let_def)


lemma stop_sections_ok:
  assumes "wf_os s" and "heap s (section_arr ctx) = Some 64" and "i + n \<le> 8"
    and "actives s (epoch_rec ctx) = Some (word_of_nat n)"
    and "inj_on (slots s (section_arr ctx)) {i..<i + n}"
    and "\<forall>j. i \<le> j \<and> j < i + n \<longrightarrow> heap s (slots s (section_arr ctx) j) = Some 4"
  shows "\<exists>s'. stop_sections ctx i n s = Some s' \<and> wf_os s' \<and> threads s' = threads s \<and>
     actives s' (epoch_rec ctx) = Some 0 \<and>
     heap s' = heap s |` (- slots s (section_arr ctx) ` {i..<i + n})"
  using assms
proof (induction n arbitrary: i s)
  case 0
  then show ?case by simp
next
  case (Suc n)
  let ?a = "section_arr ctx"
  let ?p = "slots s ?a i"
  have p: "heap s ?p = Some 4" using Suc.prems(6) by simp
  with Suc.prems(1,2) have p': "?p \<noteq> ?a" "?p \<noteq> NULL" by (auto simp: wf_os_def)
  have w: "(word_of_nat (Suc n) :: u32) - 1 = word_of_nat n" by simp
  have inj: "slots s ?a j \<noteq> ?p" if "i < j" "j < i + Suc n" for j
    using inj_onD [OF Suc.prems(5), of j i] that by auto
  let ?s = "s\<lparr>actives := (actives s)(epoch_rec ctx \<mapsto> word_of_nat n), heap := (heap s)(?p := None),
      slots := (slots s)(?a := (slots s ?a)(i := NULL))\<rparr>"
  have step: "stop_sections ctx i (Suc n) s = stop_sections ctx (i + 1) n ?s"
    using Suc.prems(2,3,4) p p' w
    by (simp add: slot_read_def slot_valid_def slot_write_def epoch_end_def default_mem_free_def
        free_def domI del: of_nat_Suc)
  have "\<exists>s'. stop_sections ctx (i + 1) n ?s = Some s' \<and> wf_os s' \<and> threads s' = threads ?s \<and>
     actives s' (epoch_rec ctx) = Some 0 \<and>
     heap s' = heap ?s |` (- slots ?s ?a ` {i + 1..<i + 1 + n})"
  proof (rule Suc.IH)
    show "inj_on (slots ?s ?a) {i + 1..<i + 1 + n}"
      using Suc.prems(5) by (auto simp: inj_on_def)
  qed (use Suc.prems p p' inj in \<open>auto simp: wf_os_def\<close>)
  then obtain s' where s': "stop_sections ctx (i + 1) n ?s = Some s'" "wf_os s'"
    "threads s' = threads s" "actives s' (epoch_rec ctx) = Some 0"
    "heap s' = heap ?s |` (- slots ?s ?a ` {i + 1..<i + 1 + n})" by auto
  have "slots ?s ?a ` {i + 1..<i + 1 + n} = slots s ?a ` {i + 1..<i + 1 + n}" by (auto simp: image_iff)
  moreover have "{i..<i + Suc n} = insert i {i + 1..<i + 1 + n}" by auto
  ultimately have "heap s' = heap s |` (- slots s ?a ` {i..<i + Suc n})"
    using s'(5) by (auto simp: restrict_map_def fun_eq_iff)
  with step s' show ?case by auto
qed

lemma stop_all_sections_ok:
  assumes ok: "epoch_ok t n s"
  shows "\<exists>s'. stop_all_sections t s = Some s' \<and> epoch_ok t 0 s' \<and>
     (\<forall>ctx. threads s t = Some ctx \<longrightarrow>
        heap s' = heap s |` (- slots s (section_arr ctx) ` {0..<n}))"
proof -
  from ok obtain ctx where c: "threads s t = Some ctx" "wf_os s" "n \<le> 8"
    "section_count ctx = word_of_nat n" "buf_size ctx = 8"
    "heap s (section_arr ctx) = Some 64" "actives s (epoch_rec ctx) = Some (word_of_nat n)"
    "distinct (map (slots s (section_arr ctx)) [0..<n])"
    "\<forall>i<n. heap s (slots s (section_arr ctx) i) = Some 4" by (rule epoch_okE)
  have "\<exists>s'. stop_sections ctx 0 n s = Some s' \<and> wf_os s' \<and> threads s' = threads s \<and>
     actives s' (epoch_rec ctx) = Some 0 \<and>
     heap s' = heap s |` (- slots s (section_arr ctx) ` {0..<0 + n})"
    using c by (intro stop_sections_ok) (auto simp: distinct_map)
  then obtain s' where s': "stop_sections ctx 0 n s = Some s'" "wf_os s'" "threads s' = threads s"
    "actives s' (epoch_rec ctx) = Some 0"
    "heap s' = heap s |` (- slots s (section_arr ctx) ` {0..<n})" by auto
  have "section_arr ctx \<notin> slots s (section_arr ctx) ` {0..<n}" using c(6,9) by force
  then have "heap s' (section_arr ctx) = Some 64" using s'(5) c(6) by (simp add: restrict_map_def)
  then have "epoch_ok t 0 (s'\<lparr>threads := (threads s')(t \<mapsto> ctx\<lparr>section_count := 0\<rparr>)\<rparr>)"
    by (intro epoch_okI [of _ _ "ctx\<lparr>section_count := 0\<rparr>"])
      (use s' c in \<open>auto simp: wf_os_def\<close>)
  with s' c show ?thesis by (simp add: stop_all_sections_def)
qed

lemma init_thread_granted:
  assumes "wf_os s" and "rsize \<noteq> 0" and "\<forall>i<3. grant s (asked s + i)"
  shows "\<exists>t s'. init_thread rsize s = Some (t, s') \<and> t \<noteq> NULL \<and> epoch_ok t 0 s' \<and> grant s' = grant s"
proof -
  have g: "grant s (asked s)" "grant s (Suc (asked s))" "grant s (Suc (Suc (asked s)))"
    using assms(3) by (auto dest: spec [of _ 0] spec [of _ 1] spec [of _ 2] simp: numeral_2_eq_2)
  let ?f = "fresh s"
  let ?s = "s\<lparr>asked := Suc (Suc (Suc (asked s))), fresh := Suc (Suc (Suc ?f)),
      heap := (heap s)(?f \<mapsto> 24, Suc ?f \<mapsto> rsize, Suc (Suc ?f) \<mapsto> 64),
      threads := (threads s)(?f \<mapsto> \<lparr>epoch_rec = Suc ?f, section_arr = Suc (Suc ?f),
                                   section_count = 0, buf_size = 8\<rparr>),
      actives := (actives s)(Suc ?f \<mapsto> 0)\<rparr>"
  have f: "0 < ?f" using assms(1) by (simp add: wf_os_def)
  have "init_thread rsize s = Some (?f, ?s)"
    using f assms(2) g
    by (simp add: init_thread_def default_mem_alloc_def malloc_def epoch_register_def)
  moreover have "wf_os ?s"
    using assms(1) by (auto simp: wf_os_def less_Suc_eq split: if_splits)
  then have "epoch_ok ?f 0 ?s" by (intro epoch_okI) auto
  ultimately show ?thesis using f by (intro exI [of _ ?f] exI [of _ ?s]) simp
qed

text \<open>The third allocation failing: the context is released and then used.\<close>

lemma init_thread_refused3:
  assumes "wf_os s" and "rsize \<noteq> 0" and "grant s (asked s)" and "grant s (asked s + 1)"
    and "\<not> grant s (asked s + 2)"
  shows "init_thread rsize s = None"
proof -
  have "0 < fresh s" using assms(1) by (simp add: wf_os_def)
  with assms(2-) show ?thesis
    by (simp add: init_thread_def default_mem_alloc_def malloc_def default_mem_free_def free_def
        console_output_def fprintf_stderr_def)
qed

section \<open>Nesting as a contract\<close>

text \<open>Sections open and close like brackets up to a maximal depth \<open>cap\<close>; \<open>plenty\<close> states are those
  in which memory does not run out.\<close>

datatype bracket = Open | Close

fun depth_after :: "nat \<Rightarrow> bracket list \<Rightarrow> nat \<Rightarrow> nat option" where
  "depth_after cap [] n = Some n"
| "depth_after cap (Open # bs) n = (if n < cap then depth_after cap bs (n + 1) else None)"
| "depth_after cap (Close # bs) n = (if 0 < n then depth_after cap bs (n - 1) else None)"

fun bracket_run :: "('s \<Rightarrow> (int \<times> 's) option) \<Rightarrow> ('s \<Rightarrow> 's option) \<Rightarrow> bracket list \<Rightarrow> 's \<Rightarrow> 's option" where
  "bracket_run enter leave [] s = Some s"
| "bracket_run enter leave (Open # bs) s =
     do { (r, s) \<leftarrow> enter s; bracket_run enter leave bs s }"
| "bracket_run enter leave (Close # bs) s = do { s \<leftarrow> leave s; bracket_run enter leave bs s }"

locale nesting =
  fixes ok :: "nat \<Rightarrow> 's \<Rightarrow> bool"
    and plenty :: "'s \<Rightarrow> bool"
    and enter :: "'s \<Rightarrow> (int \<times> 's) option"
    and leave :: "'s \<Rightarrow> 's option"
    and cap :: nat
  assumes enter_ok: "ok n s \<Longrightarrow> plenty s \<Longrightarrow> n < cap \<Longrightarrow>
                       \<exists>s'. enter s = Some (0, s') \<and> ok (n + 1) s' \<and> plenty s'"
    and enter_full: "ok cap s \<Longrightarrow> enter s = None"
    and leave_ok: "ok (Suc n) s \<Longrightarrow> plenty s \<Longrightarrow> \<exists>s'. leave s = Some s' \<and> ok n s' \<and> plenty s'"
    and leave_empty: "ok 0 s \<Longrightarrow> leave s = None"
    and ok_cap: "ok n s \<Longrightarrow> n \<le> cap"
begin

lemma run_depth:
  assumes "ok n s" and "plenty s"
  shows "case depth_after cap bs n of
           None \<Rightarrow> bracket_run enter leave bs s = None
         | Some m \<Rightarrow> \<exists>s'. bracket_run enter leave bs s = Some s' \<and> ok m s' \<and> plenty s'"
  using assms
proof (induction bs arbitrary: n s)
  case Nil
  then show ?case by simp
next
  case (Cons b bs)
  show ?case
  proof (cases b)
    case Open
    show ?thesis
    proof (cases "n < cap")
      case True
      from enter_ok [OF Cons.prems True] obtain s' where
        "enter s = Some (0, s')" "ok (n + 1) s'" "plenty s'" by blast
      with Cons.IH [of "n + 1" s'] Open True show ?thesis by (simp split: option.splits)
    next
      case False
      with ok_cap [OF Cons.prems(1)] Cons.prems(1) have "enter s = None" by (auto intro: enter_full)
      with False Open show ?thesis by simp
    qed
  next
    case Close
    show ?thesis
    proof (cases n)
      case 0
      with Cons.prems Close show ?thesis by (simp add: leave_empty)
    next
      case (Suc m)
      with leave_ok [of m s] Cons.prems obtain s' where
        "leave s = Some s'" "ok m s'" "plenty s'" by blast
      with Cons.IH [of m s'] Suc Close show ?thesis by (simp split: option.splits)
    qed
  qed
qed

end

definition plenty :: "'z os_scheme \<Rightarrow> bool" where
  "plenty s \<longleftrightarrow> (\<forall>i. grant s i)"

interpretation ep: nesting "epoch_ok t" plenty "epoch_start t" "epoch_stop t" 8 for t
proof
  show "epoch_ok t n s \<Longrightarrow> plenty s \<Longrightarrow> n < 8 \<Longrightarrow>
      \<exists>s'. epoch_start t s = Some (0, s') \<and> epoch_ok t (n + 1) s' \<and> plenty s'" for n s
    using epoch_start_granted [of t n s] by (auto simp: plenty_def)
  show "epoch_ok t 8 s \<Longrightarrow> epoch_start t s = None" for s by (rule epoch_start_full)
  show "epoch_ok t (Suc n) s \<Longrightarrow> plenty s \<Longrightarrow>
      \<exists>s'. epoch_stop t s = Some s' \<and> epoch_ok t n s' \<and> plenty s'" for n s
    using epoch_stop_ok [of t n s] by (auto simp: plenty_def)
  show "epoch_ok t 0 s \<Longrightarrow> epoch_stop t s = None" for s by (rule epoch_stop_empty)
  show "epoch_ok t n s \<Longrightarrow> n \<le> 8" for n s by (auto simp: epoch_ok_def)
qed

section \<open>Properties\<close>

text \<open>C2. A thread that starts from \<open>init_thread\<close> and opens and closes sections returns from all its
  calls, with as many sections open and the nesting counter of its epoch record as high as the
  sequence says, exactly when the sequence never closes more than it opened and never has more than
  eight sections open. The ninth nested \<open>epoch_start\<close> writes past the section array, since the check
  \<open>count > buf_size\<close> lets \<open>count = buf_size\<close> pass, and an unmatched \<open>epoch_stop\<close> reads before it.\<close>

theorem epoch_nesting:
  assumes "wf_os s" and "rsize \<noteq> 0" and "\<forall>i. grant s i"
  shows "\<exists>t s'. init_thread rsize s = Some (t, s') \<and> t \<noteq> NULL \<and>
     (case depth_after 8 ops 0 of
        None \<Rightarrow> bracket_run (epoch_start t) (epoch_stop t) ops s' = None
      | Some n \<Rightarrow> \<exists>s''. bracket_run (epoch_start t) (epoch_stop t) ops s' = Some s'' \<and> epoch_ok t n s'')"
proof -
  from init_thread_granted [OF assms(1,2)] assms(3) obtain t s' where
    "init_thread rsize s = Some (t, s')" "t \<noteq> NULL" "epoch_ok t 0 s'" "plenty s'"
    by (auto simp: plenty_def)
  with ep.run_depth [of t 0 s' ops] show ?thesis
    by (intro exI [of _ t] exI [of _ s']) (auto split: option.splits)
qed

definition epoch0 :: epoch where
  "epoch0 = \<lparr>grant = (\<lambda>_. True), asked = 0, fresh = 1, heap = Map.empty, regions = Map.empty,
             bytes = (\<lambda>_ _. 0), console = [], verbose = 0, answer = (\<lambda>_ _ _. (0, 0)), noise = (\<lambda>_ _. 0), trace = [],
             nexts = Map.empty, bptrs = Map.empty, pools = Map.empty,
             threads = Map.empty, actives = Map.empty, slots = (\<lambda>_ _. 0)\<rparr>"

theorem epoch_nesting_witness:
  "\<exists>t s'. init_thread 64 epoch0 = Some (t, s') \<and>
     (\<exists>s''. bracket_run (epoch_start t) (epoch_stop t) [Open, Open, Close] s' = Some s'' \<and> epoch_ok t 1 s'') \<and>
     bracket_run (epoch_start t) (epoch_stop t) (replicate 9 Open) s' = None"
proof -
  have wf: "wf_os epoch0" "\<forall>i. grant epoch0 i" by (simp_all add: epoch0_def wf_os_def)
  have d: "depth_after 8 [Open, Open, Close] 0 = Some 1" "depth_after 8 (replicate 9 Open) 0 = None"
    by (simp_all add: numeral_eq_Suc)
  from epoch_nesting [OF wf(1) _ wf(2), of 64 "[Open, Open, Close]"]
    epoch_nesting [OF wf(1) _ wf(2), of 64 "replicate 9 Open"] d show ?thesis by auto
qed

text \<open>\<open>stop_all_sections\<close> always returns; it closes every open section, releases exactly their
  blocks and leaves the context ready for use with the nesting counter at zero.\<close>

lemma stop_all_closes:
  assumes "epoch_ok t n s"
  shows "\<exists>s'. stop_all_sections t s = Some s' \<and> epoch_ok t 0 s' \<and>
     (\<forall>ctx. threads s t = Some ctx \<longrightarrow>
        heap s' = heap s |` (- slots s (section_arr ctx) ` {0..<n}))"
  using assms by (rule stop_all_sections_ok)

text \<open>When the system refuses only the third of the three allocations of \<open>init_thread\<close>, its
  error path releases the context, which sets the pointer to \<open>NULL\<close>, and then reads the record
  through it: the call does not return.\<close>

lemma init_thread_error_path:
  assumes "wf_os s" and "rsize \<noteq> 0" and "grant s (asked s)" and "grant s (asked s + 1)"
    and "\<not> grant s (asked s + 2)"
  shows "init_thread rsize s = None"
  using assms by (rule init_thread_refused3)

end
