(* ===== verification/Ck_Epoch.thy ===== *)
theory Ck_Epoch
  imports Epoch
begin

text \<open>
  Epoch records of the concurrency kit, \<^verbatim>\<open>src/deps/ck-0.5.2/src/ck_epoch.c\<close> and
  \<^verbatim>\<open>include/ck_epoch.h\<close>, which \<^verbatim>\<open>src/src/concurrent/epoch.h\<close> renames. There is one
  \<open>struct ck_epoch\<close>, to which the field \<open>global\<close> of every record points. The stacks (of records, and of deferred entries
  in a record) are lists, head first. A call through the function pointer of an entry is recorded in \<open>calls\<close>; callbacks do not
  touch the records. \<open>ck_epoch_synchronize\<close> waits for the other threads: \<open>env n\<close> is what they do between its accesses. The
  operations refine the counter that \<^verbatim>\<open>Epoch\<close> keeps of a record.
\<close>

unbundle bit_operations_syntax

section \<open>Data\<close>

record ck_epoch_ref =
  ref_epoch :: u32
  ref_count :: u32

record ck_epoch_record =
  rec_state :: u32
  rec_epoch :: u32
  rec_active :: u32
  bucket :: "ck_epoch_ref list"
  n_pending :: u32
  n_peak :: u32
  n_dispatch :: u64
  pending :: "ptr list list"

record ck_epoch =
  g_epoch :: u32
  g_records :: "ptr list"
  n_free :: u32

text \<open>The memory: the epoch, its records, the bucket of each section, the function of each entry, and the calls made.\<close>

record ck = ck_epoch +
  recs :: "ptr \<rightharpoonup> ck_epoch_record"
  sects :: "ptr \<rightharpoonup> u32"
  entry_fun :: "ptr \<rightharpoonup> ptr"
  calls :: "(ptr \<times> ptr) list"

definition CK_EPOCH_STATE_USED :: u32 where "CK_EPOCH_STATE_USED = 0"
definition CK_EPOCH_STATE_FREE :: u32 where "CK_EPOCH_STATE_FREE = 1"
definition CK_EPOCH_SENSE :: nat where "CK_EPOCH_SENSE = 2"
definition CK_EPOCH_LENGTH :: nat where "CK_EPOCH_LENGTH = 4"

lemmas ck_constants [simp] = CK_EPOCH_STATE_USED_def CK_EPOCH_STATE_FREE_def CK_EPOCH_SENSE_def CK_EPOCH_LENGTH_def

section \<open>Operations\<close>

definition ck_epoch_delref :: "ptr \<Rightarrow> ptr \<Rightarrow> ck \<Rightarrow> ck option" where
  "ck_epoch_delref record section s =
     do { r \<leftarrow> recs s record;
          i \<leftarrow> sects s section;
          if unat i < CK_EPOCH_SENSE then do {
            let current = (bucket r ! unat i)\<lparr>ref_count := ref_count (bucket r ! unat i) - 1\<rparr>;
            let r = r\<lparr>bucket := (bucket r)[unat i := current]\<rparr>;
            let s = s\<lparr>recs := (recs s)(record \<mapsto> r)\<rparr>;
            if ref_count current > 0 then Some s
            else do {
              let other = bucket r ! unat ((i + 1) AND 1);
              if ref_count other > 0 \<and> sint (ref_epoch current - ref_epoch other) < 0
              then Some (s\<lparr>recs := (recs s)(record \<mapsto> r\<lparr>rec_epoch := ref_epoch other\<rparr>)\<rparr>)
              else Some s } }
          else None }"

text \<open>The fence for machines without total store order has no effect in a sequentially consistent memory.\<close>

definition ck_epoch_addref :: "ptr \<Rightarrow> ptr \<Rightarrow> ck \<Rightarrow> ck option" where
  "ck_epoch_addref record section s =
     do { r \<leftarrow> recs s record;
          _ \<leftarrow> sects s section;
          let epoch = g_epoch s;
          let i = epoch AND 1;
          let ref = bucket r ! unat i;
          let ref' = ref\<lparr>ref_count := ref_count ref + 1\<rparr>;
          let ref' = (if ref_count ref = 0 then ref'\<lparr>ref_epoch := epoch\<rparr> else ref');
          Some (s\<lparr>recs := (recs s)(record \<mapsto> r\<lparr>bucket := (bucket r)[unat i := ref']\<rparr>),
                  sects := (sects s)(section \<mapsto> i)\<rparr>) }"

definition ck_epoch_init :: "ck \<Rightarrow> ck" where
  "ck_epoch_init s = s\<lparr>g_records := [], g_epoch := 1, n_free := 0\<rparr>"

text \<open>The search of \<open>ck_epoch_recycle\<close> along the records: the first free one is taken.\<close>

fun recycle_from :: "ptr list \<Rightarrow> ck \<Rightarrow> (ptr \<times> ck) option" where
  "recycle_from [] s = Some (NULL, s)"
| "recycle_from (record # cursor) s =
     do { r \<leftarrow> recs s record;
          if rec_state r = CK_EPOCH_STATE_FREE
          then Some (record, s\<lparr>recs := (recs s)(record \<mapsto> r\<lparr>rec_state := CK_EPOCH_STATE_USED\<rparr>), n_free := n_free s - 1\<rparr>)
          else recycle_from cursor s }"

definition ck_epoch_recycle :: "ck \<Rightarrow> (ptr \<times> ck) option" where
  "ck_epoch_recycle s = (if n_free s = 0 then Some (NULL, s) else recycle_from (g_records s) s)"

text \<open>The fields that \<open>ck_epoch_register\<close> and \<open>ck_epoch_unregister\<close> reset; \<open>memset\<close> clears the buckets.\<close>

definition reset_record :: "u32 \<Rightarrow> ck_epoch_record" where
  "reset_record st = \<lparr>rec_state = st, rec_epoch = 0, rec_active = 0,
     bucket = replicate CK_EPOCH_SENSE \<lparr>ref_epoch = 0, ref_count = 0\<rparr>,
     n_pending = 0, n_peak = 0, n_dispatch = 0, pending = replicate CK_EPOCH_LENGTH []\<rparr>"

definition ck_epoch_register :: "ptr \<Rightarrow> ck \<Rightarrow> ck" where
  "ck_epoch_register record s =
     s\<lparr>recs := (recs s)(record \<mapsto> reset_record CK_EPOCH_STATE_USED), g_records := record # g_records s\<rparr>"

definition ck_epoch_unregister :: "ptr \<Rightarrow> ck \<Rightarrow> ck option" where
  "ck_epoch_unregister record s =
     do { r \<leftarrow> recs s record;
          Some (s\<lparr>recs := (recs s)(record \<mapsto> reset_record CK_EPOCH_STATE_FREE), n_free := n_free s + 1\<rparr>) }"

text \<open>The loop of \<open>ck_epoch_scan\<close>: the first record in use that is active in another epoch (or \<open>NULL\<close>), and whether an
  active one was seen.\<close>

fun scan_from :: "ptr list \<Rightarrow> u32 \<Rightarrow> bool \<Rightarrow> ck \<Rightarrow> (ptr \<times> bool) option" where
  "scan_from [] epoch af s = Some (NULL, af)"
| "scan_from (cr # cursor) epoch af s =
     do { r \<leftarrow> recs s cr;
          if rec_state r AND CK_EPOCH_STATE_FREE \<noteq> 0 then scan_from cursor epoch af s
          else if rec_active r \<noteq> 0 \<and> rec_epoch r \<noteq> epoch then Some (cr, af \<or> rec_active r \<noteq> 0)
          else scan_from cursor epoch (af \<or> rec_active r \<noteq> 0) s }"

definition ck_epoch_scan :: "ptr \<Rightarrow> u32 \<Rightarrow> ck \<Rightarrow> (ptr \<times> bool) option" where
  "ck_epoch_scan cr epoch s =
     scan_from (if cr = NULL then g_records s else dropWhile (\<lambda>r. r \<noteq> cr) (g_records s)) epoch False s"

fun run_entries :: "ptr list \<Rightarrow> ck \<Rightarrow> ck option" where
  "run_entries [] s = Some s"
| "run_entries (entry # cursor) s =
     do { f \<leftarrow> entry_fun s entry; run_entries cursor (s\<lparr>calls := calls s @ [(f, entry)]\<rparr>) }"

definition ck_epoch_dispatch :: "ptr \<Rightarrow> u32 \<Rightarrow> ck \<Rightarrow> ck option" where
  "ck_epoch_dispatch record e s =
     do { r \<leftarrow> recs s record;
          let epoch = unat (e AND 3);
          let head = pending r ! epoch;
          s \<leftarrow> run_entries head (s\<lparr>recs := (recs s)(record \<mapsto> r\<lparr>pending := (pending r)[epoch := []]\<rparr>)\<rparr>);
          r \<leftarrow> recs s record;
          let r = (if n_pending r > n_peak r then r\<lparr>n_peak := n_pending r\<rparr> else r);
          Some (s\<lparr>recs := (recs s)(record \<mapsto> r\<lparr>n_dispatch := n_dispatch r + ucast (word_of_nat (length head) :: u32),
                    n_pending := n_pending r - word_of_nat (length head)\<rparr>)\<rparr>) }"

fun reclaim_from :: "ptr \<Rightarrow> nat \<Rightarrow> nat \<Rightarrow> ck \<Rightarrow> ck option" where
  "reclaim_from record epoch 0 s = Some s"
| "reclaim_from record epoch (Suc n) s =
     do { s \<leftarrow> ck_epoch_dispatch record (word_of_nat epoch) s; reclaim_from record (epoch + 1) n s }"

definition ck_epoch_reclaim :: "ptr \<Rightarrow> ck \<Rightarrow> ck option" where
  "ck_epoch_reclaim record s = reclaim_from record 0 CK_EPOCH_LENGTH s"

text \<open>\<open>ck_epoch_poll\<close> after the scan: \<open>epoch\<close> is the epoch that was loaded, \<open>cr\<close> and \<open>active\<close> the result of the scan.\<close>

definition poll_rest :: "ptr \<Rightarrow> u32 \<Rightarrow> ptr \<Rightarrow> bool \<Rightarrow> ck \<Rightarrow> (bool \<times> ck) option" where
  "poll_rest record epoch cr active s =
     do { r \<leftarrow> recs s record;
          if cr \<noteq> NULL then Some (False, s\<lparr>recs := (recs s)(record \<mapsto> r\<lparr>rec_epoch := epoch\<rparr>)\<rparr>)
          else if \<not> active then do {
            s \<leftarrow> ck_epoch_reclaim record (s\<lparr>recs := (recs s)(record \<mapsto> r\<lparr>rec_epoch := epoch\<rparr>)\<rparr>);
            Some (True, s) }
          else do {
            let s = (if g_epoch s = epoch
                     then s\<lparr>g_epoch := epoch + 1, recs := (recs s)(record \<mapsto> r\<lparr>rec_epoch := epoch + 1\<rparr>)\<rparr>
                     else s\<lparr>recs := (recs s)(record \<mapsto> r\<lparr>rec_epoch := g_epoch s\<rparr>)\<rparr>);
            s \<leftarrow> ck_epoch_dispatch record (epoch + 1) s;
            Some (True, s) } }"

definition ck_epoch_poll :: "ptr \<Rightarrow> ck \<Rightarrow> (bool \<times> ck) option" where
  "ck_epoch_poll record s =
     do { let epoch = g_epoch s;
          (cr, active) \<leftarrow> ck_epoch_scan NULL epoch s;
          poll_rest record epoch cr active s }"

text \<open>The inner loop of \<open>ck_epoch_synchronize\<close>: either the global epoch has changed to the value in \<open>Inl\<close>, or the scan
  has come to its end (\<open>Inr active\<close>). A scan goes on from the record at which the one before has stopped.\<close>

partial_function (option) sync_wait ::
    "(nat \<Rightarrow> ck \<Rightarrow> ck) \<Rightarrow> nat \<Rightarrow> ptr \<Rightarrow> u32 \<Rightarrow> ck \<Rightarrow> ((u32 + bool) \<times> nat \<times> ck) option" where
  "sync_wait env n cr delta s =
     do { (cr, active) \<leftarrow> ck_epoch_scan cr delta s;
          let s = env n s;
          if cr = NULL then Some (Inr active, n + 1, s)
          else if g_epoch s \<noteq> delta then Some (Inl (g_epoch s), n + 1, s)
          else sync_wait env (n + 1) cr delta s }"

text \<open>The outer loop, with the number of rounds that are left; the result is \<open>delta\<close>.\<close>

fun sync_rounds :: "(nat \<Rightarrow> ck \<Rightarrow> ck) \<Rightarrow> nat \<Rightarrow> u32 \<Rightarrow> u32 \<Rightarrow> u32 \<Rightarrow> nat \<Rightarrow> ck \<Rightarrow> (u32 \<times> nat \<times> ck) option" where
  "sync_rounds env n epoch goal delta 0 s = Some (delta, n, s)"
| "sync_rounds env n epoch goal delta (Suc k) s =
     do { (out, n, s) \<leftarrow> sync_wait env n NULL delta s;
          case out of
            Inl e_d \<Rightarrow> if goal > epoch \<and> e_d \<ge> goal then Some (e_d, n, s) else sync_rounds env n epoch goal e_d k s
          | Inr active \<Rightarrow>
              if \<not> active then Some (delta, n, s)
              else if g_epoch s = delta then sync_rounds env n epoch goal (delta + 1) k (s\<lparr>g_epoch := delta + 1\<rparr>)
              else sync_rounds env n epoch goal (g_epoch s) k s }"

definition CK_EPOCH_GRACE :: u32 where "CK_EPOCH_GRACE = 3"

definition ck_epoch_synchronize :: "(nat \<Rightarrow> ck \<Rightarrow> ck) \<Rightarrow> ptr \<Rightarrow> ck \<Rightarrow> (nat \<times> ck) option" where
  "ck_epoch_synchronize env record s =
     do { let epoch = g_epoch s;
          (delta, n, s) \<leftarrow> sync_rounds env 0 epoch (epoch + CK_EPOCH_GRACE) epoch (unat (CK_EPOCH_GRACE - 1)) s;
          r \<leftarrow> recs s record;
          Some (n, s\<lparr>recs := (recs s)(record \<mapsto> r\<lparr>rec_epoch := delta\<rparr>)\<rparr>) }"

definition ck_epoch_barrier :: "(nat \<Rightarrow> ck \<Rightarrow> ck) \<Rightarrow> ptr \<Rightarrow> ck \<Rightarrow> ck option" where
  "ck_epoch_barrier env record s = do { (n, s) \<leftarrow> ck_epoch_synchronize env record s; ck_epoch_reclaim record s }"

definition ck_epoch_begin :: "ptr \<Rightarrow> ptr \<Rightarrow> ck \<Rightarrow> ck option" where
  "ck_epoch_begin record section s =
     do { r \<leftarrow> recs s record;
          let r = (if rec_active r = 0 then r\<lparr>rec_active := 1, rec_epoch := g_epoch s\<rparr>
                   else r\<lparr>rec_active := rec_active r + 1\<rparr>);
          let s = s\<lparr>recs := (recs s)(record \<mapsto> r)\<rparr>;
          if section \<noteq> NULL then ck_epoch_addref record section s else Some s }"

definition ck_epoch_end :: "ptr \<Rightarrow> ptr \<Rightarrow> ck \<Rightarrow> ck option" where
  "ck_epoch_end record section s =
     do { r \<leftarrow> recs s record;
          let s = s\<lparr>recs := (recs s)(record \<mapsto> r\<lparr>rec_active := rec_active r - 1\<rparr>)\<rparr>;
          if section \<noteq> NULL then ck_epoch_delref record section s else Some s }"

definition ck_epoch_call :: "ptr \<Rightarrow> ptr \<Rightarrow> ptr \<Rightarrow> ck \<Rightarrow> ck option" where
  "ck_epoch_call record entry func s =
     do { r \<leftarrow> recs s record;
          let offset = unat (g_epoch s AND 3);
          Some (s\<lparr>recs := (recs s)(record \<mapsto> r\<lparr>n_pending := n_pending r + 1,
                    pending := (pending r)[offset := entry # (pending r ! offset)]\<rparr>),
                  entry_fun := (entry_fun s)(entry \<mapsto> func)\<rparr>) }"

section \<open>The nesting counter\<close>

text \<open>The counter of open sections is what the contexts of \<^verbatim>\<open>Epoch\<close> keep of a record: its operations on that counter are what
  these operations do to it.\<close>

definition ck_actives :: "ck \<Rightarrow> ptr \<rightharpoonup> u32" where
  "ck_actives s p = map_option rec_active (recs s p)"

text \<open>What begin and end make of a record.\<close>

definition begin_rec :: "u32 \<Rightarrow> ck_epoch_record \<Rightarrow> ck_epoch_record" where
  "begin_rec g r =
     (let r = (if rec_active r = 0 then r\<lparr>rec_active := 1, rec_epoch := g\<rparr> else r\<lparr>rec_active := rec_active r + 1\<rparr>);
          ref = bucket r ! unat (g AND 1) in
      r\<lparr>bucket := (bucket r)[unat (g AND 1) :=
        (if ref_count ref = 0 then ref\<lparr>ref_count := ref_count ref + 1, ref_epoch := g\<rparr>
         else ref\<lparr>ref_count := ref_count ref + 1\<rparr>)]\<rparr>)"

definition end_rec :: "nat \<Rightarrow> ck_epoch_record \<Rightarrow> ck_epoch_record" where
  "end_rec i r =
     (let cur = (bucket r ! i)\<lparr>ref_count := ref_count (bucket r ! i) - 1\<rparr>;
          r = r\<lparr>rec_active := rec_active r - 1, bucket := (bucket r)[i := cur]\<rparr>;
          other = bucket r ! (1 - i) in
      if ref_count cur = 0 \<and> ref_count other > 0 \<and> sint (ref_epoch cur - ref_epoch other) < 0
      then r\<lparr>rec_epoch := ref_epoch other\<rparr> else r)"

lemma ck_epoch_begin_eq:
  assumes "recs s p = Some r" and "sects s x = Some v" and "x \<noteq> NULL"
  shows "ck_epoch_begin p x s =
    Some (s\<lparr>recs := (recs s)(p \<mapsto> begin_rec (g_epoch s) r), sects := (sects s)(x \<mapsto> g_epoch s AND 1)\<rparr>)"
  using assms by (simp add: ck_epoch_begin_def ck_epoch_addref_def begin_rec_def Let_def)

lemma other_index: "unat (i :: u32) < 2 \<Longrightarrow> unat ((i + 1) AND 1) = 1 - unat i"
proof -
  assume "unat i < 2"
  then have "i = 0 \<or> i = 1" by (auto simp: word_unat_eq_iff)
  then show ?thesis by auto
qed

lemma ck_epoch_end_eq:
  assumes "recs s p = Some r" and "sects s x = Some i" and "x \<noteq> NULL" and "unat i < 2"
  shows "ck_epoch_end p x s = Some (s\<lparr>recs := (recs s)(p \<mapsto> end_rec (unat i) r)\<rparr>)"
  using assms by (simp add: ck_epoch_end_def ck_epoch_delref_def end_rec_def Let_def other_index word_gt_0)

lemma begin_rec_active: "rec_active (begin_rec g r) = (if rec_active r = 0 then 1 else rec_active r + 1)"
  by (simp add: begin_rec_def Let_def)

lemma end_rec_active: "rec_active (end_rec i r) = rec_active r - 1"
  by (simp add: end_rec_def Let_def)

lemma ck_register_refines:
  fixes t :: "'z epoch_scheme"
  assumes "actives t = ck_actives s"
  shows "actives (Epoch.epoch_register p t) = ck_actives (ck_epoch_register p s)"
  using assms by (auto simp: epoch_register_def ck_epoch_register_def ck_actives_def reset_record_def)

lemma ck_begin_refines:
  fixes t :: "'z epoch_scheme"
  assumes "actives t = ck_actives s" and "ck_epoch_begin p x s = Some s'" and "x \<noteq> NULL"
  shows "\<exists>t'. epoch_begin p t = Some t' \<and> actives t' = ck_actives s'"
proof -
  from assms(2,3) obtain r v where r: "recs s p = Some r" "sects s x = Some v"
    by (auto simp: ck_epoch_begin_def ck_epoch_addref_def Let_def elim!: bind_SomeE)
  with assms show ?thesis
    by (auto simp: epoch_begin_def ck_actives_def ck_epoch_begin_eq begin_rec_active)
qed

lemma ck_end_refines:
  fixes t :: "'z epoch_scheme"
  assumes "actives t = ck_actives s" and "ck_epoch_end p x s = Some s'" and "x \<noteq> NULL"
  shows "\<exists>t'. epoch_end p t = Some t' \<and> actives t' = ck_actives s'"
proof -
  from assms(2,3) obtain r i where r: "recs s p = Some r" "sects s x = Some i" "unat i < 2"
    by (cases "recs s p"; cases "sects s x")
      (auto simp: ck_epoch_end_def ck_epoch_delref_def Let_def split: if_splits)
  with assms show ?thesis
    by (auto simp: epoch_end_def ck_actives_def ck_epoch_end_eq end_rec_active)
qed

section \<open>A record that is freed\<close>

text \<open>\<open>clean_thread\<close> of \<^verbatim>\<open>src/src/concurrent/epoch.c\<close> unregisters the record and then frees it. It stays on the stack of the records,
  so that no scan comes to its end any more, and the epoch can never advance.\<close>

lemma freed_record_blocks:
  assumes "p \<in> set ps" and "recs s p = None" and "NULL \<notin> set ps"
  shows "scan_from ps epoch af s \<noteq> Some (NULL, a)"
  using assms by (induction ps arbitrary: af) (auto elim!: bind_SomeE split: if_splits)

lemma clean_record_dangles:
  assumes "p \<in> set (g_records s)" and "NULL \<notin> set (g_records s)" and "ck_epoch_unregister p s = Some s'"
  shows "ck_epoch_scan NULL epoch (s'\<lparr>recs := (recs s')(p := None)\<rparr>) \<noteq> Some (NULL, a)"
proof -
  have "g_records s' = g_records s" using assms(3) by (auto simp: ck_epoch_unregister_def elim!: bind_SomeE)
  then show ?thesis using freed_record_blocks [of p "g_records s"] assms(1,2) by (simp add: ck_epoch_scan_def)
qed

section \<open>A barrier that does not wait\<close>

text \<open>A scan that is continued has forgotten the active records before the one where it goes on: \<open>*af\<close> starts as \<open>false\<close> again.
  Records 5 and 6 are in the order of the scan. Record 6 has a section of the first epoch, record 5 one of the second, and then
  record 9 defers the entry 7 and makes a barrier. While it waits, record 6 ends its section. The barrier then runs the
  callback, and the section of record 5, which was open when the entry was deferred, still is.\<close>

definition misses_run :: "((ptr \<times> ptr) list \<times> u32) option" where
  "misses_run =
     do { let s = ck_epoch_init \<lparr>g_epoch = 0, g_records = [], n_free = 0, recs = Map.empty, sects = [1 \<mapsto> 0, 2 \<mapsto> 0],
                    entry_fun = Map.empty, calls = []\<rparr>;
          let s = ck_epoch_register 5 (ck_epoch_register 6 (ck_epoch_register 9 s));
          s \<leftarrow> ck_epoch_begin 6 2 s;
          (b, s) \<leftarrow> ck_epoch_poll 9 s;
          s \<leftarrow> ck_epoch_begin 5 1 s;
          s \<leftarrow> ck_epoch_call 9 7 8 s;
          s \<leftarrow> ck_epoch_barrier (\<lambda>n s. if n = 0 then case ck_epoch_end 6 2 s of None \<Rightarrow> s | Some s' \<Rightarrow> s' else s) 9 s;
          r \<leftarrow> recs s 5;
          Some (calls s, rec_active r) }"

declare sync_wait.simps [code]

lemma barrier_misses_section: "misses_run = Some ([(8, 7)], 1)"
  by code_simp

end
