(* ===== verification/Ck_Grace.thy ===== *)
theory Ck_Grace
  imports Ck_Epoch
begin

text \<open>
  Several threads that use the epoch records of \<^verbatim>\<open>Ck_Epoch\<close>. Their calls interleave (\<open>ck_step\<close>), a poll in two
  parts: the scan, and what follows it. The invariant shows what the algorithm is for: a deferred callback runs only when every
  section has ended that was open when it was deferred, with the epoch counter wrapping around.
\<close>

unbundle bit_operations_syntax

section \<open>Interleaved calls\<close>

text \<open>What is only there to state the property: the number of the epoch without wrap-around; for each open section its
  record and the epoch it began in; for each deferred entry the epoch of its call and the sections that were open then and still
  are. \<open>polling\<close> holds the local variables of \<open>ck_epoch_poll\<close> in the threads that are between its scan and its rest; the
  variable \<open>epoch\<close> is the machine word of the number held there.\<close>

record ghost =
  time :: nat
  births :: "ptr \<rightharpoonup> ptr \<times> nat"
  due :: "ptr \<Rightarrow> nat \<times> ptr set"
  polling :: "ptr \<rightharpoonup> nat \<times> ptr \<times> bool"

definition opens :: "(ptr \<rightharpoonup> ptr \<times> nat) \<Rightarrow> ptr \<Rightarrow> (nat \<Rightarrow> bool) \<Rightarrow> ptr set" where
  "opens G p P = {x. \<exists>k. G x = Some (p, k) \<and> P k}"

definition in_use :: "ptr \<Rightarrow> ck \<Rightarrow> bool" where
  "in_use p s \<longleftrightarrow> p \<in> set (g_records s) \<and> (\<exists>r. recs s p = Some r \<and> rec_state r = 0)"

definition is_pending :: "ptr \<Rightarrow> ptr \<Rightarrow> ck \<Rightarrow> bool" where
  "is_pending p e s \<longleftrightarrow> (\<exists>r. recs s p = Some r \<and> (\<exists>l \<in> set (pending r). e \<in> set l))"

text \<open>The steps are calls, with what the library asks of its callers: a record is registered once, used by one thread, and
  given back without open sections; a section and an entry are used for one thing at a time; sections end in their record.
  A poll is not made in a section, and takes less than \<open>2 ^ 32\<close> epochs.\<close>

inductive ck_step :: "ck \<times> ghost \<Rightarrow> ck \<times> ghost \<Rightarrow> bool" where
  register: "p \<noteq> NULL \<Longrightarrow> p \<notin> set (g_records s) \<Longrightarrow> ck_step (s, g) (ck_epoch_register p s, g)"
| unregister: "in_use p s \<Longrightarrow> opens (births g) p (\<lambda>_. True) = {} \<Longrightarrow> polling g p = None \<Longrightarrow>
    ck_epoch_unregister p s = Some s' \<Longrightarrow> ck_step (s, g) (s', g)"
| recycle: "ck_epoch_recycle s = Some (p, s') \<Longrightarrow> ck_step (s, g) (s', g)"
| sect_memory: "births g x = None \<Longrightarrow> ck_step (s, g) (s\<lparr>sects := (sects s)(x := v)\<rparr>, g)"
| sect_begin: "in_use p s \<Longrightarrow> polling g p = None \<Longrightarrow> x \<noteq> NULL \<Longrightarrow> births g x = None \<Longrightarrow>
    card (opens (births g) p (\<lambda>_. True)) + 1 < 2 ^ 32 \<Longrightarrow> ck_epoch_begin p x s = Some s' \<Longrightarrow>
    ck_step (s, g) (s', g\<lparr>births := (births g)(x \<mapsto> (p, time g))\<rparr>)"
| sect_end: "births g x = Some (p, k) \<Longrightarrow> ck_epoch_end p x s = Some s' \<Longrightarrow>
    ck_step (s, g) (s', g\<lparr>births := (births g)(x := None), due := (\<lambda>e. (fst (due g e), snd (due g e) - {x}))\<rparr>)"
| defer_call: "in_use p s \<Longrightarrow> polling g p = None \<Longrightarrow> \<forall>q \<in> set (g_records s). \<not> is_pending q e s \<Longrightarrow>
    ck_epoch_call p e f s = Some s' \<Longrightarrow> ck_step (s, g) (s', g\<lparr>due := (due g)(e := (time g, dom (births g)))\<rparr>)"
| poll_scan: "in_use p s \<Longrightarrow> polling g p = None \<Longrightarrow> opens (births g) p (\<lambda>_. True) = {} \<Longrightarrow>
    ck_epoch_scan NULL (g_epoch s) s = Some (cr, a) \<Longrightarrow>
    ck_step (s, g) (s, g\<lparr>polling := (polling g)(p \<mapsto> (time g, cr, a))\<rparr>)"
| poll_end: "polling g p = Some (e, cr, a) \<Longrightarrow> time g < e + 2 ^ 32 \<Longrightarrow>
    poll_rest p (word_of_nat e) cr a s = Some (b, s') \<Longrightarrow>
    ck_step (s, g) (s', g\<lparr>polling := (polling g)(p := None),
      time := (if g_epoch s' = g_epoch s then time g else time g + 1)\<rparr>)"

definition ghost0 :: ghost where
  "ghost0 = \<lparr>time = 1, births = Map.empty, due = (\<lambda>_. (0, {})), polling = Map.empty\<rparr>"

inductive ck_reach :: "ck \<times> ghost \<Rightarrow> bool" where
  ck_start: "ck_reach (ck_epoch_init s, ghost0)"
| ck_next: "ck_reach st \<Longrightarrow> ck_step st st' \<Longrightarrow> ck_reach st'"

section \<open>The invariant\<close>

text \<open>A record: its counters count its open sections, its buckets hold the epochs of theirs, and its epoch is the oldest.\<close>

definition rec_ok :: "(ptr \<rightharpoonup> ptr \<times> nat) \<Rightarrow> ptr \<Rightarrow> ck_epoch_record \<Rightarrow> bool" where
  "rec_ok G p r \<longleftrightarrow> length (bucket r) = 2 \<and> length (pending r) = 4 \<and>
     rec_state r \<in> {0, 1} \<and> (rec_state r = 1 \<longrightarrow> opens G p (\<lambda>_. True) = {}) \<and>
     unat (rec_active r) = card (opens G p (\<lambda>_. True)) \<and>
     (\<forall>b<2. unat (ref_count (bucket r ! b)) = card (opens G p (\<lambda>k. k mod 2 = b))) \<and>
     (\<forall>x k. G x = Some (p, k) \<longrightarrow> ref_epoch (bucket r ! (k mod 2)) = word_of_nat k \<and>
        (\<exists>y k'. G y = Some (p, k') \<and> k' \<le> k \<and> rec_epoch r = word_of_nat k'))"

definition births_ok :: "ck \<Rightarrow> ghost \<Rightarrow> bool" where
  "births_ok s g \<longleftrightarrow> finite (dom (births g)) \<and> g_epoch s = word_of_nat (time g) \<and>
     (\<forall>x p k. births g x = Some (p, k) \<longrightarrow> k \<le> time g \<and> time g \<le> k + 1 \<and> p \<in> set (g_records s) \<and>
        x \<noteq> NULL \<and> sects s x = Some (word_of_nat (k mod 2)))"

definition recs_ok :: "ck \<Rightarrow> ghost \<Rightarrow> bool" where
  "recs_ok s g \<longleftrightarrow> NULL \<notin> set (g_records s) \<and>
     (\<forall>p \<in> set (g_records s). \<exists>r. recs s p = Some r \<and> rec_ok (births g) p r)"

text \<open>An entry waits in the list of the epoch of its call, with the sections that were open then and still are.\<close>

definition entry_ok :: "ck \<Rightarrow> ghost \<Rightarrow> nat \<Rightarrow> ptr \<Rightarrow> bool" where
  "entry_ok s g j e \<longleftrightarrow> entry_fun s e \<noteq> None \<and> fst (due g e) \<le> time g \<and> fst (due g e) mod 4 = j \<and>
     (\<forall>x \<in> snd (due g e). \<exists>q k. births g x = Some (q, k) \<and> k \<le> fst (due g e))"

definition entries_ok :: "ck \<Rightarrow> ghost \<Rightarrow> bool" where
  "entries_ok s g \<longleftrightarrow>
     (\<forall>p r j e. p \<in> set (g_records s) \<and> recs s p = Some r \<and> j < 4 \<and> e \<in> set (pending r ! j) \<longrightarrow> entry_ok s g j e)"

text \<open>A poll that has scanned: when it found all records in the epoch \<open>e\<close>, sections are no older than that, and when it
  found them inactive, no section is left of those its entries wait for.\<close>

definition polls_ok :: "ck \<Rightarrow> ghost \<Rightarrow> bool" where
  "polls_ok s g \<longleftrightarrow> (\<forall>p e cr a. polling g p = Some (e, cr, a) \<longrightarrow>
     in_use p s \<and> opens (births g) p (\<lambda>_. True) = {} \<and> e \<le> time g \<and>
     (cr = NULL \<and> a \<longrightarrow> (\<forall>x q k. births g x = Some (q, k) \<longrightarrow> e \<le> k)) \<and>
     (\<forall>r j x. recs s p = Some r \<and> j < 4 \<and> x \<in> set (pending r ! j) \<longrightarrow>
        fst (due g x) \<le> e \<and> (cr = NULL \<and> \<not> a \<longrightarrow> snd (due g x) = {})))"

definition ck_inv :: "ck \<times> ghost \<Rightarrow> bool" where
  "ck_inv st \<longleftrightarrow> births_ok (fst st) (snd st) \<and> recs_ok (fst st) (snd st) \<and>
     entries_ok (fst st) (snd st) \<and> polls_ok (fst st) (snd st)"

lemma opens_upd:
  "G x = None \<Longrightarrow> opens (G(x \<mapsto> (q, k))) p P = (if q = p \<and> P k then insert x (opens G p P) else opens G p P)"
  by (auto simp: opens_def)

lemma opens_del:
  "G x = Some (q, k) \<Longrightarrow> opens (G(x := None)) p P = (if q = p \<and> P k then opens G p P - {x} else opens G p P)"
  by (auto simp: opens_def)

lemma finite_opens [simp]: "finite (dom G) \<Longrightarrow> finite (opens G p P)"
  by (erule finite_subset [rotated]) (auto simp: opens_def)

lemma opens_mono: "(\<And>k. P k \<Longrightarrow> Q k) \<Longrightarrow> opens G p P \<subseteq> opens G p Q"
  by (auto simp: opens_def)

lemma opens_pos: "G y = Some (p, k) \<Longrightarrow> P k \<Longrightarrow> finite (dom G) \<Longrightarrow> 0 < card (opens G p P)"
  by (subst card_gt_0_iff) (auto simp: opens_def intro: finite_opens [unfolded opens_def])

lemma neighbour_epochs: "(word_of_nat k :: u32) = word_of_nat k' \<Longrightarrow> k \<le> k' + 1 \<Longrightarrow> k' \<le> k + 1 \<Longrightarrow> k = k'"
  by (cases "k = k' + 1 \<or> k' = k + 1") auto

lemma unat_parity [simp]: "unat ((word_of_nat t :: u32) AND 1) = t mod 2"
  by (simp add: and_one_eq unat_mod unat_of_nat take_bit_eq_mod mod_mod_cancel)

lemma unat_quarter [simp]: "unat ((word_of_nat t :: u32) AND 3) = t mod 4"
proof -
  have "(word_of_nat t :: u32) AND 3 = take_bit 2 (word_of_nat t)" by (simp add: take_bit_eq_mask mask_eq_exp_minus_1)
  then show ?thesis by (simp add: unat_mod unat_of_nat take_bit_eq_mod mod_mod_cancel)
qed

lemma same_parity: "(k::nat) \<le> t \<Longrightarrow> t \<le> k + 1 \<Longrightarrow> k mod 2 = t mod 2 \<Longrightarrow> k = t"
  by presburger

lemma near_parity:
  assumes "(k::nat) \<le> t" "t \<le> k + 1" "k' \<le> t" "t \<le> k' + 1" and "k mod 2 = k' mod 2"
  shows "k = k'"
proof -
  from assms(1-4) consider "k = k'" | "k = Suc k'" | "k' = Suc k" by linarith
  then show ?thesis using assms(5) by cases presburger+
qed

section \<open>Begin and end keep a record right\<close>

lemma begin_rec_simps:
  "rec_state (begin_rec g r) = rec_state r" "pending (begin_rec g r) = pending r"
  "rec_epoch (begin_rec g r) = (if rec_active r = 0 then g else rec_epoch r)"
  "length (bucket (begin_rec g r)) = length (bucket r)"
  "b < length (bucket r) \<Longrightarrow> bucket (begin_rec g r) ! b =
     (if b = unat (g AND 1)
      then \<lparr>ref_epoch = (if ref_count (bucket r ! b) = 0 then g else ref_epoch (bucket r ! b)), ref_count = ref_count (bucket r ! b) + 1\<rparr>
      else bucket r ! b)"
  by (auto simp: begin_rec_def Let_def nth_list_update)

lemma end_rec_simps:
  "rec_state (end_rec i r) = rec_state r" "pending (end_rec i r) = pending r"
  "length (bucket (end_rec i r)) = length (bucket r)"
  "b < length (bucket r) \<Longrightarrow> bucket (end_rec i r) ! b =
     (if b = i then (bucket r ! b)\<lparr>ref_count := ref_count (bucket r ! b) - 1\<rparr> else bucket r ! b)"
  by (auto simp: end_rec_def Let_def nth_list_update)

lemma rec_ok_idle:
  assumes "opens G p (\<lambda>_. True) = {}"
  shows "rec_ok G p r \<longleftrightarrow> length (bucket r) = 2 \<and> length (pending r) = 4 \<and> rec_state r \<in> {0, 1} \<and>
    rec_active r = 0 \<and> (\<forall>b<2. ref_count (bucket r ! b) = 0)"
proof -
  have "opens G p P = {}" for P using assms by (auto simp: opens_def)
  moreover have "G x \<noteq> Some (p, k)" for x k using assms by (auto simp: opens_def)
  ultimately show ?thesis by (auto simp: rec_ok_def unat_eq_zero)
qed

lemma rec_ok_epoch: "rec_ok G p r \<Longrightarrow> G y = Some (p, k) \<Longrightarrow> ref_epoch (bucket r ! (k mod 2)) = word_of_nat k"
  unfolding rec_ok_def by blast

lemma used_bucket:
  assumes "rec_ok G p r" and "ref_count (bucket r ! b) \<noteq> 0" and "b < 2"
  obtains y k where "G y = Some (p, k)" and "k mod 2 = b"
proof -
  from assms have "card (opens G p (\<lambda>k. k mod 2 = b)) \<noteq> 0" unfolding rec_ok_def by (metis unsigned_eq_0_iff)
  then have "opens G p (\<lambda>k. k mod 2 = b) \<noteq> {}" by auto
  with that show thesis by (auto simp: opens_def)
qed

lemma begin_counts:
  assumes ok: "rec_ok G p r" and fin: "finite (dom G)" and x: "G x = None" and few: "card (opens G p (\<lambda>_. True)) + 1 < 2 ^ 32"
  shows "unat (rec_active (begin_rec (word_of_nat t) r)) = card (opens (G(x \<mapsto> (p, t))) p (\<lambda>_. True))"
    and "b < 2 \<Longrightarrow> unat (ref_count (bucket (begin_rec (word_of_nat t) r) ! b)) = card (opens (G(x \<mapsto> (p, t))) p (\<lambda>k. k mod 2 = b))"
proof -
  have len: "length (bucket r) = 2" and act: "unat (rec_active r) = card (opens G p (\<lambda>_. True))"
    and cnt: "b < 2 \<Longrightarrow> unat (ref_count (bucket r ! b)) = card (opens G p (\<lambda>k. k mod 2 = b))"
    using ok by (auto simp: rec_ok_def)
  have x': "x \<notin> opens G p P" for P using x by (auto simp: opens_def)
  show "unat (rec_active (begin_rec (word_of_nat t) r)) = card (opens (G(x \<mapsto> (p, t))) p (\<lambda>_. True))"
    using act few fin x x' by (auto simp: begin_rec_active opens_upd unat_plus1_u32)
  have "card (opens G p (\<lambda>k. k mod 2 = b)) + 1 < 2 ^ 32"
    using few card_mono [OF finite_opens [OF fin] opens_mono, of "\<lambda>k. k mod 2 = b" "\<lambda>_. True" p] by simp
  then show "unat (ref_count (bucket (begin_rec (word_of_nat t) r) ! b)) = card (opens (G(x \<mapsto> (p, t))) p (\<lambda>k. k mod 2 = b))"
    if "b < 2" using cnt [OF that] that fin x x' len by (auto simp: begin_rec_simps opens_upd unat_plus1_u32)
qed

lemma begin_bucket_epoch:
  assumes ok: "rec_ok G p r" and now: "\<And>y k. G y = Some (p, k) \<Longrightarrow> k \<le> t \<and> t \<le> k + 1"
    and y: "(G(x \<mapsto> (p, t))) y = Some (p, k)"
  shows "ref_epoch (bucket (begin_rec (word_of_nat t) r) ! (k mod 2)) = word_of_nat k"
proof -
  let ?r = "begin_rec (word_of_nat t) r"
  have len: "length (bucket r) = 2" using ok by (simp add: rec_ok_def)
  have new: "ref_epoch (bucket ?r ! (t mod 2)) = word_of_nat t"
  proof (cases "ref_count (bucket r ! (t mod 2)) = 0")
    case False
    with ok obtain z k where "G z = Some (p, k)" "k mod 2 = t mod 2" by (rule used_bucket [of _ _ _ "t mod 2"]) simp_all
    with now same_parity have "G z = Some (p, t)" by metis
    with ok False len show ?thesis by (simp add: begin_rec_simps rec_ok_def)
  qed (use len in \<open>simp add: begin_rec_simps\<close>)
  show ?thesis
  proof (cases "k mod 2 = t mod 2")
    case True
    with y now [of y k] same_parity [of k t] have "k = t" by (auto split: if_splits)
    with new show ?thesis by simp
  next
    case False
    with ok y len show ?thesis by (auto simp: begin_rec_simps rec_ok_def split: if_splits)
  qed
qed

lemma begin_rec_ok:
  assumes ok: "rec_ok G p r" and fin: "finite (dom G)" and x: "G x = None" and used: "rec_state r = 0"
    and now: "\<And>y k. G y = Some (p, k) \<Longrightarrow> k \<le> t \<and> t \<le> k + 1" and few: "card (opens G p (\<lambda>_. True)) + 1 < 2 ^ 32"
  shows "rec_ok (G(x \<mapsto> (p, t))) p (begin_rec (word_of_nat t) r)"
proof -
  let ?G = "G(x \<mapsto> (p, t))" and ?r = "begin_rec (word_of_nat t) r"
  have act: "unat (rec_active r) = card (opens G p (\<lambda>_. True))" using ok by (simp add: rec_ok_def)
  have older: "\<exists>z k'. ?G z = Some (p, k') \<and> k' \<le> k \<and> rec_epoch ?r = word_of_nat k'" if y: "G y = Some (p, k)" for y k
  proof -
    from ok y obtain z k' where z: "G z = Some (p, k')" "k' \<le> k" "rec_epoch r = word_of_nat k'"
      unfolding rec_ok_def by blast
    moreover have "rec_active r \<noteq> 0" using act opens_pos [where P = "\<lambda>_. True", OF y _ fin] by auto
    moreover have "z \<noteq> x" using x z(1) by auto
    ultimately show ?thesis by (intro exI [of _ z] exI [of _ k']) (simp add: begin_rec_simps)
  qed
  have first: "\<exists>z k'. ?G z = Some (p, k') \<and> k' \<le> t \<and> rec_epoch ?r = word_of_nat k'"
  proof (cases "rec_active r = 0")
    case True
    then show ?thesis by (intro exI [of _ x] exI [of _ t]) (simp add: begin_rec_simps)
  next
    case False
    then have "opens G p (\<lambda>_. True) \<noteq> {}" using act by (auto simp: unat_eq_zero)
    then obtain y k where "G y = Some (p, k)" by (auto simp: opens_def)
    with older [of y k] now [of y k] show ?thesis by (meson le_trans)
  qed
  have "\<exists>z k'. ?G z = Some (p, k') \<and> k' \<le> k \<and> rec_epoch ?r = word_of_nat k'" if "?G y = Some (p, k)" for y k
    using that first older [of y k] by (cases "y = x") auto
  then show ?thesis unfolding rec_ok_def
    using ok used begin_counts [OF ok fin x few] begin_bucket_epoch [OF ok now] by (simp add: begin_rec_simps rec_ok_def)
qed

lemma end_counts:
  assumes ok: "rec_ok G p r" and fin: "finite (dom G)" and x: "G x = Some (p, k)"
  shows "unat (rec_active (end_rec (k mod 2) r)) = card (opens (G(x := None)) p (\<lambda>_. True))"
    and "b < 2 \<Longrightarrow> unat (ref_count (bucket (end_rec (k mod 2) r) ! b)) = card (opens (G(x := None)) p (\<lambda>k. k mod 2 = b))"
proof -
  have len: "length (bucket r) = 2" and act: "unat (rec_active r) = card (opens G p (\<lambda>_. True))"
    and cnt: "b < 2 \<Longrightarrow> unat (ref_count (bucket r ! b)) = card (opens G p (\<lambda>k. k mod 2 = b))"
    using ok by (auto simp: rec_ok_def)
  have minus: "unat (w - 1 :: u32) = card (A - {x})" if "unat w = card A" "x \<in> A" "finite A" for w A
    using that by (metis One_nat_def card_0_eq card_Diff_singleton empty_iff unat_minus1_u32 unsigned_0)
  have x': "P k \<Longrightarrow> x \<in> opens G p P" for P using x by (auto simp: opens_def)
  show "unat (rec_active (end_rec (k mod 2) r)) = card (opens (G(x := None)) p (\<lambda>_. True))"
    using minus [OF act x' finite_opens [OF fin]] x by (simp add: end_rec_active opens_del)
  show "unat (ref_count (bucket (end_rec (k mod 2) r) ! b)) = card (opens (G(x := None)) p (\<lambda>k. k mod 2 = b))" if b: "b < 2"
    using minus [OF cnt [OF b] x' finite_opens [OF fin]] cnt [OF b] b x len
    by (cases "b = k mod 2") (auto simp: end_rec_simps opens_del)
qed

lemma epoch_order:
  assumes "k \<le> k' + 1" and "k' \<le> k + 1"
  shows "sint (word_of_nat k - word_of_nat k' :: u32) < 0 \<longleftrightarrow> k < k'"
proof -
  from assms consider "k = k'" | "k' = k + 1" | "k = k' + 1" by linarith
  then show ?thesis by cases simp_all
qed

lemma end_rec_epoch:
  assumes "length (bucket r) = 2" and "i < 2"
  shows "rec_epoch (end_rec i r) =
    (if ref_count (bucket r ! i) = 1 \<and> ref_count (bucket r ! (1 - i)) \<noteq> 0 \<and>
        sint (ref_epoch (bucket r ! i) - ref_epoch (bucket r ! (1 - i))) < 0
     then ref_epoch (bucket r ! (1 - i)) else rec_epoch r)"
proof -
  have "1 - i \<noteq> i" using assms(2) by (auto simp: less_2_cases_iff)
  then show ?thesis using assms by (simp add: end_rec_def Let_def word_gt_0)
qed

text \<open>When the oldest section ends, either another one of its epoch is open, or all open ones are in the other bucket.\<close>

lemma end_oldest:
  assumes ok: "rec_ok G p r" and fin: "finite (dom G)" and x: "G x = Some (p, k)"
    and now: "\<And>y k. G y = Some (p, k) \<Longrightarrow> k \<le> t \<and> t \<le> k + 1" and y: "(G(x := None)) y = Some (p, k1)"
  shows "\<exists>z k'. (G(x := None)) z = Some (p, k') \<and> k' \<le> k1 \<and> rec_epoch (end_rec (k mod 2) r) = word_of_nat k'"
proof -
  let ?G = "G(x := None)" and ?r = "end_rec (k mod 2) r" and ?cur = "bucket r ! (k mod 2)" and ?other = "bucket r ! (1 - k mod 2)"
  have len: "length (bucket r) = 2" using ok by (simp add: rec_ok_def)
  have y': "G y = Some (p, k1)" and xy: "y \<noteq> x" using y by (auto split: if_splits)
  from ok y' obtain z k0 where z: "G z = Some (p, k0)" "k0 \<le> k1" "rec_epoch r = word_of_nat k0"
    unfolding rec_ok_def by blast
  note ep = rec_ok_epoch [OF ok]
  have cur: "unat (ref_count ?cur) = card (opens G p (\<lambda>j. j mod 2 = k mod 2))"
    and oth: "unat (ref_count ?other) = card (opens G p (\<lambda>j. j mod 2 = 1 - k mod 2))"
    using ok unfolding rec_ok_def by simp_all
  have near: "j = k" if "G v = Some (p, j)" "j mod 2 = k mod 2" for v j
    using near_parity [of j t k] now [OF that(1)] now [OF x] that(2) by blast
  have two: "ref_count ?cur \<noteq> 1" if "v \<noteq> x" "G v = Some (p, j)" "j mod 2 = k mod 2" for v j
  proof -
    have "{x, v} \<subseteq> opens G p (\<lambda>j. j mod 2 = k mod 2)" using x that by (auto simp: opens_def)
    then have "card {x, v} \<le> card (opens G p (\<lambda>j. j mod 2 = k mod 2))" by (rule card_mono [OF finite_opens [OF fin]])
    then show ?thesis using cur that(1) by auto
  qed
  have ch: "rec_epoch ?r = rec_epoch r \<or> rec_epoch ?r = ref_epoch ?other \<and> ref_count ?cur = 1"
    using end_rec_epoch [OF len, of "k mod 2"] by (simp split: if_splits)
  consider (kept) "rec_epoch ?r = rec_epoch r" "z \<noteq> x" | (changed) "rec_epoch ?r = ref_epoch ?other" "ref_count ?cur = 1"
    | (again) "rec_epoch ?r = rec_epoch r" "z = x" using ch by blast
  then show ?thesis
  proof cases
    case kept
    then show ?thesis using z by (intro exI [of _ z] exI [of _ k0]) simp
  next
    case changed
    with two [OF xy y'] have "k1 mod 2 = 1 - k mod 2" by linarith
    then show ?thesis using changed(1) ep [OF y'] y by (metis order_refl)
  next
    case again
    with z x have k0: "k0 = k" by simp
    have "\<exists>v. v \<noteq> x \<and> G v = Some (p, k)"
    proof (rule ccontr)
      assume only: "\<nexists>v. v \<noteq> x \<and> G v = Some (p, k)"
      then have "opens G p (\<lambda>j. j mod 2 = k mod 2) = {x}" using x near by (auto simp: opens_def)
      then have one: "ref_count ?cur = 1" using cur by (simp add: word_unat_eq_iff)
      have "k1 \<noteq> k" using only xy y' by auto
      then have diff: "k1 mod 2 = 1 - k mod 2" "k < k1" using near [OF y'] z(2) k0 by (auto, linarith)
      have "ref_count ?other \<noteq> 0" using oth opens_pos [where P = "\<lambda>j. j mod 2 = 1 - k mod 2", OF y' diff(1) fin] by auto
      then have "rec_epoch ?r = word_of_nat k1"
        using one len ep [OF x] ep [OF y'] diff epoch_order [of k k1] now [OF y'] now [OF x] by (simp add: end_rec_epoch)
      then show False using again z(3) k0 neighbour_epochs [of k1 k] diff(2) now [OF y'] now [OF x] by simp
    qed
    then show ?thesis using z(2,3) k0 again(1) by auto
  qed
qed

lemma end_rec_ok:
  assumes ok: "rec_ok G p r" and fin: "finite (dom G)" and x: "G x = Some (p, k)"
    and now: "\<And>y k. G y = Some (p, k) \<Longrightarrow> k \<le> t \<and> t \<le> k + 1"
  shows "rec_ok (G(x := None)) p (end_rec (k mod 2) r)"
proof -
  have used: "rec_state r = 0" using ok x by (auto simp: rec_ok_def opens_def)
  have "ref_epoch (bucket (end_rec (k mod 2) r) ! (j mod 2)) = word_of_nat j" if "(G(x := None)) y = Some (p, j)" for y j
  proof -
    have "length (bucket r) = 2" using ok by (simp add: rec_ok_def)
    then show ?thesis using rec_ok_epoch [OF ok, of y j] that by (auto simp: end_rec_simps split: if_splits)
  qed
  then show ?thesis unfolding rec_ok_def
    using ok used end_counts [OF ok fin x] end_oldest [OF ok fin x now] by (simp add: end_rec_simps rec_ok_def)
qed

text \<open>The sections of other records do not matter for a record.\<close>

lemma rec_ok_other:
  assumes "\<And>x k. G' x = Some (p, k) \<longleftrightarrow> G x = Some (p, k)"
  shows "rec_ok G' p r = rec_ok G p r"
  using assms by (simp add: rec_ok_def opens_def)

section \<open>Scanning and dispatching\<close>

lemma scan_from_returns:
  assumes "\<forall>p \<in> set ps. \<exists>r. recs s p = Some r"
  shows "\<exists>cr a. scan_from ps epoch af s = Some (cr, a)"
  using assms by (induction ps epoch af s rule: scan_from.induct) auto

text \<open>A scan that comes to the end has found every record in use inactive, or active in the epoch asked for.\<close>

lemma scan_from_end:
  assumes "scan_from ps epoch af s = Some (NULL, a)" and "NULL \<notin> set ps"
  shows "(af \<longrightarrow> a) \<and> (\<forall>p r. p \<in> set ps \<and> recs s p = Some r \<and> rec_state r = 0 \<and> rec_active r \<noteq> 0 \<longrightarrow> a \<and> rec_epoch r = epoch)"
  using assms
proof (induction ps arbitrary: af)
  case (Cons q ps)
  then obtain r where r: "recs s q = Some r" by (auto elim!: bind_SomeE)
  show ?case
  proof (cases "rec_state r AND 1 = 0")
    case True
    with Cons.prems r have "scan_from ps epoch (af \<or> rec_active r \<noteq> 0) s = Some (NULL, a)"
      and "rec_active r \<noteq> 0 \<Longrightarrow> rec_epoch r = epoch" by (auto split: if_splits)
    with Cons.IH [of "af \<or> rec_active r \<noteq> 0"] Cons.prems(2) r show ?thesis by auto
  next
    case False
    then have "rec_state r \<noteq> 0" by auto
    with Cons False r show ?thesis by auto
  qed
qed simp

lemma run_entries_effect:
  assumes "\<forall>e \<in> set es. entry_fun s e \<noteq> None"
  shows "\<exists>ran. run_entries es s = Some (s\<lparr>calls := calls s @ ran\<rparr>) \<and> map snd ran = es"
  using assms
proof (induction es s rule: run_entries.induct)
  case (2 entry cursor s)
  then obtain f where f: "entry_fun s entry = Some f" by auto
  with 2 obtain ran where "run_entries cursor (s\<lparr>calls := calls s @ [(f, entry)]\<rparr>) = Some (s\<lparr>calls := (calls s @ [(f, entry)]) @ ran\<rparr>)"
    "map snd ran = cursor" by auto
  with f show ?case by (intro exI [of _ "(f, entry) # ran"]) simp
qed simp

text \<open>What polling does to a record: entries are removed, and the sections stay.\<close>

definition quiet :: "ck_epoch_record \<Rightarrow> ck_epoch_record \<Rightarrow> bool" where
  "quiet r r' \<longleftrightarrow> rec_state r' = rec_state r \<and> rec_active r' = rec_active r \<and> bucket r' = bucket r \<and>
     length (pending r') = length (pending r) \<and> (\<forall>j < length (pending r). set (pending r' ! j) \<subseteq> set (pending r ! j))"

lemma quiet_trans: "quiet r r' \<Longrightarrow> quiet r' r'' \<Longrightarrow> quiet r r''"
  by (fastforce simp: quiet_def)

definition entries_live :: "ck \<Rightarrow> ck_epoch_record \<Rightarrow> bool" where
  "entries_live s r \<longleftrightarrow> length (pending r) = 4 \<and> (\<forall>j<4. \<forall>e \<in> set (pending r ! j). entry_fun s e \<noteq> None)"

lemma entries_live_quiet: "entries_live s r \<Longrightarrow> quiet r r' \<Longrightarrow> entry_fun s' = entry_fun s \<Longrightarrow> entries_live s' r'"
  by (fastforce simp: entries_live_def quiet_def)

lemma and_3_less: "unat ((e :: u32) AND 3) < 4"
  by (metis and_nat_def less_numeral_extra(1) mod_less_divisor unat_quarter word_nat_cases zero_less_numeral)

lemma set_cleared: "set (xs[i := []] ! j) \<subseteq> set (xs ! j)"
  by (cases "j = i"; cases "i < length xs") (simp_all add: list_update_beyond)

lemma dispatch_effect:
  assumes r: "recs s p = Some r" and live: "entries_live s r"
  shows "\<exists>r' ran. ck_epoch_dispatch p e s = Some (s\<lparr>recs := (recs s)(p \<mapsto> r'), calls := calls s @ ran\<rparr>) \<and> quiet r r' \<and>
    map snd ran = pending r ! unat (e AND 3)"
proof -
  let ?j = "unat (e AND 3)"
  let ?s = "s\<lparr>recs := (recs s)(p \<mapsto> r\<lparr>pending := (pending r)[?j := []]\<rparr>)\<rparr>"
  have "\<forall>e \<in> set (pending r ! ?j). entry_fun ?s e \<noteq> None" using live and_3_less [of e] unfolding entries_live_def by auto
  from run_entries_effect [OF this] obtain ran where ran:
    "run_entries (pending r ! ?j) ?s = Some (?s\<lparr>calls := calls ?s @ ran\<rparr>)" "map snd ran = pending r ! ?j" by blast
  define r' where "r' = r\<lparr>pending := (pending r)[?j := []], n_peak := (if n_pending r > n_peak r then n_pending r else n_peak r),
    n_dispatch := n_dispatch r + ucast (word_of_nat (length (pending r ! ?j)) :: u32),
    n_pending := n_pending r - word_of_nat (length (pending r ! ?j))\<rparr>"
  have "quiet r r'" unfolding quiet_def r'_def by (simp, intro allI impI set_cleared)
  moreover have "ck_epoch_dispatch p e s = Some (s\<lparr>recs := (recs s)(p \<mapsto> r'), calls := calls s @ ran\<rparr>)"
    using r ran(1) by (auto simp: ck_epoch_dispatch_def Let_def r'_def intro!: ck.equality)
  ultimately show ?thesis using ran(2) by blast
qed

lemma reclaim_effect:
  assumes "recs s p = Some r" and "entries_live s r"
  shows "\<exists>r' ran. reclaim_from p i n s = Some (s\<lparr>recs := (recs s)(p \<mapsto> r'), calls := calls s @ ran\<rparr>) \<and> quiet r r' \<and>
    (\<forall>e \<in> snd ` set ran. \<exists>j<4. e \<in> set (pending r ! j))"
  using assms
proof (induction n arbitrary: i s r)
  case 0
  then show ?case by (intro exI [of _ r] exI [of _ "[]"]) (simp add: quiet_def map_upd_triv)
next
  case (Suc n)
  from dispatch_effect [OF Suc.prems] obtain r1 ran where 1:
    "ck_epoch_dispatch p (word_of_nat i) s = Some (s\<lparr>recs := (recs s)(p \<mapsto> r1), calls := calls s @ ran\<rparr>)" "quiet r r1"
    "map snd ran = pending r ! unat ((word_of_nat i :: u32) AND 3)" by blast
  let ?s = "s\<lparr>recs := (recs s)(p \<mapsto> r1), calls := calls s @ ran\<rparr>"
  have "entries_live ?s r1" by (rule entries_live_quiet [OF Suc.prems(2) 1(2)]) simp
  from Suc.IH [of ?s r1, OF _ this] obtain r2 ran2 where 2:
    "reclaim_from p (i + 1) n ?s = Some (s\<lparr>recs := (recs s)(p \<mapsto> r2), calls := (calls s @ ran) @ ran2\<rparr>)" "quiet r1 r2"
    "\<forall>e \<in> snd ` set ran2. \<exists>j<4. e \<in> set (pending r1 ! j)" by fastforce
  have "\<exists>j<4. e \<in> set (pending r ! j)" if "e \<in> snd ` set ran" for e
    using that 1(3) by (metis and_3_less list.set_map)
  moreover have "\<exists>j<4. e \<in> set (pending r ! j)" if "e \<in> snd ` set ran2" for e
    using that 2(3) 1(2) Suc.prems(2) unfolding quiet_def entries_live_def by (metis subsetD)
  ultimately have "\<forall>e \<in> snd ` set (ran @ ran2). \<exists>j<4. e \<in> set (pending r ! j)" by (simp add: image_Un ball_Un)
  moreover have "reclaim_from p i (Suc n) s = Some (s\<lparr>recs := (recs s)(p \<mapsto> r2), calls := calls s @ (ran @ ran2)\<rparr>)"
    using 1(1) 2(1) by simp
  ultimately show ?case using quiet_trans [OF 1(2) 2(2)] by blast
qed

text \<open>The rest of a poll: the callbacks that run are of its own record, and, where the epoch advances, of the oldest list.\<close>

lemma poll_rest_effect:
  assumes r: "recs s p = Some r" and live: "entries_live s r"
  shows "\<exists>b r' ran. poll_rest p epoch cr a s =
      Some (b, s\<lparr>g_epoch := (if cr = NULL \<and> a \<and> g_epoch s = epoch then epoch + 1 else g_epoch s),
                 recs := (recs s)(p \<mapsto> r'), calls := calls s @ ran\<rparr>) \<and> quiet r r' \<and>
    (\<forall>e \<in> snd ` set ran. cr = NULL \<and> (\<exists>j<4. e \<in> set (pending r ! j) \<and> (a \<longrightarrow> j = unat ((epoch + 1) AND 3))))"
proof -
  let ?r = "\<lambda>w. r\<lparr>rec_epoch := w\<rparr>"
  have q: "quiet r (?r w)" "pending (?r w) = pending r" for w by (simp_all add: quiet_def)
  have live': "entries_live (s\<lparr>g_epoch := v, recs := R\<rparr>) (?r w)" "entries_live (s\<lparr>recs := R\<rparr>) (?r w)" for v w R
    using live by (simp_all add: entries_live_def)
  consider (busy) "cr \<noteq> NULL" | (idle) "cr = NULL" "\<not> a" | (tick) "cr = NULL" "a" by blast
  then show ?thesis
  proof cases
    case busy
    then show ?thesis using r q by (auto simp: poll_rest_def)
  next
    case idle
    let ?s = "s\<lparr>recs := (recs s)(p \<mapsto> ?r epoch)\<rparr>"
    from reclaim_effect [of ?s p "?r epoch" 0 4, OF _ live'(2)] obtain r' ran where
      "reclaim_from p 0 4 ?s = Some (s\<lparr>recs := (recs s)(p \<mapsto> r'), calls := calls s @ ran\<rparr>)"
      "quiet (?r epoch) r'" "\<forall>e \<in> snd ` set ran. \<exists>j<4. e \<in> set (pending r ! j)" by auto
    with quiet_trans [OF q(1)] show ?thesis using idle r
      by (intro exI [of _ True] exI [of _ r'] exI [of _ ran]) (auto simp: poll_rest_def ck_epoch_reclaim_def)
  next
    case tick
    define w where "w = (if g_epoch s = epoch then epoch + 1 else g_epoch s)"
    let ?s = "s\<lparr>g_epoch := w, recs := (recs s)(p \<mapsto> ?r w)\<rparr>"
    from dispatch_effect [of ?s p "?r w" "epoch + 1", OF _ live'(1)] obtain r' ran where d:
      "ck_epoch_dispatch p (epoch + 1) ?s = Some (s\<lparr>g_epoch := w, recs := (recs s)(p \<mapsto> r'), calls := calls s @ ran\<rparr>)"
      "quiet (?r w) r'" "map snd ran = pending r ! unat ((epoch + 1) AND 3)" by auto
    have "(if g_epoch s = epoch then s\<lparr>g_epoch := epoch + 1, recs := (recs s)(p \<mapsto> ?r (epoch + 1))\<rparr>
        else s\<lparr>recs := (recs s)(p \<mapsto> ?r (g_epoch s))\<rparr>) = ?s" by (simp add: w_def)
    then have "poll_rest p epoch cr a s = Some (True, s\<lparr>g_epoch := w, recs := (recs s)(p \<mapsto> r'), calls := calls s @ ran\<rparr>)"
      using tick r d(1) by (simp add: poll_rest_def)
    moreover have "\<forall>e \<in> snd ` set ran. e \<in> set (pending r ! unat ((epoch + 1) AND 3))" using d(3) by (metis list.set_map)
    ultimately show ?thesis using tick quiet_trans [OF q(1) d(2)] and_3_less [of "epoch + 1"]
      unfolding w_def by fastforce
  qed
qed

section \<open>The steps keep the invariant\<close>

lemma ck_invD:
  assumes "ck_inv (s, g)"
  shows "births_ok s g" and "recs_ok s g" and "entries_ok s g" and "polls_ok s g"
  using assms by (simp_all add: ck_inv_def)

lemma ck_invI:
  assumes "births_ok s g" and "recs_ok s g" and "entries_ok s g" and "polls_ok s g"
  shows "ck_inv (s, g)"
  using assms by (simp add: ck_inv_def)

lemma birth_record: "births_ok s g \<Longrightarrow> births g x = Some (p, k) \<Longrightarrow> p \<in> set (g_records s)"
  by (simp add: births_ok_def)

lemma record_known:
  assumes "recs_ok s g" and "p \<in> set (g_records s)"
  obtains r where "recs s p = Some r" and "rec_ok (births g) p r"
  using assms by (auto simp: recs_ok_def)

lemma polling_in_use: "polls_ok s g \<Longrightarrow> polling g p = Some v \<Longrightarrow> in_use p s"
  by (cases v) (auto simp: polls_ok_def)

lemma polls_ok_frame:
  assumes ok: "polls_ok s g" and same: "\<And>q v. polling g' q = Some v \<Longrightarrow> polling g q = Some v \<and> recs s' q = recs s q"
    and eq: "g_records s' = g_records s" "births g' = births g" "time g \<le> time g'"
    and due: "\<And>q v r j x. polling g' q = Some v \<Longrightarrow> recs s q = Some r \<Longrightarrow> j < 4 \<Longrightarrow> x \<in> set (pending r ! j) \<Longrightarrow> due g' x = due g x"
  shows "polls_ok s' g'"
  unfolding polls_ok_def
proof (intro allI impI)
  fix p e cr a
  assume p: "polling g' p = Some (e, cr, a)"
  with same have old: "polling g p = Some (e, cr, a)" "recs s' p = recs s p" by blast+
  from ok old(1) have o: "in_use p s" "opens (births g) p (\<lambda>_. True) = {}" "e \<le> time g"
    "cr = NULL \<and> a \<longrightarrow> (\<forall>x q k. births g x = Some (q, k) \<longrightarrow> e \<le> k)"
    "\<And>r j x. recs s p = Some r \<Longrightarrow> j < 4 \<Longrightarrow> x \<in> set (pending r ! j) \<Longrightarrow> fst (due g x) \<le> e \<and> (cr = NULL \<and> \<not> a \<longrightarrow> snd (due g x) = {})"
    unfolding polls_ok_def by blast+
  show "in_use p s' \<and> opens (births g') p (\<lambda>_. True) = {} \<and> e \<le> time g' \<and>
      (cr = NULL \<and> a \<longrightarrow> (\<forall>x q k. births g' x = Some (q, k) \<longrightarrow> e \<le> k)) \<and>
      (\<forall>r j x. recs s' p = Some r \<and> j < 4 \<and> x \<in> set (pending r ! j) \<longrightarrow>
         fst (due g' x) \<le> e \<and> (cr = NULL \<and> \<not> a \<longrightarrow> snd (due g' x) = {}))"
    using o old(2) eq due [OF p] by (simp add: in_use_def) metis
qed

lemma inv_register:
  assumes inv: "ck_inv (s, g)" and p: "p \<noteq> NULL" "p \<notin> set (g_records s)"
  shows "ck_inv (ck_epoch_register p s, g)"
proof (rule ck_invI)
  note i = ck_invD [OF inv]
  have none: "opens (births g) p (\<lambda>_. True) = {}" using birth_record [OF i(1)] p(2) by (fastforce simp: opens_def)
  show "births_ok (ck_epoch_register p s) g" using i(1) by (auto simp: births_ok_def ck_epoch_register_def)
  show "recs_ok (ck_epoch_register p s) g"
    using i(2) p rec_ok_idle [OF none] by (auto simp: recs_ok_def ck_epoch_register_def reset_record_def less_2_cases_iff)
  show "entries_ok (ck_epoch_register p s) g"
    using i(3) p by (auto simp: entries_ok_def entry_ok_def ck_epoch_register_def reset_record_def nth_replicate split: if_splits)
  have "polling g p = None" using polling_in_use [OF i(4), of p] p(2) by (cases "polling g p") (auto simp: in_use_def)
  then show "polls_ok (ck_epoch_register p s) g"
    using i(4) unfolding polls_ok_def in_use_def ck_epoch_register_def by (auto split: if_splits)
qed

lemma inv_unregister:
  assumes inv: "ck_inv (s, g)" and p: "in_use p s" "opens (births g) p (\<lambda>_. True) = {}" "polling g p = None"
    and s': "ck_epoch_unregister p s = Some s'"
  shows "ck_inv (s', g)"
proof (rule ck_invI)
  note i = ck_invD [OF inv]
  have s': "s' = s\<lparr>recs := (recs s)(p \<mapsto> reset_record 1), n_free := n_free s + 1\<rparr>"
    using s' by (auto simp: ck_epoch_unregister_def elim!: bind_SomeE)
  show "births_ok s' g" using i(1) by (auto simp: births_ok_def s')
  show "recs_ok s' g" using i(2) rec_ok_idle [OF p(2)] by (auto simp: recs_ok_def s' reset_record_def less_2_cases_iff)
  show "entries_ok s' g" using i(3) by (auto simp: entries_ok_def entry_ok_def s' reset_record_def nth_replicate split: if_splits)
  show "polls_ok s' g" using i(4) p(3) unfolding polls_ok_def in_use_def s' by (auto split: if_splits)
qed

lemma recycle_from_effect:
  assumes "recycle_from ps s = Some (q, s')"
  shows "s' = s \<or> (\<exists>r. q \<in> set ps \<and> recs s q = Some r \<and> rec_state r = 1 \<and>
    s' = s\<lparr>recs := (recs s)(q \<mapsto> r\<lparr>rec_state := 0\<rparr>), n_free := n_free s - 1\<rparr>)"
  using assms by (induction ps s rule: recycle_from.induct) (auto elim!: bind_SomeE split: if_splits)

lemma inv_recycle:
  assumes inv: "ck_inv (s, g)" and s': "ck_epoch_recycle s = Some (q, s')"
  shows "ck_inv (s', g)"
proof (cases "s' = s")
  case False
  note i = ck_invD [OF inv]
  from s' False recycle_from_effect [of "g_records s" s q s'] obtain r where r: "q \<in> set (g_records s)" "recs s q = Some r"
    "rec_state r = 1" "s' = s\<lparr>recs := (recs s)(q \<mapsto> r\<lparr>rec_state := 0\<rparr>), n_free := n_free s - 1\<rparr>"
    by (auto simp: ck_epoch_recycle_def split: if_splits)
  from i(2) r(1,2) have ok: "rec_ok (births g) q r" by (auto simp: recs_ok_def)
  then have none: "opens (births g) q (\<lambda>_. True) = {}" using r(3) by (simp add: rec_ok_def)
  show ?thesis
  proof (rule ck_invI)
    show "births_ok s' g" using i(1) by (auto simp: births_ok_def r(4))
    show "recs_ok s' g" using i(2) ok rec_ok_idle [OF none] by (auto simp: recs_ok_def r(4))
    show "entries_ok s' g" using i(3) r(2) by (auto simp: entries_ok_def entry_ok_def r(4) split: if_splits)
    have "polling g q = None" using polling_in_use [OF i(4), of q] r(2,3) by (cases "polling g q") (auto simp: in_use_def)
    then show "polls_ok s' g" using i(4) r(2) unfolding polls_ok_def in_use_def r(4) by (auto split: if_splits)
  qed
qed (use inv in simp)

lemma inv_begin:
  assumes inv: "ck_inv (s, g)" and p: "in_use p s" "polling g p = None" and x: "x \<noteq> NULL" "births g x = None"
    and few: "card (opens (births g) p (\<lambda>_. True)) + 1 < 2 ^ 32" and s': "ck_epoch_begin p x s = Some s'"
  shows "ck_inv (s', g\<lparr>births := (births g)(x \<mapsto> (p, time g))\<rparr>)"
proof (rule ck_invI)
  let ?g = "g\<lparr>births := (births g)(x \<mapsto> (p, time g))\<rparr>"
  note i = ck_invD [OF inv]
  from s' x(1) obtain r v where r: "recs s p = Some r" and v: "sects s x = Some v"
    by (auto simp: ck_epoch_begin_def ck_epoch_addref_def Let_def elim!: bind_SomeE)
  have ge: "g_epoch s = word_of_nat (time g)" using i(1) by (simp add: births_ok_def)
  have bit: "(word_of_nat (time g) :: u32) AND 1 = word_of_nat (time g mod 2)" by (simp add: word_unat_eq_iff unat_of_nat)
  have s': "s' = s\<lparr>recs := (recs s)(p \<mapsto> begin_rec (word_of_nat (time g)) r), sects := (sects s)(x \<mapsto> word_of_nat (time g mod 2))\<rparr>"
    using s' ck_epoch_begin_eq [OF r v x(1)] ge bit by simp
  have "rec_ok (births ?g) p (begin_rec (word_of_nat (time g)) r)"
  proof -
    from i(2) p(1) r have "rec_ok (births g) p r" "rec_state r = 0" by (auto simp: recs_ok_def in_use_def)
    moreover from i(1) have "finite (dom (births g))" "\<And>y k. births g y = Some (p, k) \<Longrightarrow> k \<le> time g \<and> time g \<le> k + 1"
      by (auto simp: births_ok_def)
    ultimately show ?thesis using begin_rec_ok [OF _ _ x(2) _ _ few] by simp
  qed
  moreover have "rec_ok (births ?g) q r' = rec_ok (births g) q r'" if "q \<noteq> p" for q r'
    by (rule rec_ok_other) (use that x(2) in auto)
  ultimately show "recs_ok s' ?g" using i(2) unfolding recs_ok_def s' by auto
  show "births_ok s' ?g" using i(1) p(1) x by (auto simp: births_ok_def s' in_use_def)
  have "entry_ok s' ?g j e" if "entry_ok s g j e" for j e using that x(2) by (fastforce simp: entry_ok_def s')
  then show "entries_ok s' ?g" using i(3) r unfolding entries_ok_def by (auto simp: s' begin_rec_simps split: if_splits)
  have "opens (births ?g) q P = opens (births g) q P" if "q \<noteq> p" for q P using that x(2) by (simp add: opens_upd)
  then show "polls_ok s' ?g" using i(4) p(2) unfolding polls_ok_def s' in_use_def by (auto split: if_splits)
qed

lemma inv_end:
  assumes inv: "ck_inv (s, g)" and x: "births g x = Some (p, k)" and s': "ck_epoch_end p x s = Some s'"
  shows "ck_inv (s', g\<lparr>births := (births g)(x := None), due := (\<lambda>e. (fst (due g e), snd (due g e) - {x}))\<rparr>)"
proof (rule ck_invI)
  let ?g = "g\<lparr>births := (births g)(x := None), due := (\<lambda>e. (fst (due g e), snd (due g e) - {x}))\<rparr>"
  note i = ck_invD [OF inv]
  from i(1) x have v: "sects s x = Some (word_of_nat (k mod 2))" "x \<noteq> NULL" "p \<in> set (g_records s)"
    and fin: "finite (dom (births g))" and now: "\<And>y k. births g y = Some (p, k) \<Longrightarrow> k \<le> time g \<and> time g \<le> k + 1"
    by (auto simp: births_ok_def)
  from i(2) v(3) obtain r where r: "recs s p = Some r" "rec_ok (births g) p r" by (rule record_known)
  have bit: "unat (word_of_nat (k mod 2) :: u32) = k mod 2" by (simp add: unat_of_nat)
  have s': "s' = s\<lparr>recs := (recs s)(p \<mapsto> end_rec (k mod 2) r)\<rparr>"
    using s' ck_epoch_end_eq [OF r(1) v(1,2)] bit by simp
  have "rec_ok (births ?g) p (end_rec (k mod 2) r)" using end_rec_ok [OF r(2) fin x now] by simp
  moreover have "rec_ok (births ?g) q r' = rec_ok (births g) q r'" if "q \<noteq> p" for q r'
    by (rule rec_ok_other) (use that x in auto)
  ultimately show "recs_ok s' ?g" using i(2) unfolding recs_ok_def s' by auto
  show "births_ok s' ?g" using i(1) by (auto simp: births_ok_def s')
  have "entry_ok s' ?g j e" if "entry_ok s g j e" for j e using that by (auto simp: entry_ok_def s')
  then show "entries_ok s' ?g" using i(3) r(1) unfolding entries_ok_def by (auto simp: s' end_rec_simps split: if_splits)
  have "polling g p = None"
  proof (rule ccontr)
    assume "polling g p \<noteq> None"
    then have "opens (births g) p (\<lambda>_. True) = {}" using i(4) by (auto simp: polls_ok_def)
    then show False using x by (auto simp: opens_def)
  qed
  moreover have "opens (births ?g) q P = opens (births g) q P" if "q \<noteq> p" for q P using that x by (simp add: opens_del)
  ultimately show "polls_ok s' ?g" using i(4) unfolding polls_ok_def s' in_use_def by (auto split: if_splits)
qed

lemma pending_nth: "length (pending r) = 4 \<Longrightarrow> j < 4 \<Longrightarrow> e \<in> set (pending r ! j) \<Longrightarrow> recs s p = Some r \<Longrightarrow> is_pending p e s"
  unfolding is_pending_def by (metis nth_mem)

lemma inv_call:
  assumes inv: "ck_inv (s, g)" and p: "in_use p s" "polling g p = None" and e: "\<forall>q \<in> set (g_records s). \<not> is_pending q e s"
    and s': "ck_epoch_call p e f s = Some s'"
  shows "ck_inv (s', g\<lparr>due := (due g)(e := (time g, dom (births g)))\<rparr>)"
proof (rule ck_invI)
  let ?g = "g\<lparr>due := (due g)(e := (time g, dom (births g)))\<rparr>" and ?j = "time g mod 4"
  note i = ck_invD [OF inv]
  from i(2) p(1) obtain r where r: "recs s p = Some r" "rec_ok (births g) p r" by (auto simp: recs_ok_def in_use_def)
  have len: "length (pending r) = 4" using r(2) by (simp add: rec_ok_def)
  have ge: "g_epoch s = word_of_nat (time g)" using i(1) by (simp add: births_ok_def)
  let ?r = "r\<lparr>n_pending := n_pending r + 1, pending := (pending r)[?j := e # (pending r ! ?j)]\<rparr>"
  have s': "s' = s\<lparr>recs := (recs s)(p \<mapsto> ?r), entry_fun := (entry_fun s)(e \<mapsto> f)\<rparr>"
    using s' r(1) by (simp add: ck_epoch_call_def Let_def ge)
  have fresh: "e \<notin> set (pending r' ! j)" if "q \<in> set (g_records s)" "recs s q = Some r'" "j < 4" for q r' j
  proof -
    from i(2) that(1,2) have "length (pending r') = 4" by (auto simp: recs_ok_def rec_ok_def)
    with e that show ?thesis using pending_nth [of r' j e s q] by blast
  qed
  show "births_ok s' ?g" using i(1) by (auto simp: births_ok_def s')
  have "rec_ok (births g) p ?r" using r(2) by (simp add: rec_ok_def)
  then show "recs_ok s' ?g" using i(2) by (auto simp: recs_ok_def s')
  have "births g x = Some (q, k) \<Longrightarrow> k \<le> time g" for x q k using i(1) by (auto simp: births_ok_def)
  then have new: "entry_ok s' ?g ?j e" by (auto simp: entry_ok_def s')
  have old: "entry_ok s' ?g j x" if "q \<in> set (g_records s)" "recs s q = Some r'" "j < 4" "x \<in> set (pending r' ! j)" for q r' j x
  proof -
    have "x \<noteq> e" using fresh [OF that(1-3)] that(4) by auto
    moreover have "entry_ok s g j x" using i(3) that unfolding entries_ok_def by blast
    ultimately show ?thesis by (simp add: entry_ok_def s')
  qed
  show "entries_ok s' ?g" unfolding entries_ok_def
  proof (intro allI impI, elim conjE)
    fix q r' j x assume q: "q \<in> set (g_records s')" "recs s' q = Some r'" "j < 4" "x \<in> set (pending r' ! j)"
    then have rec': "q \<in> set (g_records s)" by (simp add: s')
    show "entry_ok s' ?g j x"
    proof (cases "q = p")
      case True
      with q(2,4) len q(3) consider "x = e" "j = ?j" | "x \<in> set (pending r ! j)"
        by (auto simp: s' nth_list_update split: if_splits)
      then show ?thesis using new old [OF _ r(1) q(3), of x] rec' True by cases auto
    qed (use q rec' old [of q r' j x] in \<open>simp add: s'\<close>)
  qed
  show "polls_ok s' ?g"
  proof (rule polls_ok_frame [OF i(4)])
    fix q v r' j x
    assume q: "polling ?g q = Some v"
    then show "polling g q = Some v \<and> recs s' q = recs s q" using p(2) by (auto simp: s')
    assume "recs s q = Some r'" "j < 4" "x \<in> set (pending r' ! j)"
    moreover have "q \<in> set (g_records s)" using q polling_in_use [OF i(4), of q v] by (simp add: in_use_def)
    ultimately show "due ?g x = due g x" using fresh by auto
  qed (simp_all add: s')
qed

text \<open>A scan to the end: no section is older than the epoch, or there is none.\<close>

lemma scan_end_births:
  assumes inv: "ck_inv (s, g)" and scan: "ck_epoch_scan NULL (g_epoch s) s = Some (NULL, a)" and x: "births g x = Some (q, k)"
  shows "a \<and> time g \<le> k"
proof -
  note i = ck_invD [OF inv]
  from i(1) x have q: "q \<in> set (g_records s)" and fin: "finite (dom (births g))"
    and now: "\<And>y k. births g y = Some (q, k) \<Longrightarrow> k \<le> time g \<and> time g \<le> k + 1" and ge: "g_epoch s = word_of_nat (time g)"
    by (auto simp: births_ok_def)
  from i(2) q obtain r where r: "recs s q = Some r" "rec_ok (births g) q r" by (rule record_known)
  have used: "rec_state r = 0" using r(2) x by (auto simp: rec_ok_def opens_def)
  have "rec_active r \<noteq> 0" using r(2) opens_pos [where P = "\<lambda>_. True", OF x _ fin] by (auto simp: rec_ok_def)
  moreover have "scan_from (g_records s) (g_epoch s) False s = Some (NULL, a)" using scan by (simp add: ck_epoch_scan_def)
  moreover have "NULL \<notin> set (g_records s)" using i(2) by (simp add: recs_ok_def)
  ultimately have end': "a" "rec_epoch r = g_epoch s" using scan_from_end q r(1) used by blast+
  from r(2) x obtain y k' where y: "births g y = Some (q, k')" "k' \<le> k" "rec_epoch r = word_of_nat k'"
    unfolding rec_ok_def by blast
  then have "(word_of_nat k' :: u32) = word_of_nat (time g)" using end'(2) ge by metis
  from neighbour_epochs [OF this] now [OF y(1)] have "k' = time g" by linarith
  with y(2) end'(1) show ?thesis by simp
qed

lemma inv_scan:
  assumes inv: "ck_inv (s, g)" and p: "in_use p s" "opens (births g) p (\<lambda>_. True) = {}"
    and scan: "ck_epoch_scan NULL (g_epoch s) s = Some (cr, a)"
  shows "ck_inv (s, g\<lparr>polling := (polling g)(p \<mapsto> (time g, cr, a))\<rparr>)"
proof (rule ck_invI)
  let ?g = "g\<lparr>polling := (polling g)(p \<mapsto> (time g, cr, a))\<rparr>"
  note i = ck_invD [OF inv]
  show "births_ok s ?g" "recs_ok s ?g" using i(1,2) by (simp_all add: births_ok_def recs_ok_def)
  show "entries_ok s ?g" using i(3) by (simp add: entries_ok_def entry_ok_def)
  have fresh: "a \<and> time g \<le> k" if "cr = NULL" "births g x = Some (q, k)" for x q k
    using scan_end_births [OF inv _ that(2)] scan that(1) by simp
  have "fst (due g x) \<le> time g \<and> (cr = NULL \<and> \<not> a \<longrightarrow> snd (due g x) = {})"
    if "recs s p = Some r" "j < 4" "x \<in> set (pending r ! j)" for r j x
  proof -
    from i(3) p(1) that have "fst (due g x) \<le> time g" "\<forall>y \<in> snd (due g x). \<exists>q k. births g y = Some (q, k)"
      unfolding entries_ok_def entry_ok_def in_use_def by blast+
    then show ?thesis using fresh by blast
  qed
  then show "polls_ok s ?g" using i(4) p fresh unfolding polls_ok_def by auto
qed

text \<open>The rest of a poll. The epoch advances only when it is the one of the scan, so that no section is older; the
  entries that run then were deferred three epochs before it.\<close>

lemma poll_end_effect:
  assumes inv: "ck_inv (s, g)" and p: "polling g p = Some (e, cr, a)"
  shows "\<exists>b r r' ran. recs s p = Some r \<and> quiet r r' \<and> poll_rest p (word_of_nat e) cr a s =
      Some (b, s\<lparr>g_epoch := (if cr = NULL \<and> a \<and> g_epoch s = word_of_nat e then word_of_nat e + 1 else g_epoch s),
                 recs := (recs s)(p \<mapsto> r'), calls := calls s @ ran\<rparr>) \<and> (\<forall>x \<in> snd ` set ran. snd (due g x) = {})"
proof -
  note i = ck_invD [OF inv]
  from i(4) p have use: "in_use p s" and old: "cr = NULL \<Longrightarrow> a \<Longrightarrow> births g x = Some (q, k) \<Longrightarrow> e \<le> k" for x q k
    unfolding polls_ok_def by blast+
  from i(2) use obtain r where r: "recs s p = Some r" "rec_ok (births g) p r" by (auto simp: recs_ok_def in_use_def)
  have ent: "entry_ok s g j x" "fst (due g x) \<le> e" "cr = NULL \<Longrightarrow> \<not> a \<Longrightarrow> snd (due g x) = {}"
    if "j < 4" "x \<in> set (pending r ! j)" for j x
    using that i(3,4) use p r(1) unfolding entries_ok_def polls_ok_def in_use_def by blast+
  then have "entries_live s r" using r(2) by (simp add: entries_live_def rec_ok_def entry_ok_def)
  from poll_rest_effect [OF r(1) this, of "word_of_nat e" cr a] obtain b r' ran where eff:
    "poll_rest p (word_of_nat e) cr a s =
      Some (b, s\<lparr>g_epoch := (if cr = NULL \<and> a \<and> g_epoch s = word_of_nat e then word_of_nat e + 1 else g_epoch s),
                 recs := (recs s)(p \<mapsto> r'), calls := calls s @ ran\<rparr>)" "quiet r r'"
    "\<forall>x \<in> snd ` set ran. cr = NULL \<and> (\<exists>j<4. x \<in> set (pending r ! j) \<and> (a \<longrightarrow> j = unat ((word_of_nat e + 1 :: u32) AND 3)))"
    by blast
  have "snd (due g x) = {}" if x: "x \<in> snd ` set ran" for x
  proof -
    from eff(3) x obtain j where j: "cr = NULL" "j < 4" "x \<in> set (pending r ! j)" "a \<Longrightarrow> j = unat ((word_of_nat e + 1 :: u32) AND 3)"
      by blast
    show ?thesis
    proof (cases a)
      case True
      have "(word_of_nat e + 1 :: u32) = word_of_nat (e + 1)" by simp
      then have "j = (e + 1) mod 4" using j(4) [OF True] unat_quarter [of "e + 1"] by metis
      moreover have "fst (due g x) mod 4 = j" using ent(1) [OF j(2,3)] by (simp add: entry_ok_def)
      ultimately have "fst (due g x) < e" using ent(2) [OF j(2,3)] by presburger
      then show ?thesis using ent(1) [OF j(2,3)] old [OF j(1) True] unfolding entry_ok_def by force
    qed (use ent(3) j in blast)
  qed
  with r(1) eff(1,2) show ?thesis by blast
qed

lemma inv_poll_end:
  assumes inv: "ck_inv (s, g)" and p: "polling g p = Some (e, cr, a)" and aba: "time g < e + 2 ^ 32"
    and s': "poll_rest p (word_of_nat e) cr a s = Some (b, s')"
  shows "ck_inv (s', g\<lparr>polling := (polling g)(p := None), time := (if g_epoch s' = g_epoch s then time g else time g + 1)\<rparr>)"
proof (rule ck_invI)
  let ?t = "if g_epoch s' = g_epoch s then time g else time g + 1"
  let ?g = "g\<lparr>polling := (polling g)(p := None), time := ?t\<rparr>"
  note i = ck_invD [OF inv]
  from poll_end_effect [OF inv p] s' obtain r r' ran where r: "recs s p = Some r" "quiet r r'" and
    s': "s' = s\<lparr>g_epoch := (if cr = NULL \<and> a \<and> g_epoch s = word_of_nat e then word_of_nat e + 1 else g_epoch s),
                 recs := (recs s)(p \<mapsto> r'), calls := calls s @ ran\<rparr>" by auto
  from i(4) p have poll: "in_use p s" "opens (births g) p (\<lambda>_. True) = {}" "e \<le> time g"
    "cr = NULL \<Longrightarrow> a \<Longrightarrow> births g x = Some (q, k) \<Longrightarrow> e \<le> k" for x q k unfolding polls_ok_def by blast+
  have ge: "g_epoch s = word_of_nat (time g)" using i(1) by (simp add: births_ok_def)
  have tick: "cr = NULL \<and> a \<and> time g = e \<and> g_epoch s' = word_of_nat (e + 1)" if "g_epoch s' \<noteq> g_epoch s"
  proof -
    from that have c: "cr = NULL" "a" "g_epoch s = word_of_nat e" by (auto simp: s' split: if_splits)
    then have "(word_of_nat (time g) :: u32) = word_of_nat e" using ge by metis
    then have "time g mod 2 ^ 32 = e mod 2 ^ 32" by (simp add: of_nat_eq_iff word_of_nat_eq_iff take_bit_eq_mod)
    then have "2 ^ 32 dvd time g - e" using poll(3) by (simp add: mod_eq_dvd_iff_nat)
    then have "time g = e" using poll(3) aba nat_dvd_not_less [of "time g - e" "2 ^ 32"] by linarith
    with c show ?thesis by (simp add: s')
  qed
  have t: "time g \<le> ?t" "g_epoch s' = word_of_nat ?t" using tick ge by auto
  have recs': "g_records s' = g_records s" "recs s' = (recs s)(p \<mapsto> r')" "sects s' = sects s" "entry_fun s' = entry_fun s"
    by (simp_all add: s')
  have "?t \<le> k + 1" if "births g x = Some (q, k)" for x q k
    using that i(1) tick poll(4) [OF _ _ that] by (auto simp: births_ok_def)
  then show "births_ok s' ?g" using i(1) t recs'(1,3) by (fastforce simp: births_ok_def)
  have "rec_ok (births g) p r'" 
    using i(2) r poll(1) rec_ok_idle [OF poll(2)] by (auto simp: recs_ok_def in_use_def quiet_def)
  then show "recs_ok s' ?g" using i(2) by (auto simp: recs_ok_def recs')
  have keep: "entry_ok s' ?g j x" if "entry_ok s g j x" for j x using that t(1) recs'(4) by (auto simp: entry_ok_def)
  have "length (pending r) = 4" using i(2) poll(1) r(1) by (auto simp: recs_ok_def in_use_def rec_ok_def)
  then have sub: "x \<in> set (pending r ! j)" if "j < 4" "x \<in> set (pending r' ! j)" for j x using r(2) that unfolding quiet_def by (metis subsetD)
  have "entry_ok s g j x" if "q \<in> set (g_records s)" "((recs s)(p \<mapsto> r')) q = Some r1" "j < 4" "x \<in> set (pending r1 ! j)" for q r1 j x
    using i(3) that r(1) sub [of j x] unfolding entries_ok_def by (cases "q = p") (fastforce, simp)
  then show "entries_ok s' ?g" using keep unfolding entries_ok_def recs' by blast
  show "polls_ok s' ?g"
    by (rule polls_ok_frame [OF i(4)]) (use t(1) in \<open>auto simp: recs' split: if_splits\<close>)
qed

lemma inv_sect_memory:
  assumes "ck_inv (s, g)" and "births g x = None"
  shows "ck_inv (s\<lparr>sects := (sects s)(x := v)\<rparr>, g)"
  using assms by (auto simp: ck_inv_def births_ok_def recs_ok_def entries_ok_def entry_ok_def polls_ok_def in_use_def)

lemma inv_step: "ck_step st st' \<Longrightarrow> ck_inv st \<Longrightarrow> ck_inv st'"
  by (induction rule: ck_step.induct)
    (blast intro: inv_register inv_unregister inv_recycle inv_sect_memory inv_begin inv_end inv_call inv_scan inv_poll_end)+

lemma inv_reach: "ck_reach st \<Longrightarrow> ck_inv st"
proof (induction rule: ck_reach.induct)
  case (ck_start s)
  then show ?case
    by (simp add: ck_inv_def births_ok_def recs_ok_def entries_ok_def polls_ok_def ck_epoch_init_def ghost0_def)
qed (rule inv_step)

lemma record_counts:
  assumes inv: "ck_inv (s, g)" and p: "p \<in> set (g_records s)" "recs s p = Some r"
  shows "unat (rec_active r) = card (opens (births g) p (\<lambda>_. True)) \<and> (rec_active r \<noteq> 0 \<longrightarrow> g_epoch s - rec_epoch r \<in> {0, 1})"
proof (intro conjI impI)
  note i = ck_invD [OF inv]
  from i(2) p have ok: "rec_ok (births g) p r" by (auto simp: recs_ok_def)
  then show act: "unat (rec_active r) = card (opens (births g) p (\<lambda>_. True))" by (simp add: rec_ok_def)
  assume "rec_active r \<noteq> 0"
  then have "opens (births g) p (\<lambda>_. True) \<noteq> {}" using act by (metis card.empty unsigned_eq_0_iff)
  then obtain x k where "births g x = Some (p, k)" by (auto simp: opens_def)
  with ok obtain y k' where y: "births g y = Some (p, k')" "rec_epoch r = word_of_nat k'" unfolding rec_ok_def by blast
  with i(1) have "time g = k' \<or> time g = k' + 1" "g_epoch s = word_of_nat (time g)" unfolding births_ok_def
    by (metis le_antisym le_SucE Suc_eq_plus1, blast)
  with y(2) show "g_epoch s - rec_epoch r \<in> {0, 1}" by auto
qed

lemma end_returns:
  assumes inv: "ck_inv (s, g)" and x: "births g x = Some (p, k)"
  shows "\<exists>s'. ck_epoch_end p x s = Some s'"
proof -
  from ck_invD(1) [OF inv] x have v: "sects s x = Some (word_of_nat (k mod 2))" "x \<noteq> NULL" "p \<in> set (g_records s)"
    by (auto simp: births_ok_def)
  from ck_invD(2) [OF inv] v(3) obtain r where r: "recs s p = Some r" by (rule record_known)
  have "unat (word_of_nat (k mod 2) :: u32) < 2" by (simp add: unat_of_nat)
  with ck_epoch_end_eq [OF r v(1,2)] show ?thesis by simp
qed


text \<open>A callback deferred in a section: it runs in the poll after the end of the section, and in no section.\<close>

definition ck0 :: ck where
  "ck0 = ck_epoch_register 6 (ck_epoch_init \<lparr>g_epoch = 0, g_records = [], n_free = 0, recs = Map.empty, sects = [1 \<mapsto> 0],
     entry_fun = Map.empty, calls = []\<rparr>)"

lemma ck0_run:
  "\<exists>s g. ck_reach (s, g) \<and> polling g 6 = Some (1, NULL, False) \<and> due g 7 = (1, {}) \<and> calls s = [] \<and>
     (\<exists>r. recs s 6 = Some r \<and> pending r = [[], [7], [], []]) \<and> entry_fun s 7 = Some 8"
proof -
  have r0: "ck_reach (ck0, ghost0)" unfolding ck0_def
    by (rule ck_next [OF ck_start ck_step.register]) (simp_all add: ck_epoch_init_def)
  define r1 where "r1 = begin_rec 1 (reset_record 0)"
  define s1 where "s1 = ck0\<lparr>recs := [6 \<mapsto> r1], sects := [1 \<mapsto> 1]\<rparr>"
  define g1 where "g1 = ghost0\<lparr>births := [1 \<mapsto> (6, 1)]\<rparr>"
  have "ck_epoch_begin 6 1 ck0 = Some s1"
    by (simp add: ck_epoch_begin_eq ck0_def s1_def r1_def ck_epoch_register_def ck_epoch_init_def)
  from ck_step.sect_begin [OF _ _ _ _ _ this, of ghost0] have "ck_step (ck0, ghost0) (s1, g1)"
    by (simp add: ghost0_def g1_def opens_def in_use_def ck0_def ck_epoch_register_def ck_epoch_init_def reset_record_def)
  with r0 have reach1: "ck_reach (s1, g1)" by (rule ck_next)
  define r2 where "r2 = r1\<lparr>n_pending := n_pending r1 + 1, pending := [[], [7], [], []]\<rparr>"
  define s2 where "s2 = s1\<lparr>recs := [6 \<mapsto> r2], entry_fun := [7 \<mapsto> 8]\<rparr>"
  define g2 where "g2 = g1\<lparr>due := (due g1)(7 := (1, {1}))\<rparr>"
  have r1: "rec_state r1 = 0" "pending r1 = [[], [], [], []]" by (simp_all add: r1_def begin_rec_simps reset_record_def numeral_eq_Suc)
  have s1: "g_epoch s1 = 1" "g_records s1 = [6]" "recs s1 = [6 \<mapsto> r1]" "entry_fun s1 = Map.empty"
    by (simp_all add: s1_def ck0_def ck_epoch_register_def ck_epoch_init_def)
  have "ck_epoch_call 6 7 8 s1 = Some s2"
    using r1 s1 by (simp add: ck_epoch_call_def s2_def r2_def)
  from ck_step.defer_call [OF _ _ _ this, of g1] have "ck_step (s1, g1) (s2, g2)"
    using r1 s1 by (simp add: in_use_def is_pending_def g2_def g1_def ghost0_def)
  with reach1 have reach2: "ck_reach (s2, g2)" by (rule ck_next)
  define s3 where "s3 = s2\<lparr>recs := [6 \<mapsto> end_rec 1 r2]\<rparr>"
  define g3 where "g3 = g2\<lparr>births := Map.empty, due := (\<lambda>e. (fst (due g2 e), snd (due g2 e) - {1}))\<rparr>"
  have "ck_epoch_end 6 1 s2 = Some s3"
    by (simp add: ck_epoch_end_eq s2_def s1_def s3_def)
  from ck_step.sect_end [OF _ this, of g2 1] have "ck_step (s2, g2) (s3, g3)"
    by (simp add: g3_def g2_def g1_def ghost0_def)
  with reach2 have reach3: "ck_reach (s3, g3)" by (rule ck_next)
  have r3: "rec_state (end_rec 1 r2) = 0" "rec_active (end_rec 1 r2) = 0" "pending (end_rec 1 r2) = [[], [7], [], []]"
    by (simp_all add: end_rec_simps end_rec_active r2_def r1_def begin_rec_simps begin_rec_active reset_record_def)
  have s3: "g_epoch s3 = 1" "g_records s3 = [6]" "recs s3 6 = Some (end_rec 1 r2)"
    using s1 by (simp_all add: s3_def s2_def)
  have "ck_epoch_scan NULL (g_epoch s3) s3 = Some (NULL, False)" using s3 r3 by (simp add: ck_epoch_scan_def)
  from ck_step.poll_scan [OF _ _ _ this, of 6 g3] have "ck_step (s3, g3) (s3, g3\<lparr>polling := [6 \<mapsto> (1, NULL, False)]\<rparr>)"
    using s3 r3 by (simp add: in_use_def opens_def g3_def g2_def g1_def ghost0_def)
  with reach3 have "ck_reach (s3, g3\<lparr>polling := [6 \<mapsto> (1, NULL, False)]\<rparr>)" by (rule ck_next)
  then show ?thesis using s3 r3
    by (intro exI conjI) (auto simp: g3_def g2_def s3_def s2_def s1_def ck0_def ck_epoch_register_def ck_epoch_init_def)
qed

lemma reclaim_all: "ck_epoch_reclaim p s =
  do { s \<leftarrow> ck_epoch_dispatch p 0 s; s \<leftarrow> ck_epoch_dispatch p 1 s; s \<leftarrow> ck_epoch_dispatch p 2 s; ck_epoch_dispatch p 3 s }"
proof -
  have e: "reclaim_from p i (Suc n) = (\<lambda>s. do { s \<leftarrow> ck_epoch_dispatch p (word_of_nat i) s; reclaim_from p (i + 1) n s })"
    "reclaim_from p i 0 = Some" for i n by (simp_all add: fun_eq_iff)
  have "reclaim_from p 0 (Suc (Suc (Suc (Suc 0)))) s = do { s \<leftarrow> ck_epoch_dispatch p 0 s; s \<leftarrow> ck_epoch_dispatch p 1 s;
      s \<leftarrow> ck_epoch_dispatch p 2 s; ck_epoch_dispatch p 3 s }" by (simp add: e del: reclaim_from.simps)
  moreover have "Suc (Suc (Suc (Suc 0))) = CK_EPOCH_LENGTH" by simp
  ultimately show ?thesis unfolding ck_epoch_reclaim_def by argo
qed

lemma ck0_poll:
  assumes "recs s 6 = Some r" and "pending r = [[], [7], [], []]" and "entry_fun s 7 = Some 8" and "calls s = []"
  shows "\<exists>s'. poll_rest 6 (word_of_nat 1) NULL False s = Some (True, s') \<and> calls s' = [(8, 7)]"
  using assms by (simp add: poll_rest_def reclaim_all ck_epoch_dispatch_def Let_def)


end
