(* ===== verification/Concurrent.thy ===== *)
theory Concurrent
  imports Prelude
begin

text \<open>
  The two compare-and-swap loops of \<^verbatim>\<open>src/src/concurrent/concurrent.c\<close>. Other threads may write
  the target at any moment, so round \<open>i\<close> of the loop sees two values of it: \<open>fst (obs i)\<close> at the
  load and \<open>snd (obs i)\<close> at the compare-and-swap, which stores \<open>val\<close> and ends the loop when they
  agree. The result is the round that ended the loop and the value then stored.
\<close>

partial_function (option) cas_loop_int32 ::
    "(nat \<Rightarrow> 32 word \<times> 32 word) \<Rightarrow> 32 word \<Rightarrow> nat \<Rightarrow> (nat \<times> 32 word) option" where
  "cas_loop_int32 obs val i =
     (let snapshot = fst (obs i) in
      if snd (obs i) = snapshot then Some (i, val) else cas_loop_int32 obs val (i + 1))"

partial_function (option) cas_loop_uint32 ::
    "(nat \<Rightarrow> u32 \<times> u32) \<Rightarrow> u32 \<Rightarrow> nat \<Rightarrow> (nat \<times> u32) option" where
  "cas_loop_uint32 obs val i =
     (let snapshot = fst (obs i) in
      if snd (obs i) = snapshot then Some (i, val) else cas_loop_uint32 obs val (i + 1))"

definition quiet :: "(nat \<Rightarrow> u32 \<times> u32) \<Rightarrow> nat \<Rightarrow> bool" where
  "quiet obs i \<longleftrightarrow> fst (obs i) = snd (obs i)"

lemma cas_loop_uint32_result:
  assumes "cas_loop_uint32 obs val i = Some r"
  shows "i \<le> fst r \<and> snd r = val \<and> quiet obs (fst r) \<and> (\<forall>j. i \<le> j \<and> j < fst r \<longrightarrow> \<not> quiet obs j)"
  by (rule cas_loop_uint32.raw_induct [OF _ assms])
    (fastforce simp: Let_def quiet_def Suc_le_eq dest: order_le_imp_less_or_eq split: if_splits)

lemma cas_loop_uint32_returns: "quiet obs n \<Longrightarrow> i \<le> n \<Longrightarrow> \<exists>r. cas_loop_uint32 obs val i = Some r"
proof (induction "n - i" arbitrary: i)
  case 0
  then show ?case by (subst cas_loop_uint32.simps) (auto simp: quiet_def Let_def)
next
  case (Suc k)
  then have "\<exists>r. cas_loop_uint32 obs val (i + 1) = Some r" by (intro Suc.hyps(1)) auto
  then show ?case by (subst cas_loop_uint32.simps) (simp add: Let_def)
qed

lemma cas_loops_agree: "cas_loop_int32 obs val i = cas_loop_uint32 obs val i"
proof (cases "\<exists>n \<ge> i. quiet obs n")
  case True
  then obtain n where "quiet obs n" "i \<le> n" by blast
  then show ?thesis
  proof (induction "n - i" arbitrary: i)
    case 0
    then show ?case
      by (subst cas_loop_uint32.simps, subst cas_loop_int32.simps) (auto simp: quiet_def Let_def)
  next
    case (Suc k)
    then have "cas_loop_int32 obs val (i + 1) = cas_loop_uint32 obs val (i + 1)"
      by (intro Suc.hyps(1)) auto
    then show ?case
      by (subst cas_loop_uint32.simps, subst cas_loop_int32.simps) (simp add: Let_def)
  qed
next
  case False
  have "\<exists>n \<ge> i. quiet obs n" if "cas_loop_int32 obs val i = Some r" for r
    by (rule cas_loop_int32.raw_induct [OF _ that])
      (force simp: Let_def quiet_def split: if_splits dest: Suc_leD)
  with False have "cas_loop_int32 obs val i = None" by (cases "cas_loop_int32 obs val i") auto
  moreover have "cas_loop_uint32 obs val i = None"
    using False cas_loop_uint32_result [of obs val i] by (cases "cas_loop_uint32 obs val i") auto
  ultimately show ?thesis by simp
qed

text \<open>A compare-and-swap loop ends in round \<open>n\<close> with the new value stored exactly when \<open>n\<close> is the
  first round in which no other thread changed the target between the load and the swap; it runs
  forever exactly when there is no such round. The signed and the unsigned loop agree.\<close>

lemma cas_loop_first_quiet_round:
  "(cas_loop_uint32 obs val 0 = Some (n, v) \<longleftrightarrow>
      v = val \<and> quiet obs n \<and> (\<forall>j < n. \<not> quiet obs j)) \<and>
   (cas_loop_uint32 obs val 0 = None \<longleftrightarrow> (\<forall>j. \<not> quiet obs j)) \<and>
   cas_loop_int32 obs val 0 = cas_loop_uint32 obs val 0"
proof -
  have "cas_loop_uint32 obs val 0 = Some (n, v)"
    if a: "v = val \<and> quiet obs n \<and> (\<forall>j < n. \<not> quiet obs j)"
  proof -
    from a cas_loop_uint32_returns [of obs n 0 val] obtain r where
      r: "cas_loop_uint32 obs val 0 = Some r" by auto
    from cas_loop_uint32_result [OF r] a have "snd r = v" "\<not> fst r < n" "\<not> n < fst r" by auto
    with r show ?thesis by (cases r) auto
  qed
  moreover have "v = val \<and> quiet obs n \<and> (\<forall>j < n. \<not> quiet obs j)"
    if "cas_loop_uint32 obs val 0 = Some (n, v)"
    using cas_loop_uint32_result [OF that] by auto
  moreover have "cas_loop_uint32 obs val 0 = None \<longleftrightarrow> (\<forall>j. \<not> quiet obs j)"
    using cas_loop_uint32_returns [of obs _ 0 val] cas_loop_uint32_result [of obs val 0]
    by (cases "cas_loop_uint32 obs val 0") fastforce+
  ultimately show ?thesis using cas_loops_agree by blast
qed

end
