(* ===== verification/Crypto.thy ===== *)
theory Crypto
  imports Epoch
begin

text \<open>
  Model of \<^verbatim>\<open>src/src/crypto/crypto.c\<close>: random numbers in a range, the digest functions and the
  set-up of the module. The big number and digest functions of LibreSSL and \<open>rand\<close> are external
  calls; \<open>digest s n msg i\<close> is byte \<open>i\<close> of the \<open>n\<close>-bit digest of \<open>msg\<close>. What the bounds rely on of
  \<open>BN_rand_range\<close> is the predicate \<open>bn_contract\<close>. An out parameter is an argument with the old value
  and a component of the result with the new one.
\<close>

datatype crypto_method = CRYPTO | NO_CRYPTO

text \<open>The two functions \<open>rand_range_pointer\<close> may point at; \<open>None\<close> is \<open>NULL\<close>.\<close>

datatype rand_fun = Rand_range_crypto | Rand_range_no_crypto

record crypto = epoch +
  rand_range_pointer :: "rand_fun option"
  software_prng :: int
  crypto_setup :: int
  digest :: "nat \<Rightarrow> u8 list \<Rightarrow> nat \<Rightarrow> u8"

section \<open>Random numbers in a range\<close>

definition default_rand_range :: "u32 \<Rightarrow> u32 \<Rightarrow> 'z os_scheme \<Rightarrow> int \<times> u32 \<times> 'z os_scheme" where
  "default_rand_range rng number s =
     (let (random, s) = ext ''BN_new'' [] s in
      if random = 0 then (-1, number, printf ''Can't init bignum struct'' s)
      else let (range1, s) = ext ''BN_new'' [] s in
      if range1 = 0 then (-1, number, printf ''Can't init bignum struct'' s)
      else let (rtrn, s) = ext ''BN_set_word'' [uint (rng + 1)] s in
      if rtrn < 0 then (-1, number, printf ''Can't set range'' s)
      else let ((rtrn, r), s) = ext2 ''BN_rand_range'' [if rtrn = 0 then 0 else uint (rng + 1)] s in
      if rtrn < 0 then (-1, number, printf ''Can't get random range'' s)
      else let (buf, s) = ext ''BN_bn2dec'' [r] s in
      if buf = 0 then (-1, number, printf ''Can't convert random number'' s)
      else (0, word_of_int r, s))"

definition default_seed_prng :: int where
  "default_seed_prng = 0"

text \<open>The generator object: \<open>bytes\<close> is left as \<open>malloc\<close> delivered it.\<close>

definition get_default_random_generator :: "'z os_scheme \<Rightarrow> ptr \<times> 'z os_scheme" where
  "get_default_random_generator s =
     (let (random, s) = default_mem_alloc 24 s in
      if random = NULL then (NULL, console_output ERROR ''Random generator allocation failed'' s)
      else (random, s))"

definition using_hardware_prng :: "'z crypto_scheme \<Rightarrow> int" where
  "using_hardware_prng s = software_prng s"

text \<open>A modulus of zero traps.\<close>

definition rand_range_no_crypto :: "u32 \<Rightarrow> u32 \<Rightarrow> 'z os_scheme \<Rightarrow> (int \<times> u32 \<times> 'z os_scheme) option" where
  "rand_range_no_crypto rng number s =
     (let (r, s) = ext ''rand'' [] s in
      if rng = 0 then None else Some (0, word_of_int r mod rng + 1, s))"

definition rand_bytes :: "ptr \<Rightarrow> u32 \<Rightarrow> 'z os_scheme \<Rightarrow> (int \<times> 'z os_scheme) option" where
  "rand_bytes buf len s =
     do { (rtrn, s) \<leftarrow> ext_fill ''RAND_bytes'' [uint len] buf (unat len) s;
          if rtrn \<noteq> 1 then Some (-1, printf ''Can't get random bytes'' s)
          else do { s \<leftarrow> store_bytes buf (unat len) [0] s; Some (0, s) } }"

definition rand_range_crypto :: "u32 \<Rightarrow> u32 \<Rightarrow> 'z os_scheme \<Rightarrow> int \<times> u32 \<times> 'z os_scheme" where
  "rand_range_crypto rng number s =
     (let (random, s) = ext ''BN_new'' [] s in
      if random = 0 then (-1, number, printf ''Can't init bignum struct'' s)
      else let (range1, s) = ext ''BN_new'' [] s in
      if range1 = 0 then (-1, number, printf ''Can't init bignum struct'' s)
      else let (rtrn, s) = ext ''BN_set_word'' [uint (rng + 1)] s in
      if rtrn < 0 then (-1, number, printf ''Can't set range'' s)
      else let ((rtrn, r), s) = ext2 ''BN_rand_range'' [if rtrn = 0 then 0 else uint (rng + 1)] s in
      if rtrn < 0 then (-1, number, printf ''Can't get random range'' s)
      else let (buf, s) = ext ''BN_bn2dec'' [r] s in
      if buf = 0 then (-1, number, printf ''Can't convert random number'' s)
      else (0, word_of_int r, s))"

text \<open>The third branch of \<open>setup_rand_range\<close> is for values outside the enumeration.\<close>

definition setup_rand_range :: "crypto_method \<Rightarrow> 'z crypto_scheme \<Rightarrow> int \<times> 'z crypto_scheme" where
  "setup_rand_range meth s =
     (case meth of
        NO_CRYPTO \<Rightarrow> (0, s\<lparr>rand_range_pointer := Some Rand_range_no_crypto\<rparr>)
      | CRYPTO \<Rightarrow> (0, s\<lparr>rand_range_pointer := Some Rand_range_crypto\<rparr>))"

definition rand_range :: "u32 \<Rightarrow> u32 \<Rightarrow> 'z crypto_scheme \<Rightarrow> (int \<times> u32 \<times> 'z crypto_scheme) option" where
  "rand_range rng number s =
     (if crypto_setup s \<noteq> 1 then Some (-1, number, printf ''Call setup crypto first'' s)
      else case rand_range_pointer s of
             None \<Rightarrow> None
           | Some Rand_range_crypto \<Rightarrow> Some (rand_range_crypto rng number s)
           | Some Rand_range_no_crypto \<Rightarrow> rand_range_no_crypto rng number s)"

definition setup_hardware_acceleration :: "'z os_scheme \<Rightarrow> int \<times> 'z os_scheme" where
  "setup_hardware_acceleration s =
     (let (engine, s) = ext ''ENGINE_by_id'' [] s in
      if engine = 0 then (1, printf ''No intel random number generator detected'' s)
      else let (rtrn, s) = ext ''ENGINE_init'' [engine] s in
      if rtrn = 0 then (-1, printf ''Can't init crypto engine'' s)
      else let (rtrn, s) = ext ''ENGINE_set_default'' [engine] s in
      if rtrn = 0 then (-1, printf ''Can't set default method'' s)
      else (0, s))"

section \<open>Digests\<close>

text \<open>The characters of the C string at \<open>p\<close>; without a terminator in the block, reading it is
  undefined.\<close>

definition cstr :: "ptr \<Rightarrow> 'z os_scheme \<Rightarrow> u8 list option" where
  "cstr p s =
     do { n \<leftarrow> heap s p;
          let bs = map (bytes s p) [0..<unat n];
          if 0 \<in> set bs then Some (takeWhile (\<lambda>b. b \<noteq> 0) bs) else None }"

definition hex_digit :: "u8 \<Rightarrow> u8" where
  "hex_digit n = (if n < 10 then n + 48 else n + 87)"

text \<open>What \<open>sprintf\<close> prints for \<open>"%02x"\<close>.\<close>

definition hex_byte :: "u8 \<Rightarrow> u8 list" where
  "hex_byte b = [hex_digit (b div 16), hex_digit (b mod 16)]"

definition hex :: "u8 list \<Rightarrow> u8 list" where
  "hex bs = concat (map hex_byte bs)"

definition sha512 :: "ptr \<Rightarrow> ptr \<Rightarrow> 'z crypto_scheme \<Rightarrow> (int \<times> ptr \<times> 'z crypto_scheme) option" where
  "sha512 inp out s =
     (let (rtrn, s) = ext ''SHA512_Init'' [] s in
      if rtrn < 0 then Some (-1, out, printf ''Sha init'' s)
      else do {
        msg \<leftarrow> cstr inp s;
        let (rtrn, s) = ext ''SHA512_Update'' [int (length msg)] s;
        if rtrn < 0 then Some (-1, out, printf ''Can't update input string'' s)
        else let (rtrn, s) = ext ''SHA512_Final'' [] s in
        if rtrn < 0 then Some (-1, out, printf ''Can't do this'' s)
        else let (out, s) = malloc 129 s in
        if out = NULL then Some (-1, out, printf ''Can't allocate output buf'' s)
        else do { s \<leftarrow> store_bytes out 0 (hex (map (digest s 512 msg) [0..<64])) s;
                  s \<leftarrow> store_bytes out 128 [0] s;
                  Some (0, out, s) } })"

definition sha256 :: "ptr \<Rightarrow> ptr \<Rightarrow> 'z crypto_scheme \<Rightarrow> (int \<times> ptr \<times> 'z crypto_scheme) option" where
  "sha256 inp out s =
     (let (rtrn, s) = ext ''SHA256_Init'' [] s in
      if rtrn < 0 then Some (-1, out, printf ''Sha Init Error'' s)
      else do {
        msg \<leftarrow> cstr inp s;
        let (rtrn, s) = ext ''SHA256_Update'' [int (length msg)] s;
        if rtrn < 0 then Some (-1, out, printf ''Sha Update Error'' s)
        else let (rtrn, s) = ext ''SHA256_Final'' [] s in
        if rtrn < 0 then Some (-1, out, printf ''Sha Final Error'' s)
        else let (out, s) = malloc 65 s in
        if out = NULL then Some (-1, out, printf ''Can't allocate output buf'' s)
        else do { s \<leftarrow> store_bytes out 0 (hex (map (digest s 256 msg) [0..<32])) s;
                  s \<leftarrow> store_bytes out 64 [0] s;
                  Some (0, out, s) } })"

section \<open>Seeding and set-up\<close>

text \<open>\<open>auto_free\<close> and \<open>auto_close\<close> of \<^verbatim>\<open>src/src/utils/autofree.h\<close> and \<^verbatim>\<open>autoclose.h\<close>.\<close>

definition cleanup_buf :: "ptr \<Rightarrow> 'z os_scheme \<Rightarrow> 'z os_scheme option" where
  "cleanup_buf p s = (if p = NULL then Some s else free p s)"

definition close_fd :: "int \<Rightarrow> 'z os_scheme \<Rightarrow> 'z os_scheme" where
  "close_fd fd s = (if fd = 0 then s else snd (ext ''close'' [fd] s))"

text \<open>The cleanup of the three \<open>auto\<close> variables of \<open>seed_prng\<close>, last declared first.\<close>

definition seed_return ::
    "int \<Rightarrow> ptr \<Rightarrow> int \<Rightarrow> ptr \<Rightarrow> 'z crypto_scheme \<Rightarrow> (int \<times> 'z crypto_scheme) option" where
  "seed_return rtrn hash fd buf s =
     do { s \<leftarrow> cleanup_buf buf s; let s = close_fd fd s; s \<leftarrow> cleanup_buf hash s; Some (rtrn, s) }"

fun seed_loop ::
    "nat \<Rightarrow> ptr \<Rightarrow> int \<Rightarrow> ptr \<Rightarrow> 'z crypto_scheme \<Rightarrow> (int \<times> 'z crypto_scheme) option" where
  "seed_loop 0 hash fd buf s = seed_return 0 hash fd buf s"
| "seed_loop (Suc n) hash fd buf s =
     do { (rtrn, buf_len, s) \<leftarrow> rand_range 4096 0 s;
          if rtrn < 0 then seed_return (-1) hash fd buf (printf ''Can't generate random number'' s)
          else do {
            (buf', s) \<leftarrow> realloc buf (ucast buf_len + 1) s;
            if buf' = NULL then seed_return (-1) hash fd buf' (printf ''realloc: %s'' s)
            else do {
              (ret, s) \<leftarrow> ext_fill ''read'' [fd, uint buf_len] buf' (unat buf_len) s;
              if ret \<noteq> uint buf_len then seed_return (-1) hash fd buf' (printf ''read: %s'' s)
              else do {
                s \<leftarrow> store_bytes buf' (unat buf_len) [0] s;
                (rtrn, hash', s) \<leftarrow> sha512 buf' hash s;
                if rtrn < 0 then seed_return (-1) hash' fd buf' (printf ''can't SHA512 buffer'' s)
                else let s = snd (ext ''RAND_add'' [128, 64] s) in seed_loop n hash' fd buf' s } } } }"

definition seed_prng :: "'z crypto_scheme \<Rightarrow> (int \<times> 'z crypto_scheme) option" where
  "seed_prng s =
     (let (buf, s) = malloc 6000 s in
      if buf = NULL then seed_return (-1) NULL 0 buf (printf ''Can't allocate random buffer'' s)
      else let (fd, s) = ext ''open'' [] s in
      if fd < 0 then seed_return (-1) NULL fd buf (printf ''open '/dev/urandom': %s'' s)
      else do {
        (ret, s) \<leftarrow> ext_fill ''read'' [fd, 5999] buf 5999 s;
        if ret \<noteq> 5999 then seed_return (-1) NULL fd buf (printf ''read: %s'' s)
        else do {
          s \<leftarrow> store_bytes buf 5999 [0] s;
          (rtrn, hash, s) \<leftarrow> sha512 buf NULL s;
          if rtrn < 0 then seed_return (-1) hash fd buf (printf ''can't SHA512 buffer'' s)
          else let s = snd (ext ''RAND_add'' [128, 64] s) in do {
            (rtrn, loops, s) \<leftarrow> rand_range 256 0 s;
            if rtrn < 0 then seed_return (-1) hash fd buf (printf ''Can't generate random number'' s)
            else seed_loop (unat loops) hash fd buf s } } })"

definition setup_crypto_module :: "crypto_method \<Rightarrow> 'z crypto_scheme \<Rightarrow> (int \<times> 'z crypto_scheme) option" where
  "setup_crypto_module meth s =
     (let s = printf ''Setting up crypto'' s in
      if crypto_setup s = 1 then Some (-1, printf ''Crypto already setup'' s)
      else
        let s = snd (ext ''OpenSSL_add_all_ciphers'' [] s);
            s = snd (ext ''OpenSSL_add_all_digests'' [] s);
            (rtrn, s) = setup_rand_range meth s in
        if rtrn < 0 then Some (-1, printf ''Can't setup random range function.'' s)
        else if meth = NO_CRYPTO then Some (0, s\<lparr>crypto_setup := 1\<rparr>)
        else
          let (rtrn, s) = setup_hardware_acceleration s in
          if rtrn = 0
          then Some (0, (printf ''Using hardware crypto PRNG'' s)\<lparr>software_prng := 0, crypto_setup := 1\<rparr>)
          else if rtrn = 1
          then seed_prng ((printf ''Seeding PRNG'' (printf ''Switching to /dev/urandom '' s))
                 \<lparr>software_prng := 1, crypto_setup := 1\<rparr>)
          else Some (-1, printf ''Error while trying to setup hardware acceleration'' s))"

section \<open>Bounds of the random numbers\<close>

text \<open>What the documentation of \<open>BN_rand_range\<close> promises: it returns 1 and a number below the range,
  or 0, which it does for an empty range without touching the result, here a new number, that is 0.\<close>

definition bn_contract :: "'z os_scheme \<Rightarrow> bool" where
  "bn_contract s \<longleftrightarrow> (\<forall>k r c v. answer s k ''BN_rand_range'' [r] = (c, v) \<longrightarrow>
     (c = 0 \<or> c = 1) \<and> (c = 1 \<longrightarrow> 0 \<le> v \<and> v < r) \<and> (r = 0 \<longrightarrow> c = 0 \<and> v = 0))"

text \<open>The library does not run out of memory; it does not run out of entropy either.\<close>

definition bn_alloc_ok :: "'z os_scheme \<Rightarrow> bool" where
  "bn_alloc_ok s \<longleftrightarrow> (\<forall>k r. fst (answer s k ''BN_new'' []) \<noteq> 0 \<and>
     fst (answer s k ''BN_set_word'' [r]) = 1 \<and> fst (answer s k ''BN_bn2dec'' [r]) \<noteq> 0)"

definition bn_works :: "'z os_scheme \<Rightarrow> bool" where
  "bn_works s \<longleftrightarrow> bn_alloc_ok s \<and> (\<forall>k r. 0 < r \<longrightarrow> fst (answer s k ''BN_rand_range'' [r]) = 1)"

lemma ext2_simps [simp]:
  "fst (ext2 f a s) = answer s (length (trace s)) f a"
  "answer (snd (ext2 f a s)) = answer s"
  by (simp_all add: ext2_def)

lemma ext_eq: "ext f a s = (fst (answer s (length (trace s)) f a), s\<lparr>trace := trace s @ [(f, a)]\<rparr>)"
  by (simp add: ext_def ext2_def)

lemma bn_contractD:
  assumes "bn_contract s" and "answer s k ''BN_rand_range'' [r] = (c, v)"
  shows "c = 0 \<or> c = 1" and "c = 1 \<Longrightarrow> 0 \<le> v \<and> v < r" and "r = 0 \<Longrightarrow> c = 0 \<and> v = 0"
  using assms unfolding bn_contract_def by blast+

lemma default_rand_range_draw:
  assumes "bn_alloc_ok s" and "answer s (length (trace s) + 3) ''BN_rand_range'' [uint (rng + 1)] = (c, v)"
    and "\<not> c < 0"
  shows "\<exists>s'. default_rand_range rng n s = (0, word_of_int v, s')"
  using assms unfolding bn_alloc_ok_def default_rand_range_def
  by (simp add: ext_eq ext2_def numeral_3_eq_3)

lemma default_rand_range_bound:
  assumes c: "bn_contract s" and w: "bn_works s"
  shows "\<exists>m s'. default_rand_range rng n s = (0, m, s') \<and> m \<le> rng \<and> (rng = - 1 \<longrightarrow> m = 0)"
proof -
  obtain code v where a: "answer s (length (trace s) + 3) ''BN_rand_range'' [uint (rng + 1)] = (code, v)"
    by fastforce
  note cv = bn_contractD [OF c a]
  from w have "bn_alloc_ok s" by (simp add: bn_works_def)
  from default_rand_range_draw [OF this a, of n] cv(1) obtain s' where
    run: "default_rand_range rng n s = (0, word_of_int v, s')" by auto
  show ?thesis
  proof (cases "rng + 1 = 0")
    case True
    then have "v = 0" using cv(3) by simp
    with run True show ?thesis by auto
  next
    case False
    then have "0 < uint (rng + 1)" by (metis uint_0_iff uint_nonnegative less_le)
    then have "code = 1" using w a unfolding bn_works_def by (metis fst_conv)
    with cv(2) have v: "0 \<le> v" "v < uint rng + 1" using uint_plus1_u32 [OF False] by auto
    then have "uint (word_of_int v :: u32) = v"
      using uint_bounded [of rng] by (simp add: uint_word_of_int_eq take_bit_int_eq_self)
    with v have "word_of_int v \<le> rng" by (simp add: word_le_def)
    moreover have "rng \<noteq> - 1" using False by auto
    ultimately show ?thesis using run by blast
  qed
qed

text \<open>C23. When the big number library works as documented, a request for a number in a range always
  succeeds and delivers a number between zero and the range, the range included; for the largest
  32-bit range, where the range plus one wraps to zero, it always delivers zero. The two generators
  in the source are the same function.\<close>

theorem rand_range_inclusive:
  assumes "bn_contract s" and "bn_works s"
  shows "(\<exists>m s'. default_rand_range rng n s = (0, m, s') \<and> m \<le> rng \<and> (rng = - 1 \<longrightarrow> m = 0)) \<and>
         rand_range_crypto rng n s = default_rand_range rng n s"
  using default_rand_range_bound [OF assms]
  by (simp add: rand_range_crypto_def default_rand_range_def)

text \<open>A library that always answers one below the range.\<close>

definition bn_answer :: "nat \<Rightarrow> string \<Rightarrow> int list \<Rightarrow> int \<times> int" where
  "bn_answer k f a = (if f = ''BN_rand_range'' then (if a = [0] then (0, 0) else if 0 < hd a then (1, hd a - 1) else (0, 0))
                      else (1, 0))"

lemma bn_answer_ok: "bn_contract (os0\<lparr>answer := bn_answer\<rparr>)" "bn_works (os0\<lparr>answer := bn_answer\<rparr>)"
  by (simp_all add: bn_contract_def bn_works_def bn_alloc_ok_def bn_answer_def)

theorem rand_range_inclusive_witness:
  "\<exists>m s'. default_rand_range 9 0 (os0\<lparr>answer := bn_answer\<rparr>) = (0, m, s') \<and> m \<le> 9"
  using rand_range_inclusive [OF bn_answer_ok, of 9 0] by auto

text \<open>A failure of \<open>BN_rand_range\<close>, which returns 0 and not a negative number, is not noticed: the
  function reports success and delivers whatever the number structure holds, truncated to 32 bits.\<close>

lemma rand_range_failure_ignored:
  assumes "bn_alloc_ok s"
    and "answer s (length (trace s) + 3) ''BN_rand_range'' [uint (rng + 1)] = (0, v)"
  shows "\<exists>s'. default_rand_range rng n s = (0, word_of_int v, s')"
  using default_rand_range_draw [OF assms] by simp

text \<open>The non-cryptographic generator delivers a number from one to the range, never zero, and
  traps for the range zero.\<close>

lemma rand_range_no_crypto_bounds:
  "(case rand_range_no_crypto rng n s of
      None \<Rightarrow> rng = 0
    | Some (rtrn, m, s') \<Rightarrow> rng \<noteq> 0 \<and> rtrn = 0 \<and> 1 \<le> m \<and> m \<le> rng)"
proof (cases "rng = 0")
  case True
  then show ?thesis by (simp add: rand_range_no_crypto_def ext_eq)
next
  case False
  let ?r = "word_of_int (fst (answer s (length (trace s)) ''rand'' [])) :: u32"
  have lt: "?r mod rng < rng" using False by (simp add: word_mod_less_divisor word_neq_0_conv)
  then have "?r mod rng + 1 \<le> rng" by (rule inc_le)
  moreover have "?r mod rng + 1 \<noteq> 0"
    using lt by (metis eq_neg_iff_add_eq_0 word_order.extremum_strict)
  then have "1 \<le> ?r mod rng + 1" by (simp add: word_le_nat_alt Suc_le_eq unat_gt_0)
  ultimately show ?thesis using False by (simp add: rand_range_no_crypto_def ext_eq)
qed

section \<open>Digests in hexadecimal\<close>

definition unhex_digit :: "u8 \<Rightarrow> u8" where
  "unhex_digit c = (if c < 58 then c - 48 else c - 87)"

fun unhex :: "u8 list \<Rightarrow> u8 list" where
  "unhex (a # b # cs) = (unhex_digit a * 16 + unhex_digit b) # unhex cs"
| "unhex _ = []"

lemma unhex_hex_digit: "n < 16 \<Longrightarrow> unhex_digit (hex_digit n) = n"
  unfolding unhex_digit_def hex_digit_def
  by (auto simp: word_less_nat_alt unat_word_ariths not_less)

lemma length_hex: "length (hex bs) = 2 * length bs"
  by (induction bs) (auto simp: hex_def hex_byte_def)

lemma unhex_hex: "unhex (hex bs) = bs"
proof (induction bs)
  case Nil
  then show ?case by (simp add: hex_def)
next
  case (Cons b bs)
  have "b div 16 < 16" "b mod 16 < 16"
    using unat_u8_less [of b] by (auto simp: word_less_nat_alt unat_div_distrib unat_mod_distrib)
  then have "unhex_digit (hex_digit (b div 16)) * 16 + unhex_digit (hex_digit (b mod 16)) = b"
    by (simp add: unhex_hex_digit word_mod_div_equality)
  with Cons show ?case by (simp add: hex_def hex_byte_def)
qed

lemma store_bytes_get:
  assumes "store_bytes p off bs s = Some s'"
  shows "bytes s' p i = (if off \<le> i \<and> i < off + length bs then bs ! (i - off) else bytes s p i)"
  using assms by (auto simp: store_bytes_def split: if_splits)


section \<open>What the operations leave alone\<close>

definition reads :: "'z os_scheme \<Rightarrow> nat" where
  "reads s = length (filter (\<lambda>c. fst c = ''read'') (trace s))"

text \<open>No effect on the heap, on the set-up of the module, or on the files read.\<close>

definition calm :: "'z crypto_scheme \<Rightarrow> 'z crypto_scheme \<Rightarrow> bool" where
  "calm s s' \<longleftrightarrow> heap s' = heap s \<and> regions s' = regions s \<and> fresh s' = fresh s \<and>
     rand_range_pointer s' = rand_range_pointer s \<and> crypto_setup s' = crypto_setup s \<and>
     software_prng s' = software_prng s \<and> reads s' = reads s"

lemma calm_refl [simp]: "calm s s"
  by (simp add: calm_def)

lemma calm_trans: "calm s s' \<Longrightarrow> calm s' s'' \<Longrightarrow> calm s s''"
  by (simp add: calm_def)

lemma calm_trace [simp]: "f \<noteq> ''read'' \<Longrightarrow> calm s (s\<lparr>trace := trace s @ [(f, a)]\<rparr>)"
  by (simp add: calm_def reads_def)

lemma calm_console [simp]: "calm s (s\<lparr>console := c\<rparr>)"
  by (simp add: calm_def reads_def)

lemma calm_bytes [simp]: "calm s (s\<lparr>bytes := c\<rparr>)"
  by (simp add: calm_def reads_def)

lemma wf_os_calm: "calm s s' \<Longrightarrow> wf_os s' = wf_os s"
  by (auto simp: calm_def wf_os_def)

lemma rand_range_calm:
  assumes "rand_range rng n s = Some (r, m, s')"
  shows "calm s s'"
  using assms unfolding rand_range_def rand_range_crypto_def rand_range_no_crypto_def ext_eq ext2_def printf_def
  by (auto simp: calm_def reads_def split: if_splits option.splits rand_fun.splits prod.splits)

lemma store_bytes_calm: "store_bytes p off bs s = Some s' \<Longrightarrow> calm s s'"
  by (auto simp: store_bytes_def split: if_splits)

lemma ext_fill_read:
  assumes "ext_fill ''read'' args p n s = Some (r, s')"
  shows "heap s' = heap s \<and> regions s' = regions s \<and> fresh s' = fresh s \<and>
     rand_range_pointer s' = rand_range_pointer s \<and> crypto_setup s' = crypto_setup s \<and>
     software_prng s' = software_prng s \<and> reads s' = reads s + 1"
  using assms by (auto simp: ext_fill_def ext_eq store_bytes_def reads_def Let_def split: if_splits)

lemma sha512_cases:
  assumes "sha512 inp out s = Some (r, out', s')" and "0 < fresh s"
  shows "(r = -1 \<or> r = 0 \<and> out' = fresh s \<and> heap s' = (heap s)(fresh s \<mapsto> 129) \<and> fresh s' = fresh s + 1) \<and>
     regions s' = regions s \<and> rand_range_pointer s' = rand_range_pointer s \<and>
     crypto_setup s' = crypto_setup s \<and> software_prng s' = software_prng s \<and> reads s' = reads s"
proof (cases "cstr inp (s\<lparr>trace := trace s @ [(''SHA512_Init'', [])]\<rparr>)")
  case None
  with assms show ?thesis unfolding sha512_def ext_eq printf_def
    by (auto simp: Let_def reads_def split: if_splits)
next
  case (Some msg)
  with assms show ?thesis unfolding sha512_def ext_eq printf_def malloc_def store_bytes_def
    by (auto simp: Let_def reads_def split: if_splits)
qed

lemma realloc_cases:
  assumes "realloc p n s = Some (q, s')" and "q \<noteq> NULL"
  shows "q = fresh s \<and> heap s' = (heap s)(fresh s \<mapsto> n, p := None) \<and> regions s' = regions s \<and>
     fresh s' = fresh s + 1 \<and> trace s' = trace s"
  using assms by (auto simp: realloc_def malloc_def split: if_splits)

lemma realloc_crypto:
  assumes "realloc p n s = Some (q, s')"
  shows "rand_range_pointer s' = rand_range_pointer s \<and> crypto_setup s' = crypto_setup s \<and>
     software_prng s' = software_prng s \<and> reads s' = reads s"
  using assms by (auto simp: realloc_def malloc_def reads_def split: if_splits)

lemma seed_return_code: "seed_return c hash fd buf s = Some (r, s') \<Longrightarrow> r = c"
  by (auto simp: seed_return_def elim!: bind_SomeE)

lemma seed_return_failed [simp]: "seed_return (-1) hash fd buf s \<noteq> Some (0, s')"
  by (auto dest: seed_return_code)

lemma seed_return_frees:
  assumes "seed_return c hash fd buf s = Some (r, s')" and "finite (dom (heap s))"
    and "heap s buf \<noteq> None" and "heap s hash \<noteq> None" and "buf \<noteq> hash" and "buf \<noteq> NULL" and "hash \<noteq> NULL"
  shows "card (dom (heap s')) + 2 = card (dom (heap s)) \<and> reads s' = reads s \<and>
     rand_range_pointer s' = rand_range_pointer s \<and> crypto_setup s' = crypto_setup s \<and>
     software_prng s' = software_prng s"
proof -
  from assms have heap: "heap s' = (heap s)(buf := None, hash := None)" and
    same: "reads s' = reads s" "rand_range_pointer s' = rand_range_pointer s"
      "crypto_setup s' = crypto_setup s" "software_prng s' = software_prng s"
    by (auto simp: seed_return_def cleanup_buf_def free_def close_fd_def ext_eq reads_def Let_def
        split: if_splits)
  have "dom (heap s') = dom (heap s) - {buf, hash}" using heap by auto
  moreover have "{buf, hash} \<subseteq> dom (heap s)" "card {buf, hash} = 2" using assms by auto
  ultimately show ?thesis
    using same assms(2) card_mono [of "dom (heap s)" "{buf, hash}"]
    by (simp add: card_Diff_subset)
qed

text \<open>One pass of the loop replaces the read buffer and adds a digest; the previous digest stays
  allocated with no pointer to it.\<close>

lemma seed_loop_step:
  assumes run: "seed_loop (Suc n) hash fd buf s = Some (0, s')" and wf: "wf_os s"
    and fin: "finite (dom (heap s))" and buf: "heap s buf \<noteq> None" and hash: "heap s hash \<noteq> None"
    and ne: "buf \<noteq> hash" "buf \<noteq> NULL"
  obtains s1 where "seed_loop n (fresh s + 1) fd (fresh s) s1 = Some (0, s')" and "wf_os s1"
    and "finite (dom (heap s1))" and "card (dom (heap s1)) = card (dom (heap s)) + 1"
    and "heap s1 (fresh s) \<noteq> None" and "heap s1 (fresh s + 1) \<noteq> None" and "reads s1 = reads s + 1"
    and "rand_range_pointer s1 = rand_range_pointer s" and "crypto_setup s1 = crypto_setup s"
    and "software_prng s1 = software_prng s"
proof -
  from run obtain rtrn len a where a: "rand_range 4096 0 s = Some (rtrn, len, a)"
    by (cases "rand_range 4096 0 s") auto
  from rand_range_calm [OF a] have ca: "calm s a" .
  from run a have "\<not> rtrn < 0" by auto
  with run a obtain q b where b: "realloc buf (ucast len + 1) a = Some (q, b)"
    by (cases "realloc buf (ucast len + 1) a") auto
  with run a \<open>\<not> rtrn < 0\<close> have q: "q \<noteq> NULL" by (auto split: if_splits)
  note rb = realloc_cases [OF b q] realloc_crypto [OF b]
  from run a \<open>\<not> rtrn < 0\<close> b q obtain ret c where
    c: "ext_fill ''read'' [fd, uint len] q (unat len) b = Some (ret, c)"
    by (cases "ext_fill ''read'' [fd, uint len] q (unat len) b") auto
  note rc = ext_fill_read [OF c]
  from run a \<open>\<not> rtrn < 0\<close> b q c have "ret = uint len" by (auto split: if_splits)
  with run a \<open>\<not> rtrn < 0\<close> b q c obtain d where d: "store_bytes q (unat len) [0] c = Some d"
    by (cases "store_bytes q (unat len) [0] c") auto
  note rd = store_bytes_calm [OF d]
  from run a \<open>\<not> rtrn < 0\<close> b q c \<open>ret = uint len\<close> d obtain r h e where e: "sha512 q hash d = Some (r, h, e)"
    by (cases "sha512 q hash d") auto
  have f: "fresh d = fresh s + 1" using ca rb rc rd by (simp add: calm_def)
  note re = sha512_cases [OF e, unfolded f]
  let ?s1 = "snd (ext ''RAND_add'' [128, 64] e)"
  from run a \<open>\<not> rtrn < 0\<close> b q c \<open>ret = uint len\<close> d e have "\<not> r < 0"
    by (auto split: if_splits)
  with re have h: "h = fresh s + 1" "heap e = (heap d)(fresh s + 1 \<mapsto> 129)" "fresh e = fresh s + 2" by auto
  have heap1: "heap ?s1 = (heap s)(fresh s \<mapsto> ucast len + 1, buf := None, fresh s + 1 \<mapsto> 129)"
    using h(2) rd rc rb ca by (simp add: calm_def ext_eq)
  have fr: "heap s (fresh s) = None" "heap s (fresh s + 1) = None" "buf \<noteq> fresh s" "buf \<noteq> fresh s + 1"
    "regions s (fresh s) = None" "regions s (fresh s + 1) = None"
    using wf buf unfolding wf_os_def by (metis less_irrefl not_None_eq not_add_less1)+
  show thesis
  proof (rule that [of ?s1])
    show "seed_loop n (fresh s + 1) fd (fresh s) ?s1 = Some (0, s')"
      using run a \<open>\<not> rtrn < 0\<close> b q c \<open>ret = uint len\<close> d e \<open>\<not> r < 0\<close> h(1) rb ca
      by (simp add: calm_def)
    show "wf_os ?s1"
      unfolding wf_os_def heap1 using wf h(3) re rd rc rb ca fr
      by (auto simp: wf_os_def calm_def ext_eq less_Suc_eq split: if_splits)
    show "finite (dom (heap ?s1))" unfolding heap1 using fin by simp
    have "dom (heap ?s1) = insert (fresh s + 1) (insert (fresh s) (dom (heap s) - {buf}))"
      unfolding heap1 using fr by auto
    moreover have "card (dom (heap s) - {buf}) + 1 = card (dom (heap s))"
      using buf fin by (metis Suc_eq_plus1 card_Suc_Diff1 domIff)
    ultimately show "card (dom (heap ?s1)) = card (dom (heap s)) + 1"
      using fr fin by (simp add: domIff)
    show "heap ?s1 (fresh s) \<noteq> None" "heap ?s1 (fresh s + 1) \<noteq> None" unfolding heap1 using fr by auto
    show "reads ?s1 = reads s + 1"
      "rand_range_pointer ?s1 = rand_range_pointer s" "crypto_setup ?s1 = crypto_setup s"
      "software_prng ?s1 = software_prng s"
      using re rd rc rb ca f by (auto simp: calm_def ext_eq reads_def)
  qed
qed

lemma seed_loop_live:
  assumes "seed_loop n hash fd buf s = Some (0, s')" and "wf_os s"
    and "finite (dom (heap s))" and "heap s buf \<noteq> None" and "heap s hash \<noteq> None"
    and "buf \<noteq> hash" and "buf \<noteq> NULL" and "hash \<noteq> NULL"
  shows "card (dom (heap s')) + 2 = card (dom (heap s)) + n \<and> reads s' = reads s + n"
  using assms
proof (induction n arbitrary: hash buf s)
  case 0
  then show ?case using seed_return_frees [of 0 hash fd buf s 0 s'] by simp
next
  case (Suc n)
  from seed_loop_step [OF Suc.prems(1-7)] obtain s1 where
    s1: "seed_loop n (fresh s + 1) fd (fresh s) s1 = Some (0, s')" "wf_os s1"
      "finite (dom (heap s1))" "card (dom (heap s1)) = card (dom (heap s)) + 1"
      "heap s1 (fresh s) \<noteq> None" "heap s1 (fresh s + 1) \<noteq> None" "reads s1 = reads s + 1"
    by metis
  have "fresh s \<noteq> NULL" using Suc.prems(2) by (simp add: wf_os_def)
  with Suc.IH [OF s1(1-3,5,6)] s1(4,7) show ?case by simp
qed

text \<open>A successful \<open>seed_prng\<close> leaves as many digests allocated and unreachable as it makes passes
  through its loop, that is, one fewer than it reads from \<^verbatim>\<open>/dev/urandom\<close>: each pass overwrites the
  only pointer to the previous digest.\<close>

lemma seed_prng_leak:
  assumes "wf_os s" and "finite (dom (heap s))" and "seed_prng s = Some (0, s')"
  shows "reads s < reads s' \<and> card (dom (heap s')) + 1 = card (dom (heap s)) + (reads s' - reads s)"
proof -
  let ?b = "fresh s"
  have b0: "?b \<noteq> NULL" using assms(1) by (simp add: wf_os_def)
  have g: "grant s (asked s)"
    using assms(3) by (rule contrapos_pp) (simp add: seed_prng_def malloc_def)
  let ?s1 = "s\<lparr>asked := asked s + 1, fresh := ?b + 1, heap := (heap s)(?b \<mapsto> 6000)\<rparr>"
  obtain fd s2 where s2: "ext ''open'' [] ?s1 = (fd, s2)" by fastforce
  then have h2: "heap s2 = (heap s)(?b \<mapsto> 6000)" "fresh s2 = ?b + 1" "regions s2 = regions s" "reads s2 = reads s"
    by (auto simp: ext_eq reads_def)
  note run = assms(3) [unfolded seed_prng_def malloc_def, simplified g b0 s2, simplified]
  have fd: "\<not> fd < 0" using run s2 b0 by (auto split: if_splits)
  obtain ret c where c: "ext_fill ''read'' [fd, 5999] ?b 5999 s2 = Some (ret, c)" and ret: "ret = 5999"
    using run s2 b0 fd by (cases "ext_fill ''read'' [fd, 5999] ?b 5999 s2") (auto split: if_splits)
  note rc = ext_fill_read [OF c]
  obtain d where d: "store_bytes ?b 5999 [0] c = Some d"
    using run s2 b0 fd c ret by (cases "store_bytes ?b 5999 [0] c") auto
  note rd = store_bytes_calm [OF d]
  obtain r h e where e: "sha512 ?b NULL d = Some (r, h, e)" and r: "\<not> r < 0"
    using run s2 b0 fd c ret d by (cases "sha512 ?b NULL d") (auto split: if_splits)
  have f: "fresh d = ?b + 1" using h2 rc rd by (simp add: calm_def)
  note re = sha512_cases [OF e, unfolded f]
  let ?e = "snd (ext ''RAND_add'' [128, 64] e)"
  obtain rtrn loops m where m: "rand_range 256 0 ?e = Some (rtrn, loops, m)" and rtrn: "\<not> rtrn < 0"
    using run s2 b0 fd c ret d e r by (cases "rand_range 256 0 ?e") (auto split: if_splits)
  note rm = rand_range_calm [OF m]
  have loop: "seed_loop (unat loops) h fd ?b m = Some (0, s')"
    using run s2 b0 fd c ret d e r m rtrn by simp
  have heap: "heap m = (heap s)(?b \<mapsto> 6000, ?b + 1 \<mapsto> 129)" and h: "h = ?b + 1" and
    "fresh m = ?b + 2" "regions m = regions s" and reads: "reads m = reads s + 1"
    using rm re r rd rc h2 by (auto simp: calm_def ext_eq reads_def)
  moreover have fr: "heap s ?b = None" "heap s (?b + 1) = None" "regions s ?b = None" "regions s (?b + 1) = None"
    using assms(1) unfolding wf_os_def by (metis less_irrefl not_None_eq not_add_less1)+
  ultimately have wf: "wf_os m"
    using assms(1) by (auto simp: wf_os_def less_Suc_eq split: if_splits)
  have fin: "finite (dom (heap m))" using heap assms(2) by simp
  have "dom (heap m) = insert (?b + 1) (insert ?b (dom (heap s)))" using heap by auto
  then have "card (dom (heap m)) = card (dom (heap s)) + 2" using fr assms(2) by (simp add: domIff)
  with seed_loop_live [OF loop wf fin] heap h b0 reads show ?thesis by auto
qed

section \<open>Seeding succeeds when the system does\<close>

definition seeds_ok :: "'z crypto_scheme \<Rightarrow> bool" where
  "seeds_ok s \<longleftrightarrow> (\<forall>i. grant s i) \<and> bn_contract s \<and> bn_works s \<and> crypto_setup s = 1 \<and>
     rand_range_pointer s = Some Rand_range_crypto \<and>
     (\<forall>k fd n. fst (answer s k ''open'' []) \<ge> 0 \<and> fst (answer s k ''read'' [fd, n]) = n \<and>
        fst (answer s k ''SHA512_Init'' []) \<ge> 0 \<and> fst (answer s k ''SHA512_Update'' [n]) \<ge> 0 \<and>
        fst (answer s k ''SHA512_Final'' []) \<ge> 0)"

lemma seeds_ok_cong:
  assumes "grant t = grant s" and "answer t = answer s" and "crypto_setup t = crypto_setup s"
    and "rand_range_pointer t = rand_range_pointer s"
  shows "seeds_ok t = seeds_ok s"
  using assms by (simp add: seeds_ok_def bn_contract_def bn_works_def bn_alloc_ok_def)

lemma cstr_terminated: "heap s p = Some n \<Longrightarrow> i < unat n \<Longrightarrow> bytes s p i = 0 \<Longrightarrow> \<exists>msg. cstr p s = Some msg"
  by (force simp: cstr_def)

lemma sha512_works:
  assumes "seeds_ok s" and "0 < fresh s" and "heap s inp = Some n" and "i < unat n" and "bytes s inp i = 0"
  shows "\<exists>s'. sha512 inp out s = Some (0, fresh s, s') \<and> seeds_ok s' \<and>
     heap s' = (heap s)(fresh s \<mapsto> 129) \<and> fresh s' = fresh s + 1"
proof -
  obtain msg where msg: "cstr inp (s\<lparr>trace := trace s @ [(''SHA512_Init'', [])]\<rparr>) = Some msg"
    using cstr_terminated [of "s\<lparr>trace := trace s @ [(''SHA512_Init'', [])]\<rparr>" inp n i] assms(3-5) by auto
  have ok: "\<not> fst (answer s k ''SHA512_Init'' []) < 0" "\<not> fst (answer s k ''SHA512_Update'' [m]) < 0"
    "\<not> fst (answer s k ''SHA512_Final'' []) < 0" "grant s k'" for k k' m
    using assms(1) unfolding seeds_ok_def by (auto simp: not_less)
  show ?thesis
    using msg ok assms(2) seeds_ok_cong [OF refl refl refl refl, of s] assms(1)
    unfolding sha512_def ext_eq malloc_def store_bytes_def
    by (simp add: Let_def room_def length_hex) (rule seeds_ok_cong [THEN iffD2], simp_all)
qed

lemma rand_range_crypto_default: "rand_range_crypto rng n s = default_rand_range rng n s"
  by (simp add: rand_range_crypto_def default_rand_range_def)

lemma rand_range_env:
  assumes "rand_range rng n s = Some (r, m, s')"
  shows "grant s' = grant s \<and> answer s' = answer s \<and> bytes s' = bytes s"
  using assms unfolding rand_range_def rand_range_crypto_def rand_range_no_crypto_def ext_eq ext2_def printf_def
  by (auto split: if_splits option.splits rand_fun.splits prod.splits)

lemma rand_range_works:
  assumes "seeds_ok s"
  shows "\<exists>m s'. rand_range rng n s = Some (0, m, s') \<and> m \<le> rng \<and> seeds_ok s' \<and> calm s s' \<and> bytes s' = bytes s"
proof -
  from assms have "bn_contract s" "bn_works s" "crypto_setup s = 1"
    "rand_range_pointer s = Some Rand_range_crypto" by (simp_all add: seeds_ok_def)
  with default_rand_range_bound [of s rng n] obtain m s' where
    run: "rand_range rng n s = Some (0, m, s')" and m: "m \<le> rng"
    by (auto simp: rand_range_def rand_range_crypto_default)
  from rand_range_env [OF run] rand_range_calm [OF run] have "seeds_ok s'"
    using assms by (intro seeds_ok_cong [THEN iffD2, OF _ _ _ _ assms]) (auto simp: calm_def)
  with run m rand_range_env [OF run] rand_range_calm [OF run] show ?thesis by blast
qed

lemma ext_fill_works:
  assumes "seeds_ok s" and "heap s p = Some n" and "m \<le> unat n" and "int m = i"
  shows "\<exists>s'. ext_fill ''read'' [fd, i] p m s = Some (i, s') \<and> seeds_ok s' \<and> heap s' = heap s \<and> fresh s' = fresh s"
proof -
  have "fst (answer s k ''read'' [fd, i]) = i" for k using assms(1) unfolding seeds_ok_def by blast
  with assms show ?thesis unfolding ext_fill_def ext_eq store_bytes_def
    by (simp add: room_def Let_def) (rule seeds_ok_cong [THEN iffD2], simp_all)
qed

lemma store_nul_works:
  assumes "seeds_ok s" and "heap s p = Some n" and "m < unat n"
  shows "\<exists>s'. store_bytes p m [0] s = Some s' \<and> seeds_ok s' \<and> heap s' = heap s \<and> fresh s' = fresh s \<and>
     bytes s' p m = 0"
  using assms unfolding store_bytes_def
  by (simp add: room_def) (rule seeds_ok_cong [THEN iffD2], simp_all)

lemma seed_return_works:
  assumes "heap s buf \<noteq> None" and "heap s hash \<noteq> None" and "buf \<noteq> hash"
  shows "\<exists>s'. seed_return r hash fd buf s = Some (r, s')"
  using assms by (auto simp: seed_return_def cleanup_buf_def free_def close_fd_def ext_eq Let_def)

lemma unat_len1: "unat (ucast (len :: u32) + 1 :: u64) = unat len + 1"
  using unat_u32_less [of len] by (simp add: unat_word_ariths)

definition heap_below :: "(ptr \<rightharpoonup> u64) \<Rightarrow> ptr \<Rightarrow> bool" where
  "heap_below h f \<longleftrightarrow> 0 < f \<and> (\<forall>p n. h p = Some n \<longrightarrow> p < f)"

lemma heap_below_new: "heap_below h f \<Longrightarrow> heap_below (h(f \<mapsto> n)) (f + 1)"
  by (auto simp: heap_below_def less_Suc_eq split: if_splits)

lemma heap_below_del: "heap_below h f \<Longrightarrow> heap_below (h(p := None)) f"
  by (auto simp: heap_below_def split: if_splits)

lemma heap_below_fresh: "heap_below h f \<Longrightarrow> h f = None"
  unfolding heap_below_def by (metis less_irrefl not_None_eq)

lemma wf_os_below: "wf_os s \<Longrightarrow> heap_below (heap s) (fresh s)"
  by (auto simp: wf_os_def heap_below_def)

lemma realloc_works:
  assumes "seeds_ok s" and "heap s p \<noteq> None" and "n \<noteq> 0" and "0 < fresh s"
  shows "\<exists>s'. realloc p n s = Some (fresh s, s') \<and> seeds_ok s' \<and>
     heap s' = (heap s)(fresh s \<mapsto> n, p := None) \<and> fresh s' = fresh s + 1"
proof -
  have "grant s k" for k using assms(1) by (simp add: seeds_ok_def)
  with assms show ?thesis unfolding realloc_def malloc_def
    by (simp add: domIff) (rule seeds_ok_cong [THEN iffD2], simp_all)
qed

lemma seed_loop_works:
  assumes "seeds_ok s" and "heap_below (heap s) (fresh s)" and "heap s buf \<noteq> None"
    and "heap s hash \<noteq> None" and "buf \<noteq> hash"
  shows "\<exists>s'. seed_loop n hash fd buf s = Some (0, s')"
  using assms
proof (induction n arbitrary: hash buf s)
  case 0
  then show ?case using seed_return_works by simp
next
  case (Suc n)
  from rand_range_works [OF Suc.prems(1)] obtain len a where
    a: "rand_range 4096 0 s = Some (0, len, a)" "seeds_ok a" "calm s a" by blast
  let ?q = "fresh s" and ?n = "ucast len + 1 :: u64"
  have n0: "?n \<noteq> 0" using unat_len1 [of len] by (metis Suc_eq_plus1 nat.distinct(1) unsigned_0)
  have fa: "fresh a = ?q" "heap a = heap s" "0 < ?q" "heap s ?q = None"
    using a(3) Suc.prems(2) heap_below_fresh by (auto simp: calm_def heap_below_def)
  from realloc_works [OF a(2), of buf ?n] fa n0 Suc.prems(3) obtain b where
    b: "realloc buf ?n a = Some (?q, b)" "seeds_ok b" "heap b = (heap s)(?q \<mapsto> ?n, buf := None)"
      "fresh b = ?q + 1" by auto
  then have hb: "heap b ?q = Some ?n" using fa(4) Suc.prems(3) by auto
  from ext_fill_works [OF b(2) hb, of "unat len" "uint len" fd] obtain c where
    c: "ext_fill ''read'' [fd, uint len] ?q (unat len) b = Some (uint len, c)" "seeds_ok c"
      "heap c = heap b" "fresh c = fresh b" by (auto simp: unat_len1)
  from store_nul_works [OF c(2), of ?q ?n "unat len"] hb c(3) obtain d where
    d: "store_bytes ?q (unat len) [0] c = Some d" "seeds_ok d" "heap d = heap b" "fresh d = fresh b"
      "bytes d ?q (unat len) = 0" by (auto simp: unat_len1 c(4))
  from sha512_works [OF d(2), of ?q ?n "unat len" hash] d hb b(4) obtain e where
    e: "sha512 ?q hash d = Some (0, fresh d, e)" "seeds_ok e" "heap e = (heap d)(fresh d \<mapsto> 129)"
      "fresh e = fresh d + 1" by (auto simp: unat_len1)
  let ?e = "snd (ext ''RAND_add'' [128, 64] e)"
  have "\<exists>s'. seed_loop n (fresh d) fd ?q ?e = Some (0, s')"
  proof (rule Suc.IH)
    show "seeds_ok ?e" using e(2) by (auto simp: ext_eq intro: seeds_ok_cong [THEN iffD2])
    show "heap_below (heap ?e) (fresh ?e)"
      using Suc.prems(2) b(3,4) d(3,4) e(3,4)
      by (simp add: ext_eq) (metis Suc_eq_plus1 heap_below_del heap_below_new)
  qed (use b(4) d(3,4) e(3) hb in \<open>auto simp: ext_eq\<close>)
  then show ?case using a b c d e fa by simp
qed

lemma seed_prng_works:
  assumes "seeds_ok s" and "wf_os s"
  shows "\<exists>s'. seed_prng s = Some (0, s')"
proof -
  let ?b = "fresh s"
  have g: "grant s (asked s)" using assms(1) by (simp add: seeds_ok_def)
  have below: "heap_below (heap s) ?b" using assms(2) by (rule wf_os_below)
  then have b0: "?b \<noteq> NULL" by (simp add: heap_below_def)
  let ?s1 = "s\<lparr>asked := asked s + 1, fresh := ?b + 1, heap := (heap s)(?b \<mapsto> 6000)\<rparr>"
  obtain fd s2 where s2: "ext ''open'' [] ?s1 = (fd, s2)" by fastforce
  then have s2': "s2 = ?s1\<lparr>trace := trace s @ [(''open'', [])]\<rparr>" "fd = fst (answer s (length (trace s)) ''open'' [])"
    by (simp_all add: ext_eq)
  then have h2: "heap s2 = (heap s)(?b \<mapsto> 6000)" "fresh s2 = ?b + 1" by simp_all
  have h2: "heap s2 = (heap s)(?b \<mapsto> 6000)" "fresh s2 = ?b + 1" "seeds_ok s2"
    using h2 s2'(1) assms(1) seeds_ok_cong [of s2 s] by simp_all
  have fd: "\<not> fd < 0" using assms(1) unfolding s2'(2) seeds_ok_def by (meson not_less)
  from ext_fill_works [OF h2(3), of ?b 6000 5999 5999 fd] h2(1) obtain c where
    c: "ext_fill ''read'' [fd, 5999] ?b 5999 s2 = Some (5999, c)" "seeds_ok c" "heap c = heap s2"
      "fresh c = fresh s2" by auto
  from store_nul_works [OF c(2), of ?b 6000 5999] h2(1) c(3,4) obtain d where
    d: "store_bytes ?b 5999 [0] c = Some d" "seeds_ok d" "heap d = heap s2" "fresh d = fresh s2"
      "bytes d ?b 5999 = 0" by auto
  from sha512_works [OF d(2), of ?b 6000 5999 NULL] d h2(1,2) obtain e where
    e: "sha512 ?b NULL d = Some (0, ?b + 1, e)" "seeds_ok e" "heap e = (heap s)(?b \<mapsto> 6000, ?b + 1 \<mapsto> 129)"
      "fresh e = ?b + 2" by auto
  let ?e = "snd (ext ''RAND_add'' [128, 64] e)"
  have "seeds_ok ?e" using e(2) by (auto simp: ext_eq intro: seeds_ok_cong [THEN iffD2])
  from rand_range_works [OF this, of 256 0] obtain loops m where
    m: "rand_range 256 0 ?e = Some (0, loops, m)" "seeds_ok m" "calm ?e m" by blast
  have "\<exists>s'. seed_loop (unat loops) (?b + 1) fd ?b m = Some (0, s')"
  proof (rule seed_loop_works [OF m(2)])
    show "heap_below (heap m) (fresh m)"
      using m(3) e(3,4) heap_below_new [OF heap_below_new [OF below]] by (simp add: calm_def ext_eq)
  qed (use m(3) e(3) in \<open>auto simp: calm_def ext_eq\<close>)
  then show ?thesis using g b0 s2 fd c(1) d(1) e(1) m(1) by (simp add: seed_prng_def malloc_def)
qed

definition crypto0 :: crypto where
  "crypto0 = \<lparr>grant = (\<lambda>_. True), asked = 0, fresh = 1, heap = Map.empty, regions = Map.empty,
     bytes = (\<lambda>_ _. 0), console = [], verbose = 0,
     answer = (\<lambda>k f a. if f = ''read'' then (last a, 0)
                       else if f = ''BN_rand_range'' then (if 0 < hd a then (1, 0) else (0, 0))
                       else (1, 0)),
     noise = (\<lambda>_ _. 0), trace = [], nexts = Map.empty, bptrs = Map.empty, pools = Map.empty,
     threads = Map.empty, actives = Map.empty, slots = (\<lambda>_ _. 0),
     rand_range_pointer = None, software_prng = 0, crypto_setup = 0, digest = (\<lambda>_ _ _. 0)\<rparr>"

definition crypto1 :: crypto where
  "crypto1 = crypto0\<lparr>rand_range_pointer := Some Rand_range_crypto, crypto_setup := 1\<rparr>"

lemma crypto1_ok: "seeds_ok crypto1" "wf_os crypto1" "finite (dom (heap crypto1))"
  by (auto simp: seeds_ok_def bn_contract_def bn_works_def bn_alloc_ok_def crypto1_def crypto0_def wf_os_def
      split: if_splits)

text \<open>With a system that grants memory, an entropy source that delivers what is asked and a library
  that works as documented, \<open>seed_prng\<close> always ends and reports success.\<close>

lemma seed_prng_succeeds:
  assumes "seeds_ok s" and "wf_os s"
  shows "\<exists>s'. seed_prng s = Some (0, s')"
  using assms by (rule seed_prng_works)


section \<open>The set-up of the module\<close>

definition cfix :: "'z crypto_scheme \<Rightarrow> rand_fun option \<times> int \<times> int" where
  "cfix s = (rand_range_pointer s, crypto_setup s, software_prng s)"

lemma calm_cfix: "calm s s' \<Longrightarrow> cfix s' = cfix s"
  by (simp add: calm_def cfix_def)

lemma cfix_simps [simp]:
  "cfix (s\<lparr>trace := x\<rparr>) = cfix s" "cfix (s\<lparr>console := y\<rparr>) = cfix s" "cfix (printf m s) = cfix s"
  "cfix (s\<lparr>heap := h\<rparr>) = cfix s" "cfix (snd (ext f a s)) = cfix s"
  "cfix (s\<lparr>fresh := p\<rparr>) = cfix s" "cfix (s\<lparr>asked := n\<rparr>) = cfix s"
  by (simp_all add: cfix_def printf_def ext_eq)

lemma cleanup_buf_cfix: "cleanup_buf p s = Some s' \<Longrightarrow> cfix s' = cfix s"
  by (auto simp: cleanup_buf_def free_def split: if_splits)

lemma seed_return_cfix: "seed_return c hash fd buf s = Some (r, s') \<Longrightarrow> cfix s' = cfix s"
  by (auto simp: seed_return_def close_fd_def Let_def elim!: bind_SomeE dest!: cleanup_buf_cfix split: if_splits)

lemma sha512_cfix: "sha512 inp out s = Some (r, out', s') \<Longrightarrow> cfix s' = cfix s"
  by (auto simp: sha512_def ext_eq printf_def malloc_def store_bytes_def Let_def cfix_def
      elim!: bind_SomeE split: if_splits)

lemma ext_fill_cfix: "ext_fill f args p n s = Some (r, s') \<Longrightarrow> cfix s' = cfix s"
  by (auto simp: ext_fill_def ext_eq store_bytes_def Let_def cfix_def split: if_splits)

lemma realloc_cfix: "realloc p n s = Some (q, s') \<Longrightarrow> cfix s' = cfix s"
  using realloc_crypto [of p n s q s'] by (simp add: cfix_def)

lemmas cfix_dests = seed_return_cfix sha512_cfix ext_fill_cfix realloc_cfix
  rand_range_calm [THEN calm_cfix] store_bytes_calm [THEN calm_cfix]

lemma seed_loop_cfix: "seed_loop n hash fd buf s = Some (r, s') \<Longrightarrow> cfix s' = cfix s"
proof (induction n arbitrary: hash buf s)
  case 0
  then show ?case by (auto dest: seed_return_cfix)
next
  case (Suc n)
  then show ?case
    by (auto elim!: bind_SomeE dest!: cfix_dests split: if_splits)
qed

lemma seed_prng_cfix: "seed_prng s = Some (r, s') \<Longrightarrow> cfix s' = cfix s"
  by (auto simp: seed_prng_def malloc_def ext_eq Let_def elim!: bind_SomeE dest!: cfix_dests seed_loop_cfix split: if_splits)

text \<open>The calls a client may make, in any order.\<close>

inductive crypto_step :: "'z crypto_scheme \<Rightarrow> 'z crypto_scheme \<Rightarrow> bool" where
  step_setup: "setup_crypto_module meth s = Some (r, s') \<Longrightarrow> crypto_step s s'"
| step_range: "rand_range rng n s = Some (r, m, s') \<Longrightarrow> crypto_step s s'"
| step_seed: "seed_prng s = Some (r, s') \<Longrightarrow> crypto_step s s'"

definition crypto_inv :: "'z crypto_scheme \<Rightarrow> bool" where
  "crypto_inv s \<longleftrightarrow> (crypto_setup s = 0 \<or> crypto_setup s = 1) \<and>
     (crypto_setup s = 1 \<longrightarrow> rand_range_pointer s \<noteq> None)"

lemma crypto_inv_cfix: "cfix s' = cfix s \<Longrightarrow> crypto_inv s' = crypto_inv s"
  by (simp add: crypto_inv_def cfix_def)

lemma setup_hardware_cfix: "setup_hardware_acceleration s = (r, s') \<Longrightarrow> cfix s' = cfix s"
  by (auto simp: setup_hardware_acceleration_def ext_eq split: if_splits)

lemma setup_crypto_inv:
  assumes "setup_crypto_module meth s = Some (r, s')" and "crypto_inv s"
  shows "crypto_inv s'"
proof (cases "crypto_setup s = 1")
  case True
  with assms show ?thesis
    by (auto simp: setup_crypto_module_def printf_def crypto_inv_def Let_def)
next
  case False
  show ?thesis
  proof (cases meth)
    case NO_CRYPTO
    with assms False show ?thesis
      by (auto simp: setup_crypto_module_def setup_rand_range_def printf_def ext_eq crypto_inv_def Let_def)
  next
    case CRYPTO
    obtain h t where ht: "setup_hardware_acceleration
        (s\<lparr>console := console s @ [(Stdout, ''Setting up crypto'')],
          trace := trace s @ [(''OpenSSL_add_all_ciphers'', []), (''OpenSSL_add_all_digests'', [])],
          rand_range_pointer := Some Rand_range_crypto\<rparr>) = (h, t)" by fastforce
    then have t: "rand_range_pointer t = Some Rand_range_crypto" "crypto_setup t = crypto_setup s"
      by (auto dest!: setup_hardware_cfix simp: cfix_def)
    show ?thesis
      using assms False CRYPTO ht t seed_prng_cfix [of "t\<lparr>console := c, software_prng := 1, crypto_setup := 1\<rparr>" r s' for c]
      by (auto simp: setup_crypto_module_def setup_rand_range_def printf_def ext_eq crypto_inv_def Let_def cfix_def
          split: if_splits)
  qed
qed

lemma crypto_inv_step: "crypto_step s s' \<Longrightarrow> crypto_inv s \<Longrightarrow> crypto_inv s'"
  by (induction rule: crypto_step.induct)
    (auto dest: setup_crypto_inv seed_prng_cfix [THEN crypto_inv_cfix]
      rand_range_calm [THEN calm_cfix, THEN crypto_inv_cfix])

text \<open>C25. However a client orders its calls of the module, starting before the set-up, \<open>rand_range\<close>
  never calls through the unset function pointer: it returns, except that the non-cryptographic
  generator traps on the range zero. Before a successful set-up it returns \<open>-1\<close> and leaves the
  number alone.\<close>

theorem rand_range_never_unset:
  assumes "crypto_step\<^sup>*\<^sup>* s0 s" and "crypto_setup s0 = 0"
  shows "(rng \<noteq> 0 \<longrightarrow> rand_range rng n s \<noteq> None) \<and>
         (crypto_setup s = 0 \<longrightarrow> (\<exists>s'. rand_range rng n s = Some (-1, n, s')))"
proof -
  have "crypto_inv s" using assms
    by (induction rule: rtranclp_induct) (auto simp: crypto_inv_def [of s0] intro: crypto_inv_step)
  then show ?thesis
    by (auto simp: crypto_inv_def rand_range_def rand_range_no_crypto_def ext_eq split: rand_fun.splits)
      (metis prod_cases3)
qed

theorem rand_range_never_unset_witness:
  "\<exists>s. crypto_step\<^sup>*\<^sup>* crypto0 s \<and> crypto_setup s = 1 \<and> rand_range 5 0 s \<noteq> None"
proof -
  obtain s where s: "setup_crypto_module NO_CRYPTO crypto0 = Some (0, s)" "crypto_setup s = 1"
    by (simp add: setup_crypto_module_def setup_rand_range_def crypto0_def printf_def ext_eq Let_def)
  then have "crypto_step\<^sup>*\<^sup>* crypto0 s" by (blast intro: step_setup)
  with rand_range_never_unset [OF this, of 5 0] s(2) show ?thesis by (auto simp: crypto0_def)
qed

text \<open>The flag that \<open>using_hardware_prng\<close> returns is the opposite of its name: after a set-up with a
  hardware generator it is 0, and after one that fell back to the software generator it is 1.\<close>

lemma hardware_flag_inverted:
  assumes "crypto_setup s = 0" and "\<forall>k. fst (answer s k ''ENGINE_init'' [e]) \<noteq> 0 \<and> fst (answer s k ''ENGINE_set_default'' [e]) \<noteq> 0"
    and "fst (answer s (length (trace s) + 2) ''ENGINE_by_id'' []) = e"
    and "setup_crypto_module CRYPTO s = Some (r, s')"
  shows "using_hardware_prng s' = (if e = 0 then 1 else 0)"
proof (cases "e = 0")
  case True
  from assms(4) obtain t where "seed_prng t = Some (r, s')" "software_prng t = 1"
    using assms(1,3) True
    by (auto simp: setup_crypto_module_def setup_rand_range_def setup_hardware_acceleration_def printf_def ext_eq Let_def)
  with seed_prng_cfix [of t r s'] True show ?thesis by (simp add: cfix_def using_hardware_prng_def)
next
  case False
  with assms show ?thesis
    by (auto simp: setup_crypto_module_def setup_rand_range_def setup_hardware_acceleration_def printf_def ext_eq
        Let_def using_hardware_prng_def)
qed

end
