(* ===== verification/Utils.thy ===== *)
theory Utils
  imports Crypto
begin

text \<open>
  Model of \<^verbatim>\<open>src/src/utils/utils.c\<close>: files, names and conversions. The file system is \<open>files\<close>, the
  contents of the regular files, and \<open>dirs\<close>, the entries of each directory in the order \<open>readdir\<close>
  delivers them; \<open>fds\<close> is what each open descriptor refers to. Path and name strings are values of
  type \<open>string\<close>, with \<open>None\<close> for \<open>NULL\<close>; the storage \<open>asprintf\<close> allocates for them is not tracked,
  only that it may be refused. Whether a system call fails is the answer of the environment.
\<close>

datatype name_type = DIR_NAME | FILE_NAME

record utils = crypto +
  files :: "string \<rightharpoonup> u8 list"
  dirs :: "string \<rightharpoonup> string list"
  fds :: "int \<rightharpoonup> string"
  homes :: "int \<rightharpoonup> string"

section \<open>Strings\<close>

definition asprintf :: "string \<Rightarrow> 'z os_scheme \<Rightarrow> int \<times> string option \<times> 'z os_scheme" where
  "asprintf t s =
     (if grant s (asked s) then (int (length t), Some t, s\<lparr>asked := asked s + 1\<rparr>)
      else (-1, None, s\<lparr>asked := asked s + 1\<rparr>))"

text \<open>The tail of the string from its last occurrence of the character.\<close>

definition strrchr :: "string \<Rightarrow> char \<Rightarrow> string option" where
  "strrchr t c = (if c \<in> set t then Some (c # rev (takeWhile (\<lambda>x. x \<noteq> c) (rev t))) else None)"

definition newline :: char where
  "newline = CHR 0x0A"

definition get_extension ::
    "string \<Rightarrow> string option \<Rightarrow> 'z os_scheme \<Rightarrow> int \<times> string option \<times> 'z os_scheme" where
  "get_extension path extension s =
     (case strrchr path (CHR ''.'') of
        None \<Rightarrow> (-1, extension, printf ''Can't find . %s:'' s)
      | Some pointer \<Rightarrow>
          let (rtrn, extension, s) = asprintf (tl pointer @ [newline]) s in
          if rtrn < 0 then (-1, extension, printf ''Can't alloc extension: %s'' s)
          else (0, extension, s))"

section \<open>Files\<close>

text \<open>\<open>open\<close> for reading: it fails when the environment says so or there is no such file.\<close>

definition open_rd :: "string \<Rightarrow> 'z utils_scheme \<Rightarrow> int \<times> 'z utils_scheme" where
  "open_rd path s =
     (let (fd, s) = ext ''open'' [0] s in
      if fd < 0 \<or> files s path = None then (-1, s) else (fd, s\<lparr>fds := (fds s)(fd \<mapsto> path)\<rparr>))"

text \<open>\<open>open\<close> with \<open>O_RDWR | O_CREAT | O_TRUNC\<close>.\<close>

definition open_trunc :: "string \<Rightarrow> 'z utils_scheme \<Rightarrow> int \<times> 'z utils_scheme" where
  "open_trunc path s =
     (let (fd, s) = ext ''open'' [1] s in
      if fd < 0 then (-1, s)
      else (fd, s\<lparr>fds := (fds s)(fd \<mapsto> path), files := (files s)(path \<mapsto> [])\<rparr>))"

definition get_file_size :: "int \<Rightarrow> u64 \<Rightarrow> 'z utils_scheme \<Rightarrow> int \<times> u64 \<times> 'z utils_scheme" where
  "get_file_size fd fsize s =
     (let (rtrn, s) = ext ''fstat'' [fd] s in
      case fds s fd of
        None \<Rightarrow> (-1, fsize, console_output ERROR ''fstat: %s'' s)
      | Some path \<Rightarrow>
          (case files s path of
             None \<Rightarrow> (-1, fsize, console_output ERROR ''fstat: %s'' s)
           | Some c \<Rightarrow> if rtrn \<noteq> 0 then (-1, fsize, console_output ERROR ''fstat: %s'' s)
                      else (0, word_of_nat (length c), s)))"

text \<open>A buffer handed to \<open>map_file_out\<close> is a block of the heap or a shared mapping of a file; what is
  read through a mapping is what the file holds at that time, and a read beyond its end traps.\<close>

datatype file_buf = Heap_buf ptr | Mapped ptr string

definition buf_bytes :: "file_buf \<Rightarrow> nat \<Rightarrow> 'z utils_scheme \<Rightarrow> u8 list option" where
  "buf_bytes b n s =
     (case b of
        Heap_buf p \<Rightarrow> if room p n s then Some (map (bytes s p) [0..<n]) else None
      | Mapped p path \<Rightarrow>
          (case files s path of
             None \<Rightarrow> None
           | Some c \<Rightarrow> if n \<le> length c then Some (take n c) else None))"

definition map_file_in ::
    "int \<Rightarrow> file_buf option \<Rightarrow> u64 \<Rightarrow> 'z utils_scheme \<Rightarrow> int \<times> file_buf option \<times> u64 \<times> 'z utils_scheme" where
  "map_file_in fd buf fsize s =
     (let (rtrn, fsize, s) = get_file_size fd fsize s in
      if rtrn < 0 then (-1, buf, fsize, console_output ERROR ''Can't get file size'' s)
      else
        let (m, s) = mmap fsize s in
        case m of
          None \<Rightarrow> (-1, None, fsize, console_output ERROR ''mmap: %s'' s)
        | Some p \<Rightarrow> (0, map_option (Mapped p) (fds s fd), fsize, s))"

text \<open>Writing one byte at offset \<open>size - 1\<close> of an empty file extends it with zeros.\<close>

definition map_file_out ::
    "string \<Rightarrow> file_buf \<Rightarrow> u64 \<Rightarrow> 'z utils_scheme \<Rightarrow> (int \<times> 'z utils_scheme) option" where
  "map_file_out path buf fsize s =
     (let (fd, s) = open_trunc path s in
      if fd < 0 then Some (-1, close_fd fd (console_output ERROR ''open: %s'' s))
      else
        let (r, s) = ext ''lseek'' [fd, sint fsize - 1] s in
        if fsize = 0 \<or> r = -1 then Some (-1, close_fd fd (console_output ERROR ''lseek: %s'' s))
        else
          let (ret, s) = ext ''write'' [fd, 1] s in
          if ret \<noteq> 1 then Some (-1, close_fd fd (console_output ERROR ''write: %s'' s))
          else
            let s = s\<lparr>files := (files s)(path \<mapsto> replicate (unat fsize) 0)\<rparr>;
                (m, s) = mmap fsize s in
            case m of
              None \<Rightarrow> Some (-1, close_fd fd (console_output ERROR ''mmap: %s'' s))
            | Some dst \<Rightarrow> do {
                c \<leftarrow> buf_bytes buf (unat fsize) s;
                let s = s\<lparr>files := (files s)(path \<mapsto> c)\<rparr>;
                let s = munmap dst fsize s;
                Some (0, close_fd fd s) })"

definition unmap_buf :: "file_buf option \<Rightarrow> u64 \<Rightarrow> 'z utils_scheme \<Rightarrow> 'z utils_scheme" where
  "unmap_buf buf fsize s = (case buf of Some (Mapped p _) \<Rightarrow> munmap p fsize s | _ \<Rightarrow> s)"

definition copy_file_to :: "string \<Rightarrow> string \<Rightarrow> 'z utils_scheme \<Rightarrow> (int \<times> 'z utils_scheme) option" where
  "copy_file_to src dst s =
     (let (file, s) = open_rd src s in
      if file < 0 then Some (-1, close_fd file (console_output ERROR ''Can't open file: %s'' s))
      else
        let (rtrn, buf, fsize, s) = map_file_in file None 0 s in
        if rtrn < 0 then Some (-1, close_fd file (console_output ERROR ''Can't read file to memory'' s))
        else do {
          from \<leftarrow> buf;
          (rtrn, s) \<leftarrow> map_file_out dst from fsize s;
          if rtrn < 0
          then Some (-1, close_fd file (unmap_buf buf fsize (console_output ERROR ''Can't write file to disk'' s)))
          else
            let (rtrn, s) = ext ''fsync'' [file] s in
            if rtrn < 0
            then Some (-1, close_fd file (unmap_buf buf fsize (console_output ERROR ''Can't sync file on disk'' s)))
            else Some (0, close_fd file (unmap_buf buf fsize s)) })"

section \<open>The user and the machine\<close>

definition check_root :: "'z os_scheme \<Rightarrow> int \<times> 'z os_scheme" where
  "check_root s =
     (let (check, s) = ext ''getuid'' [] (printf ''Making sure nextgen has root privileges'' s) in
      if check = 0 then (0, s) else (-1, s))"

definition drop_privileges :: "'z os_scheme \<Rightarrow> int \<times> 'z os_scheme" where
  "drop_privileges s =
     (let (rtrn, s) = ext ''setgid'' [999] s in
      if rtrn < 0 then (-1, printf ''Can't drop gid: %s'' s)
      else let (rtrn, s) = ext ''setuid'' [999] s in
      if rtrn < 0 then (-1, printf ''Can't drop uid: %s'' s)
      else (0, s))"

text \<open>The version for systems with \<open>sysctl\<close>.\<close>

definition get_core_count :: "u32 \<Rightarrow> 'z os_scheme \<Rightarrow> int \<times> u32 \<times> 'z os_scheme" where
  "get_core_count core_count s =
     (let ((rtrn, n), s) = ext2 ''sysctl'' [] s in
      if rtrn < 0 then (-1, core_count, printf ''sysctl: %s'' s)
      else (0, (if (word_of_int n :: u32) < 1 then 1 else word_of_int n), s))"

definition get_home :: "string option \<Rightarrow> 'z utils_scheme \<Rightarrow> int \<times> string option \<times> 'z utils_scheme" where
  "get_home home s =
     (let (uid, s) = ext ''getuid'' [] s in
      case homes s uid of
        None \<Rightarrow> (-1, home, printf ''Can't Get pwd struct: %s'' s)
      | Some pw_dir \<Rightarrow>
          let (rtrn, home, s) = asprintf pw_dir s in
          if rtrn < 0 then (-1, home, printf ''Can't Create home string: %s'' s)
          else (0, home, s))"

section \<open>Names\<close>

text \<open>Both are stubs that leave the name alone.\<close>

definition generate_file_name :: "string option \<Rightarrow> string \<Rightarrow> int \<times> string option" where
  "generate_file_name name extension = (0, name)"

definition generate_directory_name :: "string option \<Rightarrow> int \<times> string option" where
  "generate_directory_name name = (0, name)"

definition PATH_MAX :: nat where
  "PATH_MAX = 4096"

text \<open>The characters of a C string in memory.\<close>

definition ctext :: "ptr \<Rightarrow> 'z os_scheme \<Rightarrow> string option" where
  "ctext p s = do { bs \<leftarrow> cstr p s; Some (map (\<lambda>b. char_of (unat b)) bs) }"

definition name_return ::
    "int \<Rightarrow> string option \<Rightarrow> ptr \<Rightarrow> ptr \<Rightarrow> 'z crypto_scheme \<Rightarrow> (int \<times> string option \<times> 'z crypto_scheme) option" where
  "name_return rtrn name tmp_buf random_data s =
     do { s \<leftarrow> cleanup_buf tmp_buf s; s \<leftarrow> cleanup_buf random_data s; Some (rtrn, name, s) }"

definition file_name_of ::
    "string \<Rightarrow> string \<Rightarrow> 'z os_scheme \<Rightarrow> int \<times> string option \<times> 'z os_scheme" where
  "file_name_of tx extension s =
     (case strrchr extension (CHR ''.'') of
        None \<Rightarrow>
          let (rtrn, e, s) = asprintf (CHR ''.'' # extension) s in
          if rtrn < 0 then (-1, None, printf ''Can't create extension string'' s)
          else
            let (rtrn, name, s) = asprintf (tx @ CHR ''.'' # extension) s in
            if rtrn < 0 then (-1, name, printf ''Can't create file path: %s'' s)
            else (0, name, s)
      | Some pointer \<Rightarrow>
          let (rtrn, name, s) = asprintf (tx @ extension) s in
          if rtrn < 0 then (-1, name, printf ''Can't create file path: %s'' s)
          else (0, name, s))"

definition generate_name ::
    "string option \<Rightarrow> name_type \<Rightarrow> string option \<Rightarrow> 'z crypto_scheme \<Rightarrow>
     (int \<times> string option \<times> 'z crypto_scheme) option" where
  "generate_name extension type name s =
     (if extension = None \<and> type \<noteq> DIR_NAME
      then Some (-1, name, printf ''File extension is NULL'' s)
      else
        let (random_data, s) = malloc (word_of_nat (PATH_MAX + 1)) s in
        if random_data = NULL
        then name_return (-1) name NULL NULL (printf ''Can't Allocate Space'' s)
        else do {
          (rtrn, s) \<leftarrow> rand_bytes random_data (word_of_nat PATH_MAX) s;
          if rtrn < 0
          then name_return (-1) name NULL random_data (printf ''Can't get random bytes'' s)
          else do {
            s \<leftarrow> store_bytes random_data PATH_MAX [0] s;
            (rtrn, tmp_buf, s) \<leftarrow> sha256 random_data NULL s;
            if rtrn < 0
            then name_return (-1) name tmp_buf random_data (printf ''Can't Hash Random Data'' s)
            else do {
              tx \<leftarrow> ctext tmp_buf s;
              case type of
                DIR_NAME \<Rightarrow>
                  let (rtrn, name, s) = asprintf tx s in
                  if rtrn < 0
                  then name_return (-1) name tmp_buf random_data (printf ''Can't create dir path: %s'' s)
                  else name_return 0 name tmp_buf random_data s
              | FILE_NAME \<Rightarrow>
                  (case extension of
                     None \<Rightarrow> None
                   | Some e \<Rightarrow>
                       let (rtrn, name, s) = file_name_of tx e s in
                       name_return rtrn name tmp_buf random_data s) } } })"

section \<open>Bit strings\<close>

text \<open>The eight characters for one byte, most significant bit first.\<close>

definition byte_bits :: "u8 \<Rightarrow> u8 list" where
  "byte_bits ch = map (\<lambda>k. if bit ch k then 49 else 48) (rev [0..<8])"

definition write_at :: "u8 list \<Rightarrow> nat \<Rightarrow> u8 list \<Rightarrow> u8 list option" where
  "write_at out k bs =
     (if k + length bs \<le> length out then Some (take k out @ bs @ drop (k + length bs) out) else None)"

text \<open>The loop of \<open>ascii_to_binary\<close>: the index is a 32-bit number, the length a 64-bit one, and the
  output offset \<open>8 * i\<close> is computed in 32 bits.\<close>

partial_function (option) binary_loop ::
    "u8 list \<Rightarrow> u64 \<Rightarrow> u32 \<Rightarrow> u8 list \<Rightarrow> u8 list option" where
  "binary_loop input n i out =
     (if (ucast i :: u64) < n
      then if unat i < length input
           then do { out \<leftarrow> write_at out (unat (8 * i)) (byte_bits (input ! unat i));
                     binary_loop input n (i + 1) out }
           else None
      else Some out)"

text \<open>The output buffer is returned as its contents, which are those \<open>malloc\<close> delivered until they are
  written.\<close>

definition ascii_to_binary ::
    "u8 list \<Rightarrow> u64 \<Rightarrow> 'z os_scheme \<Rightarrow> (int \<times> u8 list option \<times> u64 \<times> 'z os_scheme) option" where
  "ascii_to_binary input input_len s =
     (if input_len = 0 then Some (-1, None, 0, printf ''Length argument is zero'' s)
      else
        let out_len = input_len * 8;
            (out, s) = malloc (out_len + 1) s in
        if out = NULL then Some (-1, None, out_len, printf ''Can't allocate binary string'' s)
        else do {
          bin \<leftarrow> binary_loop input input_len 0 (map (bytes s out) [0..<unat (out_len + 1)]);
          bin \<leftarrow> write_at bin (unat out_len) [0];
          Some (0, Some bin, out_len, s) })"

text \<open>Only the terminator of the output is written.\<close>

definition binary_to_ascii ::
    "u64 \<Rightarrow> 'z os_scheme \<Rightarrow> (int \<times> ptr \<times> u64 \<times> 'z os_scheme) option" where
  "binary_to_ascii input_len s =
     (if input_len = 0 then Some (-1, NULL, 0, printf ''Input length is zero'' s)
      else
        let out_len = input_len div 8;
            (out, s) = malloc (out_len + 1) s in
        if out = NULL then Some (-1, NULL, out_len, printf ''Can't allocate binary string'' s)
        else do { s \<leftarrow> store_bytes out (unat out_len) [0] s; Some (0, out, out_len, s) })"

section \<open>Random files and directories\<close>

text \<open>The function pointers of \<open>struct random_generator\<close>; an unset one is \<open>None\<close>, and calling it is
  undefined.\<close>

record 's random_generator =
  rg_range :: "u32 \<Rightarrow> u32 \<Rightarrow> 's \<Rightarrow> int \<times> u32 \<times> 's"
  rg_bytes :: "(ptr \<Rightarrow> u32 \<Rightarrow> 's \<Rightarrow> (int \<times> 's) option) option"
  rg_seed :: int

definition default_generator :: "'z utils_scheme random_generator" where
  "default_generator = \<lparr>rg_range = default_rand_range, rg_bytes = None, rg_seed = default_seed_prng\<rparr>"

text \<open>A \<open>"%s"\<close> conversion of a null pointer prints \<open>(null)\<close>.\<close>

definition show_name :: "string option \<Rightarrow> string" where
  "show_name n = (case n of None \<Rightarrow> ''(null)'' | Some t \<Rightarrow> t)"

text \<open>The size is a 64-bit variable of which \<open>random->range\<close> writes the low 32 bits.\<close>

definition create_random_file ::
    "string \<Rightarrow> string \<Rightarrow> string option \<Rightarrow> u64 \<Rightarrow> 'z utils_scheme random_generator \<Rightarrow> 'z utils_scheme \<Rightarrow>
     (int \<times> string option \<times> u64 \<times> 'z utils_scheme) option" where
  "create_random_file root exten path fsize random s =
     (let no_period = (strrchr exten (CHR ''.'') = None);
          (rtrn, extension, s) = (if no_period then asprintf (CHR ''.'' # exten) s else (0, None, s)) in
      if rtrn < 0
      then Some (-1, path, fsize, console_output ERROR ''Can't create extension string'' s)
      else
        let (rtrn, name) = generate_file_name None (if no_period then show_name extension else exten) in
        if rtrn < 0
        then Some (-1, path, fsize, console_output ERROR ''Can't generate random file name'' s)
        else
          let (rtrn, path, s) = asprintf (root @ ''/'' @ show_name name) s in
          if rtrn < 0 then Some (-1, path, fsize, console_output ERROR ''Can't join paths: %s'' s)
          else
            let (rtrn, number, s) = rg_range random 4095 (ucast fsize) s;
                fsize = push_bit 32 (drop_bit 32 fsize) + ucast number in
            if rtrn < 0
            then Some (-1, path, fsize, console_output ERROR ''Can't choose random number'' s)
            else
              let fsize = fsize + 1;
                  (junk, s) = default_mem_alloc (fsize + 1) s in
              if junk = NULL
              then Some (-1, path, fsize, console_output ERROR ''Can't alloc junk buf: %s'' s)
              else do {
                fill \<leftarrow> rg_bytes random;
                (rtrn, s) \<leftarrow> fill junk (ucast fsize) s;
                if rtrn < 0
                then do { s \<leftarrow> cleanup_buf junk (console_output ERROR ''Can't alloc junk buf: %s'' s);
                          Some (-1, path, fsize, s) }
                else do {
                  p \<leftarrow> path;
                  (rtrn, s) \<leftarrow> map_file_out p (Heap_buf junk) fsize s;
                  if rtrn < 0
                  then do { s \<leftarrow> cleanup_buf junk (console_output ERROR ''Can't write junk to disk'' s);
                            Some (-1, path, fsize, s) }
                  else do { s \<leftarrow> cleanup_buf junk s; Some (0, path, fsize, s) } } })"

definition create_random_directory ::
    "string \<Rightarrow> string option \<Rightarrow> 'z utils_scheme \<Rightarrow> (int \<times> string option \<times> 'z utils_scheme) option" where
  "create_random_directory root path s =
     (let (rtrn, name) = generate_directory_name None in
      if rtrn < 0 then Some (-1, path, printf ''Failed to generate directory name'' s)
      else
        let (rtrn, path, s) = asprintf (root @ ''/'' @ show_name name) s in
        if rtrn < 0 then Some (-1, path, printf ''String concatenation failed'' s)
        else do {
          p \<leftarrow> path;
          let (rtrn, s) = ext ''mkdir'' [] s;
          if rtrn < 0 \<or> dirs s p \<noteq> None
          then Some (-1, path, printf ''Directory creation failed: %s'' s)
          else Some (0, path, s\<lparr>dirs := (dirs s)(p \<mapsto> [])\<rparr>) })"

section \<open>Walking directories\<close>

definition is_file :: "'z utils_scheme \<Rightarrow> string \<Rightarrow> bool" where
  "is_file s p \<longleftrightarrow> files s p \<noteq> None"

text \<open>\<open>stat\<close> fails when the environment says so or the path does not exist.\<close>

definition stat_path :: "string \<Rightarrow> 'z utils_scheme \<Rightarrow> int \<times> 'z utils_scheme" where
  "stat_path p s =
     (let (rtrn, s) = ext ''stat'' [] s in
      if rtrn < 0 \<or> (files s p = None \<and> dirs s p = None) then (-1, s) else (0, s))"

fun count_entries :: "string \<Rightarrow> string list \<Rightarrow> u32 \<Rightarrow> 'z utils_scheme \<Rightarrow> int \<times> u32 \<times> 'z utils_scheme" where
  "count_entries dir [] cnt s =
     (let (rtrn, s) = ext ''closedir'' [] s in
      if rtrn < 0 then (-1, cnt, printf ''Can't close directory'' s) else (0, cnt, s))"
| "count_entries dir (entry # es) cnt s =
     (if entry \<noteq> [] \<and> hd entry = CHR ''.'' then count_entries dir es cnt s
      else
        let (rtrn, file_path, s) = asprintf (dir @ ''/'' @ entry) s in
        if rtrn < 0 then (-1, cnt, snd (ext ''closedir'' [] s))
        else
          let (rtrn, s) = stat_path (dir @ ''/'' @ entry) s in
          if rtrn < 0 then (-1, cnt, snd (ext ''closedir'' [] (printf ''Can't get file stats: %s'' s)))
          else count_entries dir es (if is_file s (dir @ ''/'' @ entry) then cnt + 1 else cnt) s)"

definition count_files_directory :: "u32 \<Rightarrow> string \<Rightarrow> 'z utils_scheme \<Rightarrow> int \<times> u32 \<times> 'z utils_scheme" where
  "count_files_directory cnt dir s =
     (let (directory, s) = ext ''opendir'' [] s in
      case dirs s dir of
        None \<Rightarrow> (-1, cnt, printf ''Can't open dir: %s'' s)
      | Some es \<Rightarrow> if directory = 0 then (-1, cnt, printf ''Can't open dir: %s'' s)
                  else count_entries dir es cnt s)"

text \<open>A step of the file tree walk: the kind of the entry and its path. \<open>walk\<close> is the sequence
  \<open>fts_read\<close> delivers; entries that could not be read are marked.\<close>

datatype fts_info = FTS_DNR | FTS_ERR | FTS_NS | FTS_OK

fun delete_entries :: "string \<Rightarrow> (fts_info \<times> string) list \<Rightarrow> 'z utils_scheme \<Rightarrow> int \<times> 'z utils_scheme" where
  "delete_entries dir [] s =
     (let (rtrn, s) = ext ''fts_close'' [] s in
      if rtrn < 0 then (-1, printf ''fts: %s'' s) else (0, s))"
| "delete_entries dir ((info, path) # walk) s =
     (if info \<noteq> FTS_OK then delete_entries dir walk s
      else if path = dir then delete_entries dir walk s
      else
        let (rtrn, s) = stat_path path s in
        if rtrn < 0 then (-1, printf ''Can't get path stats: %s'' s)
        else if dirs s path \<noteq> None
        then let (rtrn, s) = ext ''rmdir'' [] s in
             if rtrn < 0 then delete_entries dir walk s
             else delete_entries dir walk (s\<lparr>dirs := (dirs s)(path := None)\<rparr>)
        else let (rtrn, s) = ext ''unlink'' [] s in
             if rtrn < 0 then (-1, printf ''Can't remove file'' s)
             else delete_entries dir walk (s\<lparr>files := (files s)(path := None)\<rparr>))"

definition delete_dir_contents :: "(fts_info \<times> string) list \<Rightarrow> string \<Rightarrow> 'z utils_scheme \<Rightarrow> int \<times> 'z utils_scheme" where
  "delete_dir_contents walk dir s =
     (let (tree, s) = ext ''fts_open'' [] s in
      if tree = 0 then (-1, printf ''Can't walk directory'' s)
      else delete_entries dir walk s)"

definition delete_directory ::
    "(fts_info \<times> string) list \<Rightarrow> string option \<Rightarrow> 'z utils_scheme \<Rightarrow> int \<times> 'z utils_scheme" where
  "delete_directory walk path s =
     (case path of
        None \<Rightarrow> (-1, printf ''Path pointer is NULL'' s)
      | Some p \<Rightarrow>
          let (rtrn, s) = stat_path p s in
          if rtrn < 0 then (-1, printf ''Can't get stats: %s'' s)
          else if dirs s p = None then (-1, printf ''Input path is not a directory'' s)
          else
            let (rtrn, s) = delete_dir_contents walk p s in
            if rtrn < 0 then (-1, printf ''Can't delete dir contents'' s)
            else
              let (rtrn, s) = ext ''rmdir'' [] s in
              if rtrn < 0 then (-1, printf ''Can't remove directory: %s'' s)
              else (0, s\<lparr>dirs := (dirs s)(p := None)\<rparr>))"

section \<open>Copying files\<close>

lemma files_simps [simp]:
  "files (printf m s) = files s" "files (console_output k m s) = files s"
  "files (snd (ext f a s)) = files s" "files (close_fd fd s) = files s"
  "files (munmap p n s) = files s"
  by (simp_all add: printf_def console_output_def fprintf_stderr_def ext_eq close_fd_def munmap_def
      split: out_type.splits)

lemma files_unmap_buf [simp]: "files (unmap_buf b n s) = files s"
  by (auto simp: unmap_buf_def split: option.splits file_buf.splits)

lemma files_mmap: "mmap n s = (m, s') \<Longrightarrow> files s' = files s \<and> fds s' = fds s \<and> (n = 0 \<longrightarrow> m = None)"
  by (auto simp: mmap_def split: if_splits)

lemma get_file_size_cases:
  assumes "get_file_size fd z s = (r, z', s')"
  shows "files s' = files s \<and> fds s' = fds s \<and>
    (r = -1 \<or> (\<exists>p c. r = 0 \<and> fds s fd = Some p \<and> files s p = Some c \<and> z' = word_of_nat (length c)))"
  using assms by (auto simp: get_file_size_def ext_eq console_output_def fprintf_stderr_def
      split: option.splits if_splits)

lemma map_file_in_cases:
  assumes "map_file_in fd b z s = (r, b', z', s')"
  shows "files s' = files s \<and> (r = -1 \<or> (\<exists>q p c. r = 0 \<and> fds s fd = Some p \<and> files s p = Some c \<and>
     z' = word_of_nat (length c) \<and> z' \<noteq> 0 \<and> b' = Some (Mapped q p)))"
proof -
  obtain r1 z1 s1 where 1: "get_file_size fd z s = (r1, z1, s1)" by (cases "get_file_size fd z s") auto
  obtain m s2 where 2: "mmap z1 s1 = (m, s2)" by fastforce
  from assms 1 2 get_file_size_cases [OF 1] files_mmap [OF 2] show ?thesis
    by (auto simp: map_file_in_def split: if_splits option.splits)
qed

lemma map_file_out_cases:
  assumes "buf = Mapped q p" and "p \<noteq> path" and "files s p = Some c" and "unat z = length c"
  shows "\<exists>r s'. map_file_out path buf z s = Some (r, s') \<and>
     (\<forall>x. x \<noteq> path \<longrightarrow> files s' x = files s x) \<and> (r = -1 \<or> r = 0 \<and> files s' path = Some c)"
proof -
  obtain fd s1 where 1: "open_trunc path s = (fd, s1)" by fastforce
  then have f1: "\<forall>x. x \<noteq> path \<longrightarrow> files s1 x = files s x"
    by (auto simp: open_trunc_def ext_eq split: if_splits)
  obtain r2 s2 where 2: "ext ''lseek'' [fd, sint z - 1] s1 = (r2, s2)" by fastforce
  obtain r3 s3 where 3: "ext ''write'' [fd, 1] s2 = (r3, s3)" by fastforce
  let ?s3 = "s3\<lparr>files := (files s3)(path \<mapsto> replicate (unat z) 0)\<rparr>"
  obtain m s4 where 4: "mmap z ?s3 = (m, s4)" by fastforce
  have f: "files s2 = files s1" "files s3 = files s1" "files s4 = (files s1)(path \<mapsto> replicate (unat z) 0)"
    using 2 3 files_mmap [OF 4] by (auto simp: ext_eq)
  have b: "buf_bytes buf (unat z) s4 = Some c"
    using f1 assms f(3) by (simp add: buf_bytes_def)
  show ?thesis
    using 1 2 3 4 b f f1 by (auto simp: map_file_out_def Let_def split: option.splits if_splits)
qed


definition utils0 :: utils where
  "utils0 = \<lparr>grant = (\<lambda>_. True), asked = 0, fresh = 1, heap = Map.empty, regions = Map.empty,
     bytes = (\<lambda>_ _. 0), console = [], verbose = 0,
     answer = (\<lambda>k f a. if f = ''fstat'' then (0, 0) else (1, 0)),
     noise = (\<lambda>_ _. 0), trace = [], nexts = Map.empty, bptrs = Map.empty, pools = Map.empty,
     threads = Map.empty, actives = Map.empty, slots = (\<lambda>_ _. 0),
     rand_range_pointer = None, software_prng = 0, crypto_setup = 0, digest = (\<lambda>_ _ _. 0),
     files = [''a'' \<mapsto> [1, 2, 3]], dirs = [''d'' \<mapsto> [''.h'', ''x'']], fds = Map.empty, homes = Map.empty\<rparr>"


section \<open>Bit strings round trip\<close>

lemma length_byte_bits [simp]: "length (byte_bits b) = 8"
  by (simp add: byte_bits_def)

definition bits_byte :: "u8 list \<Rightarrow> u8" where
  "bits_byte bs = horner_sum of_bool 2 (map (\<lambda>c. c = 49) (rev bs))"

lemma bits_byte_bits: "bits_byte (byte_bits b) = b"
proof -
  have "map (\<lambda>c. c = 49) (rev (byte_bits b)) = map (bit b) [0..<8]"
    by (simp add: byte_bits_def rev_map comp_def)
  then show ?thesis by (simp add: bits_byte_def horner_sum_bit_eq_take_bit take_bit_word_eq_self)
qed

lemma write_at_end: "k = length xs \<Longrightarrow> length bs \<le> length ys \<Longrightarrow>
    write_at (xs @ ys) k bs = Some (xs @ bs @ drop (length bs) ys)"
  by (simp add: write_at_def)

lemma binary_loop_correct:
  assumes "length input \<le> 2 ^ 29" and "n = word_of_nat (length input)" and "i \<le> length input"
    and "length ys = 8 * (length input - i) + 1"
  shows "\<exists>y. binary_loop input n (word_of_nat i) (concat (map byte_bits (take i input)) @ ys) =
     Some (concat (map byte_bits input) @ [y])"
  using assms(3,4)
proof (induction "length input - i" arbitrary: i ys)
  case 0
  then have i: "i = length input" by simp
  have "\<not> (ucast (word_of_nat i :: u32) :: u64) < n"
    using assms(1,2) i by (simp add: word_less_nat_alt unat_of_nat take_bit_nat_eq_self)
  moreover obtain y where "ys = [y]" using 0 i by (cases ys) auto
  ultimately show ?case using i by (subst binary_loop.simps) auto
next
  case (Suc k)
  then have i: "i < length input" by simp
  have ui: "unat (word_of_nat i :: u32) = i" "unat (8 * word_of_nat i :: u32) = 8 * i" "unat n = length input"
    using i assms(1,2) by (simp_all add: unat_of_nat take_bit_nat_eq_self unat_word_ariths)
  have lt: "(ucast (word_of_nat i :: u32) :: u64) < n" using i ui by (simp add: word_less_nat_alt)
  have len: "8 * i = length (concat (map byte_bits (take i input)))"
    using i by (simp add: length_concat comp_def sum_list_triv)
  have w: "write_at (concat (map byte_bits (take i input)) @ ys) (8 * i) (byte_bits (input ! i)) =
      Some (concat (map byte_bits (take (i + 1) input)) @ drop 8 ys)"
    using write_at_end [OF len, of "byte_bits (input ! i)" ys] Suc.prems i
    by (simp add: take_Suc_conv_app_nth)
  have "\<exists>y. binary_loop input n (word_of_nat (i + 1)) (concat (map byte_bits (take (i + 1) input)) @ drop 8 ys) =
      Some (concat (map byte_bits input) @ [y])"
    using Suc i by (intro Suc.hyps(1)) auto
  then show ?case using lt ui w i by (subst binary_loop.simps) (simp add: add.commute)
qed

text \<open>For an input of at most \<open>2^29\<close> bytes, \<open>ascii_to_binary\<close> writes eight characters for each byte,
  most significant bit first, and a terminator, within the buffer it allocates; reading the eight
  characters back gives the byte.\<close>

lemma ascii_to_binary_roundtrip:
  assumes "input \<noteq> []" and "length input \<le> 2 ^ 29" and "grant s (asked s)" and "0 < fresh s"
  shows "\<exists>out s'. ascii_to_binary input (word_of_nat (length input)) s =
      Some (0, Some out, word_of_nat (8 * length input), s') \<and>
      out = concat (map byte_bits input) @ [0] \<and>
      (\<forall>i < length input. bits_byte (take 8 (drop (8 * i) out)) = input ! i)"
proof -
  let ?n = "word_of_nat (length input) :: u64" and ?bits = "concat (map byte_bits input)"
  let ?m = "?n * 8 + 1"
  have n0: "?n \<noteq> 0" using assms(1,2) by (simp add: unat_eq_zero [symmetric] unat_of_nat take_bit_nat_eq_self)
  have m: "unat (?n * 8) = 8 * length input" "unat ?m = 8 * length input + 1"
    using assms(2) by (simp_all add: unat_of_nat take_bit_nat_eq_self unat_word_ariths mult.commute)
  have lb: "length ?bits = 8 * length input" by (simp add: length_concat comp_def sum_list_triv)
  have "length (map (bytes s (fresh s)) [0..<unat ?m]) = 8 * (length input - 0) + 1"
    using m(2) by (simp del: upt_Suc)
  from binary_loop_correct [OF assms(2) refl _ this] obtain y where
    loop: "binary_loop input ?n 0 (map (bytes s (fresh s)) [0..<unat ?m]) = Some (?bits @ [y])"
    by (auto simp del: upt_Suc)
  have w: "write_at (?bits @ [y]) (unat (?n * 8)) [0] = Some (?bits @ [0])"
    using lb m by (subst write_at_end) auto
  have "take 8 (drop (8 * i) (?bits @ [0])) = byte_bits (input ! i)" if "i < length input" for i
  proof -
    have sum: "?bits = concat (map byte_bits (take i input)) @ byte_bits (input ! i) @
        concat (map byte_bits (drop (Suc i) input))"
      using that by (metis concat.simps(2) concat_append id_take_nth_drop list.simps(9) map_append)
    have len: "length (concat (map byte_bits (take i input))) = 8 * i"
      using that by (simp add: length_concat comp_def sum_list_triv)
    show ?thesis unfolding sum using len by simp
  qed
  then have "\<forall>i < length input. bits_byte (take 8 (drop (8 * i) (?bits @ [0]))) = input ! i"
    using bits_byte_bits by simp
  moreover have "ascii_to_binary input ?n s = Some (0, Some (?bits @ [0]), word_of_nat (8 * length input),
      s\<lparr>asked := asked s + 1, fresh := fresh s + 1, heap := (heap s)(fresh s \<mapsto> ?m)\<rparr>)"
    using n0 assms(3,4) loop w by (simp add: ascii_to_binary_def malloc_def mult.commute Let_def)
  ultimately show ?thesis by blast
qed

section \<open>Names, counts and random files\<close>

lemma default_rand_range_frame:
  assumes "default_rand_range rng n s = (r, m, s')"
  shows "grant s' = grant s \<and> asked s' = asked s \<and> fresh s' = fresh s \<and> heap s' = heap s \<and> answer s' = answer s"
  using assms unfolding default_rand_range_def ext_eq ext2_def printf_def
  by (auto split: if_splits prod.splits)

lemma create_random_file_fails: "create_random_file root exten path z default_generator s \<noteq> Some (0, path', z', s')"
  by (auto simp: create_random_file_def default_generator_def Let_def split: prod.splits)

lemma create_random_file_code:
  "create_random_file root exten path z default_generator s = Some (r, path', z', s') \<Longrightarrow> r = - 1"
  by (auto simp: create_random_file_def default_generator_def Let_def split: prod.splits if_splits)

text \<open>With the generator that \<open>get_default_random_generator\<close> builds, \<open>create_random_file\<close> never
  succeeds: as soon as it has its junk buffer it calls \<open>random->bytes\<close>, which nobody set. With memory
  and a working library it gets that far on every call.\<close>

lemma create_random_file_never:
  "create_random_file root exten path z default_generator s \<noteq> Some (0, path', z', s') \<and>
   ((\<forall>i. grant s i) \<and> bn_contract s \<and> bn_works s \<and> 0 < fresh s \<longrightarrow>
      create_random_file root exten path 0 default_generator s = None)"
proof (intro conjI impI)
  show "create_random_file root exten path z default_generator s \<noteq> Some (0, path', z', s')"
    by (rule create_random_file_fails)
  assume a: "(\<forall>i. grant s i) \<and> bn_contract s \<and> bn_works s \<and> 0 < fresh s"
  let ?s = "s\<lparr>asked := asked s + (if strrchr exten (CHR ''.'') = None then 2 else 1)\<rparr>"
  have "bn_contract ?s" "bn_works ?s" using a by (simp_all add: bn_contract_def bn_works_def bn_alloc_ok_def)
  from default_rand_range_bound [OF this, of 4095 0] obtain m s1 where
    m: "default_rand_range 4095 0 ?s = (0, m, s1)" "m \<le> 4095" by blast
  have s1: "grant s1 = grant s" "fresh s1 = fresh s" using default_rand_range_frame [OF m(1)] by simp_all
  have "unat (ucast m + 1 + 1 :: u64) = unat m + 2"
    using m(2) by (simp add: unat_word_ariths word_le_nat_alt)
  then have nz: "(ucast m + 1 + 1 :: u64) \<noteq> 0" by (metis add_2_eq_Suc' nat.distinct(1) unsigned_0)
  show "create_random_file root exten path 0 default_generator s = None"
    using a m(1) s1 nz
    by (cases "strrchr exten (CHR ''.'')")
      (simp_all add: create_random_file_def default_generator_def asprintf_def generate_file_name_def
        default_mem_alloc_def malloc_def Let_def)
qed

text \<open>What counts: the entries that are not hidden and are regular files.\<close>

definition countable :: "'z utils_scheme \<Rightarrow> string \<Rightarrow> string \<Rightarrow> bool" where
  "countable s dir e \<longleftrightarrow> \<not> (e \<noteq> [] \<and> hd e = CHR ''.'') \<and> is_file s (dir @ ''/'' @ e)"

lemma count_entries_correct:
  "count_entries dir es n s = (r, n', s') \<Longrightarrow> files s' = files s \<and> dirs s' = dirs s \<and>
     (r = 0 \<longrightarrow> n' = n + word_of_nat (length (filter (countable s dir) es)))"
proof (induction es arbitrary: n s)
  case Nil
  then show ?case by (auto simp: ext_eq printf_def split: if_splits)
next
  case (Cons e es)
  show ?case
  proof (cases "e \<noteq> [] \<and> hd e = CHR ''.''")
    case True
    with Cons show ?thesis by (auto simp: countable_def)
  next
    case False
    let ?p = "dir @ ''/'' @ e"
    obtain r1 fp s1 where 1: "asprintf ?p s = (r1, fp, s1)" by (metis prod_cases3)
    obtain r2 s2 where 2: "stat_path ?p s1 = (r2, s2)" by fastforce
    have f: "files s1 = files s" "dirs s1 = dirs s" "files s2 = files s" "dirs s2 = dirs s"
      using 1 2 by (auto simp: asprintf_def stat_path_def ext_eq split: if_splits)
    have fc: "countable s2 dir = countable s dir" using f by (auto simp: countable_def is_file_def fun_eq_iff)
    consider "r1 < 0" | "\<not> r1 < 0" "r2 < 0" | "\<not> r1 < 0" "\<not> r2 < 0" by blast
    then show ?thesis
    proof cases
      case 3
      let ?m = "if is_file s2 ?p then n + 1 else n"
      from Cons.prems 1 2 3 False have "count_entries dir es ?m s2 = (r, n', s')" by simp
      from Cons.IH [OF this] f fc False show ?thesis by (auto simp: countable_def is_file_def)
    qed (use Cons.prems 1 2 False f in \<open>auto simp: ext_eq printf_def\<close>)
  qed
qed

text \<open>When \<open>count_files_directory\<close> succeeds it has added to the count the number of regular files of
  the directory whose names do not start with a dot, modulo \<open>2^32\<close>, and the file system is unchanged.\<close>

lemma count_files_exact:
  assumes "count_files_directory n dir s = (0, n', s')"
  shows "\<exists>es. dirs s dir = Some es \<and> n' = n + word_of_nat (length (filter (countable s dir) es)) \<and>
     files s' = files s \<and> dirs s' = dirs s"
proof -
  let ?s = "s\<lparr>trace := trace s @ [(''opendir'', [])]\<rparr>"
  from assms obtain es where es: "dirs s dir = Some es" "count_entries dir es n ?s = (0, n', s')"
    by (auto simp: count_files_directory_def ext_eq split: option.splits if_splits)
  moreover have "countable ?s dir = countable s dir" by (auto simp: countable_def is_file_def fun_eq_iff)
  ultimately show ?thesis using count_entries_correct [OF es(2)] by auto
qed

section \<open>Generated names\<close>

lemma sha256_shape:
  assumes "sha256 inp out s = Some (0, p, s')"
  shows "\<exists>d. length d = 32 \<and> p = fresh s \<and> p \<noteq> NULL \<and> heap s' = (heap s)(p \<mapsto> 65) \<and>
     map (bytes s' p) [0..<65] = hex d @ [0]"
proof -
  have c: "cstr inp (s\<lparr>trace := x\<rparr>) = cstr inp s" for x by (simp add: cstr_def)
  from assms obtain msg s1 s2 where s': "store_bytes p 64 [0] s2 = Some s'"
    and s2: "store_bytes p 0 (hex (map (digest s 256 msg) [0..<32])) s1 = Some s2"
    and p: "heap s1 = (heap s)(p \<mapsto> 65)" "p = fresh s" "p \<noteq> NULL"
    by (auto simp: sha256_def ext_eq printf_def malloc_def Let_def c elim!: bind_SomeE split: if_splits)
  let ?d = "map (digest s 256 msg) [0..<32]"
  have "map (bytes s' p) [0..<65] = hex ?d @ [0]"
    using store_bytes_get [OF s2] store_bytes_get [OF s'] by (auto simp: length_hex nth_append intro!: nth_equalityI)
  moreover have "heap s' = heap s1" using s2 s' by (auto simp: store_bytes_def split: if_splits)
  ultimately show ?thesis using p by (intro exI [of _ ?d]) auto
qed

lemma hex_digit_range: "n < 16 \<Longrightarrow> hex_digit n \<in> {48..57} \<union> {97..102}"
  unfolding hex_digit_def by (auto simp: word_less_nat_alt word_le_nat_alt unat_word_ariths not_less)

lemma hex_range: "b \<in> set (hex bs) \<Longrightarrow> b \<in> {48..57} \<union> {97..102}"
proof -
  have "x div 16 < 16" "x mod 16 < 16" for x :: u8
    using unat_u8_less [of x] by (auto simp: word_less_nat_alt unat_div_distrib unat_mod_distrib)
  then show "b \<in> set (hex bs) \<Longrightarrow> b \<in> {48..57} \<union> {97..102}"
    using hex_digit_range by (auto simp: hex_def hex_byte_def)
qed

lemma cstr_hex:
  assumes "heap s p = Some 65" and "map (bytes s p) [0..<65] = hex d @ [0]"
  shows "cstr p s = Some (hex d)"
proof -
  have "\<forall>b \<in> set (hex d). b \<noteq> 0" using hex_range [of _ d] by fastforce
  then have "takeWhile (\<lambda>b. b \<noteq> 0) (hex d @ [0]) = hex d" by (simp add: takeWhile_append2)
  moreover have "map (bytes s p) [0..<unat (65 :: u64)] = hex d @ [0]" unfolding assms(2) [symmetric] by simp
  ultimately show ?thesis using assms(1) by (simp only: cstr_def bind.bind_lunit Let_def) simp
qed

definition is_hex :: "string \<Rightarrow> bool" where
  "is_hex t \<longleftrightarrow> (\<forall>c \<in> set t. of_char c \<in> {48..57::nat} \<union> {97..102})"

lemma hex_text: "is_hex (map (\<lambda>b. char_of (unat b)) (hex d))"
proof -
  have "unat b \<in> {48..57} \<union> {97..102}" if "b \<in> set (hex d)" for b
    using hex_range [OF that] by (auto simp: word_le_nat_alt)
  moreover have "of_char (char_of (unat (b :: u8)) :: char) = unat b" for b
    using unat_u8_less [of b] by simp
  ultimately show ?thesis by (auto simp: is_hex_def)
qed

text \<open>The extension a generated name ends with.\<close>

definition dotted :: "string \<Rightarrow> string" where
  "dotted e = (if CHR ''.'' \<in> set e then e else CHR ''.'' # e)"

lemma file_name_of_ok:
  "file_name_of tx e s = (0, nm, s') \<Longrightarrow> nm = Some (tx @ dotted e) \<and> heap s' = heap s"
  by (auto simp: file_name_of_def strrchr_def dotted_def asprintf_def printf_def split: if_splits)

lemma name_return_cases:
  assumes "name_return c n a b s = Some (r, nm, s')"
  shows "r = c \<and> nm = n \<and> (a \<noteq> NULL \<and> b \<noteq> NULL \<longrightarrow> heap s' = (heap s)(a := None, b := None))"
  using assms by (auto simp: name_return_def cleanup_buf_def free_def split: if_splits)

lemma name_return_failed [simp]: "name_return (-1) n a b s \<noteq> Some (0, nm, s')"
  by (auto dest: name_return_cases)

lemma rand_bytes_frame: "rand_bytes p n s = Some (r, s') \<Longrightarrow> heap s' = heap s \<and> fresh s' = fresh s"
  by (auto simp: rand_bytes_def ext_fill_def ext_eq store_bytes_def printf_def Let_def split: if_splits)

lemma store_bytes_frame: "store_bytes p k bs s = Some s' \<Longrightarrow> heap s' = heap s \<and> fresh s' = fresh s"
  by (auto simp: store_bytes_def split: if_splits)

lemma sha256_codes: "sha256 inp out s = Some (r, p, s') \<Longrightarrow> r = 0 \<or> r = -1"
  by (auto simp: sha256_def ext_eq printf_def malloc_def Let_def elim!: bind_SomeE split: if_splits)

lemma file_name_of_code: "file_name_of tx e s = (r, nm, s') \<Longrightarrow> r = 0 \<or> r = -1"
  by (auto simp: file_name_of_def asprintf_def split: if_splits option.splits)

lemma generate_name_steps:
  assumes "generate_name e type n s = Some (0, nm, s')" and "0 < fresh s"
  obtains rtrn s1 s2 p s3 tx s4 where
    "rand_bytes (fresh s) (word_of_nat PATH_MAX) (s\<lparr>asked := asked s + 1, fresh := fresh s + 1,
       heap := (heap s)(fresh s \<mapsto> word_of_nat (PATH_MAX + 1))\<rparr>) = Some (rtrn, s1)"
    and "store_bytes (fresh s) PATH_MAX [0] s1 = Some s2"
    and "sha256 (fresh s) NULL s2 = Some (0, p, s3)" and "ctext p s3 = Some tx"
    and "name_return 0 nm p (fresh s) s4 = Some (0, nm, s')" and "heap s4 = heap s3"
    and "nm = Some (case type of DIR_NAME \<Rightarrow> tx | FILE_NAME \<Rightarrow> tx @ dotted (the e))"
proof -
  from assms obtain rtrn s1 s2 r p s3 tx where
    1: "rand_bytes (fresh s) (word_of_nat PATH_MAX) (s\<lparr>asked := asked s + 1, fresh := fresh s + 1,
       heap := (heap s)(fresh s \<mapsto> word_of_nat (PATH_MAX + 1))\<rparr>) = Some (rtrn, s1)" and
    2: "store_bytes (fresh s) PATH_MAX [0] s1 = Some s2" and
    3: "sha256 (fresh s) NULL s2 = Some (r, p, s3)" "\<not> r < 0" and 4: "ctext p s3 = Some tx" and
    rest: "(case type of
        DIR_NAME \<Rightarrow>
          let (rtrn, name, t) = asprintf tx s3 in
          if rtrn < 0
          then name_return (-1) name p (fresh s) (printf ''Can't create dir path: %s'' t)
          else name_return 0 name p (fresh s) t
      | FILE_NAME \<Rightarrow>
          (case e of
             None \<Rightarrow> None
           | Some e \<Rightarrow>
               let (rtrn, name, t) = file_name_of tx e s3 in
               name_return rtrn name p (fresh s) t)) = Some (0, nm, s')"
    by (auto simp: generate_name_def malloc_def elim!: bind_SomeE split: if_splits)
  with sha256_codes [OF 3(1)] have r: "r = 0" by auto
  show thesis
  proof (cases type)
    case DIR_NAME
    with rest have "name_return 0 (Some tx) p (fresh s) (s3\<lparr>asked := asked s3 + 1\<rparr>) = Some (0, nm, s')"
      by (auto simp: asprintf_def split: if_splits)
    with name_return_cases [OF this] show thesis
      using that [OF 1 2 3(1) [unfolded r] 4, of "s3\<lparr>asked := asked s3 + 1\<rparr>"] DIR_NAME by auto
  next
    case FILE_NAME
    then obtain ee where ee: "e = Some ee" using rest by (cases e) auto
    obtain c name t where f: "file_name_of tx ee s3 = (c, name, t)" by (metis prod_cases3)
    with rest FILE_NAME ee have nr: "name_return c name p (fresh s) t = Some (0, nm, s')" by simp
    with name_return_cases [OF nr] have c: "c = 0" "name = nm" by auto
    with file_name_of_ok [of tx ee s3] f have "nm = Some (tx @ dotted ee)" "heap t = heap s3" by auto
    then show thesis using that [OF 1 2 3(1) [unfolded r] 4, of t] nr c FILE_NAME ee by auto
  qed
qed

text \<open>When \<open>generate_name\<close> succeeds, the name is 64 hexadecimal digits, followed for a file by the
  extension with a dot put in front of it if it had none, and every buffer it used is released.\<close>

lemma generate_name_form:
  assumes "generate_name e type n s = Some (0, nm, s')" and "wf_os s"
  shows "heap s' = heap s \<and> (\<exists>tx. length tx = 64 \<and> is_hex tx \<and>
     nm = Some (case type of DIR_NAME \<Rightarrow> tx | FILE_NAME \<Rightarrow> tx @ dotted (the e)))"
proof -
  let ?r = "fresh s"
  have r0: "0 < ?r" "heap s ?r = None" "heap s (?r + 1) = None"
    using assms(2) wf_os_below [OF assms(2)] by (auto simp: wf_os_def heap_below_fresh)
  from generate_name_steps [OF assms(1) r0(1)] obtain rtrn s1 s2 p s3 tx s4 where
    1: "rand_bytes ?r (word_of_nat PATH_MAX) (s\<lparr>asked := asked s + 1, fresh := ?r + 1,
       heap := (heap s)(?r \<mapsto> word_of_nat (PATH_MAX + 1))\<rparr>) = Some (rtrn, s1)"
    and 2: "store_bytes ?r PATH_MAX [0] s1 = Some s2"
    and 3: "sha256 ?r NULL s2 = Some (0, p, s3)" and 4: "ctext p s3 = Some tx"
    and 5: "name_return 0 nm p ?r s4 = Some (0, nm, s')" and 6: "heap s4 = heap s3"
    and 7: "nm = Some (case type of DIR_NAME \<Rightarrow> tx | FILE_NAME \<Rightarrow> tx @ dotted (the e))" by metis
  from sha256_shape [OF 3] obtain d where d: "length d = 32" "p = fresh s2" "p \<noteq> NULL"
    "heap s3 = (heap s2)(p \<mapsto> 65)" "map (bytes s3 p) [0..<65] = hex d @ [0]" by blast
  have f: "heap s2 = (heap s)(?r \<mapsto> word_of_nat (PATH_MAX + 1))" "p = ?r + 1"
    using rand_bytes_frame [OF 1] store_bytes_frame [OF 2] d(2) by simp_all
  have "tx = map (\<lambda>b. char_of (unat b)) (hex d)"
    using 4 cstr_hex [of s3 p d] d(4,5) by (simp add: ctext_def)
  then have "is_hex tx" "length tx = 64" using hex_text d(1) by (simp_all add: length_hex)
  moreover have "heap s' = heap s"
    using name_return_cases [OF 5] 6 d(3,4) f r0 by (auto simp: fun_eq_iff)
  ultimately show ?thesis using 7 by blast
qed

lemma sha256_runs:
  assumes "\<forall>i. grant s i" and "0 < fresh s" and "cstr inp s \<noteq> None"
    and "\<forall>k f a. 0 \<le> fst (answer s k f a)"
  shows "\<exists>p s'. sha256 inp out s = Some (0, p, s') \<and> grant s' = grant s \<and> answer s' = answer s \<and> fresh s \<le> fresh s'"
proof -
  have c: "cstr inp (s\<lparr>trace := x\<rparr>) = cstr inp s" for x by (simp add: cstr_def)
  have "\<not> fst (answer s k f a) < 0" for k f a using assms(4) by (simp add: not_less)
  with assms(1-3) c show ?thesis
    by (auto simp: sha256_def ext_eq malloc_def store_bytes_def room_def length_hex Let_def)
qed

lemma generate_name_runs:
  assumes "\<forall>i. grant s i" and "wf_os s" and "\<forall>k f a. 0 \<le> fst (answer s k f a)"
    and "\<forall>k a. fst (answer s k ''RAND_bytes'' a) = 1" and "type = DIR_NAME \<or> e \<noteq> None"
  shows "\<exists>nm s'. generate_name e type n s = Some (0, Some nm, s') \<and> grant s' = grant s \<and> answer s' = answer s \<and> fresh s \<le> fresh s'"
proof -
  let ?r = "fresh s"
  let ?s0 = "s\<lparr>asked := asked s + 1, fresh := ?r + 1, heap := (heap s)(?r \<mapsto> word_of_nat (PATH_MAX + 1))\<rparr>"
  have r0: "0 < ?r" using assms(2) by (simp add: wf_os_def)
  have um: "unat (word_of_nat PATH_MAX :: u32) = 4096" "unat (word_of_nat (PATH_MAX + 1) :: u64) = 4097"
    by (simp_all add: PATH_MAX_def)
  obtain s1 where 1: "rand_bytes ?r (word_of_nat PATH_MAX) ?s0 = Some (0, s1)" "grant s1 = grant s"
      "answer s1 = answer s" "heap s1 = heap ?s0" "fresh s1 = ?r + 1"
    using assms(4) um by (simp add: rand_bytes_def ext_fill_def ext_eq store_bytes_def room_def Let_def)
  obtain s2 where 2: "store_bytes ?r PATH_MAX [0] s1 = Some s2" "grant s2 = grant s" "answer s2 = answer s"
      "heap s2 = heap s1" "fresh s2 = ?r + 1" "bytes s2 ?r PATH_MAX = 0"
    using 1 um by (simp add: store_bytes_def room_def PATH_MAX_def)
  have "cstr ?r s2 \<noteq> None"
    using cstr_terminated [of s2 ?r "word_of_nat (PATH_MAX + 1)" PATH_MAX] 1(4) 2(4,6) um
    by (auto simp: PATH_MAX_def)
  with sha256_runs [of s2 ?r NULL] 2 assms obtain p s3 where
    3: "sha256 ?r NULL s2 = Some (0, p, s3)" "grant s3 = grant s" "answer s3 = answer s" "fresh s \<le> fresh s3" by force
  from sha256_shape [OF 3(1)] obtain d where d: "p = fresh s2" "p \<noteq> NULL"
    "heap s3 = (heap s2)(p \<mapsto> 65)" "map (bytes s3 p) [0..<65] = hex d @ [0]" by blast
  then have 4: "ctext p s3 = Some (map (\<lambda>b. char_of (unat b)) (hex d))"
    using cstr_hex [of s3 p d] by (simp add: ctext_def)
  have g: "grant s i" for i using assms(1) by simp
  have done_ok: "\<exists>s'. name_return 0 nm p ?r (s3\<lparr>asked := k\<rparr>) = Some (0, nm, s') \<and> grant s' = grant s \<and> answer s' = answer s \<and> fresh s \<le> fresh s'"
    for nm k using r0 1(4) 2(4,5) 3 d by (simp add: name_return_def cleanup_buf_def free_def domI)
  show ?thesis
  proof (cases type)
    case DIR_NAME
    with g r0 1(1) 2(1) 3 4 show ?thesis
      using done_ok [of "Some (map (\<lambda>b. char_of (unat b)) (hex d))" "Suc (asked s3)"]
      by (auto simp: generate_name_def malloc_def asprintf_def)
  next
    case FILE_NAME
    with assms(5) obtain x where x: "e = Some x" by auto
    have "\<exists>nm k. file_name_of (map (\<lambda>b. char_of (unat b)) (hex d)) x s3 = (0, Some nm, s3\<lparr>asked := k\<rparr>)"
      using g 3(2) by (cases "strrchr x (CHR ''.'')") (auto simp: file_name_of_def asprintf_def)
    then obtain k nm where "file_name_of (map (\<lambda>b. char_of (unat b)) (hex d)) x s3 = (0, Some nm, s3\<lparr>asked := k\<rparr>)" by blast
    with FILE_NAME x g r0 1(1) 2(1) 3 4 show ?thesis
      using done_ok [of "Some nm" k] by (auto simp: generate_name_def malloc_def)
  qed
qed

end
