(* ===== verification/Random_Source.thy ===== *)
theory Random_Source
  imports Utils
begin

text \<open>
  What the clients of \<open>random->range\<close> rely on: a request for a range succeeds with a number up to the
  range, the range included, and leaves the source usable. The default generator of \<open>Crypto\<close> is such a
  source when the big number library works as documented.
\<close>

type_synonym 's rangef = "u32 \<Rightarrow> u32 \<Rightarrow> 's \<Rightarrow> int \<times> u32 \<times> 's"

locale random_source =
  fixes ok :: "'s \<Rightarrow> bool"
    and rg :: "'s rangef"
  assumes range_ok: "ok s \<Longrightarrow> \<exists>m s'. rg n old s = (0, m, s') \<and> m \<le> n \<and> ok s'"
begin

lemma range_cases:
  assumes "ok s"
  obtains m s' where "rg n old s = (0, m, s')" and "m \<le> n" and "ok s'"
  using range_ok [OF assms] by blast

end

definition bn_ready :: "'z os_scheme \<Rightarrow> bool" where
  "bn_ready s \<longleftrightarrow> bn_contract s \<and> bn_works s"

lemma bn_ready_cong: "answer t = answer s \<Longrightarrow> bn_ready t = bn_ready s"
  by (simp add: bn_ready_def bn_contract_def bn_works_def bn_alloc_ok_def)

interpretation rs: random_source bn_ready default_rand_range
proof
  fix s :: "'a os_scheme" and n old
  assume "bn_ready s"
  then obtain m s' where run: "default_rand_range n old s = (0, m, s')" "m \<le> n"
    using default_rand_range_bound [of s n old] by (auto simp: bn_ready_def)
  with \<open>bn_ready s\<close> default_rand_range_frame [OF run(1)] show
    "\<exists>m s'. default_rand_range n old s = (0, m, s') \<and> m \<le> n \<and> bn_ready s'"
    using bn_ready_cong [of s' s] by auto
qed

definition bn_os :: os where
  "bn_os = os0\<lparr>answer := bn_answer\<rparr>"

lemma bn_os_ready: "bn_ready bn_os"
  using bn_answer_ok by (simp add: bn_ready_def bn_os_def)

end
