(* ===== verification/Network.thy ===== *)
theory Network
  imports Random_Source
begin

text \<open>
  Model of \<^verbatim>\<open>src/src/network/network.c\<close> and of \<^verbatim>\<open>network-linux.c\<close> beside it: the loopback servers the
  fuzzer connects its sockets to. An address is the pair of family and port; ports are kept in host
  byte order and truncated to 16 bits as \<open>htons\<close> does. The static \<open>stop\<close> flag of the file is \<open>net_stop\<close>; no
  function of the file writes it.
\<close>

record network = utils +
  ss_port :: u32
  net_stop :: int
  listen_fd4 :: int
  listen_fd6 :: int

datatype network_mode = SOCKET_SERVER

definition AF_INET :: int where "AF_INET = 2"
definition AF_INET6 :: int where "AF_INET6 = 10"
definition SOCK_STREAM :: int where "SOCK_STREAM = 1"

definition htons :: "u32 \<Rightarrow> int" where
  "htons p = uint p mod 2 ^ 16"

definition get_server_port :: "'z network_scheme \<Rightarrow> u32" where
  "get_server_port s = ss_port s"

text \<open>Both functions return the descriptor they store through their argument.\<close>

definition connect_ipv4 :: "'z network_scheme \<Rightarrow> int \<times> int \<times> 'z network_scheme" where
  "connect_ipv4 s =
     (let (sockFd, s) = ext ''socket'' [AF_INET, SOCK_STREAM, 0] s in
      if sockFd < 0 then (-1, sockFd, printf ''socket: %s'' s)
      else
        let (rtrn, s) = ext ''connect'' [sockFd, AF_INET, htons (ss_port s)] s in
        if rtrn < 0 then (-1, sockFd, printf ''connect: %s'' s) else (0, sockFd, s))"

definition connect_ipv6 :: "'z network_scheme \<Rightarrow> int \<times> int \<times> 'z network_scheme" where
  "connect_ipv6 s =
     (let (sockFd, s) = ext ''socket'' [AF_INET6, SOCK_STREAM, 0] s in
      if sockFd < 0 then (-1, sockFd, printf ''socket: %s'' s)
      else
        let (rtrn, s) = ext ''connect'' [sockFd, AF_INET6, htons (ss_port s + 1)] s in
        if rtrn < 0 then (-1, sockFd, printf ''connect: %s'' s) else (0, sockFd, s))"

definition setup_ipv4_tcp_server :: "'z network_scheme \<Rightarrow> int \<times> int \<times> 'z network_scheme" where
  "setup_ipv4_tcp_server s =
     (let (sockFd, s) = ext ''socket'' [AF_INET, SOCK_STREAM, 0] s in
      if sockFd < 0 then (-1, sockFd, printf ''Socket: %s'' s)
      else
        let port = get_server_port s;
            (rtrn, s) = ext ''bind'' [sockFd, AF_INET, htons port] s in
        if rtrn < 0 then (-1, sockFd, printf ''Bind: %s'' s) else (0, sockFd, s))"

definition setup_ipv6_tcp_server :: "'z network_scheme \<Rightarrow> int \<times> int \<times> 'z network_scheme" where
  "setup_ipv6_tcp_server s =
     (let (sockFd, s) = ext ''socket'' [AF_INET6, SOCK_STREAM, 0] s in
      if sockFd < 0 then (-1, sockFd, printf ''Socket ipv6: %s'' s)
      else
        let port = get_server_port s;
            (rtrn, s) = ext ''bind'' [sockFd, AF_INET6, htons (port + 1)] s in
        if rtrn < 0 then (-1, sockFd, printf ''bind 6: %s'' s) else (0, sockFd, s))"

text \<open>The arguments of the call are always \<open>&listen_fd4\<close> and \<open>&listen_fd6\<close>.\<close>

definition setup_socket_server :: "'z network_scheme \<Rightarrow> int \<times> 'z network_scheme" where
  "setup_socket_server s =
     (let s = printf ''Setting Up Socket Server'' s;
          (rtrn, fd, s) = setup_ipv4_tcp_server s;
          s = s\<lparr>listen_fd4 := fd\<rparr> in
      if rtrn < 0 then (-1, printf ''Can't set up ipv4 socket server'' s)
      else
        let (rtrn, fd, s) = setup_ipv6_tcp_server s;
            s = s\<lparr>listen_fd6 := fd\<rparr> in
        if rtrn < 0 then (-1, printf ''Can't set up ipv6 socket server'' s) else (0, s))"

definition accept_client :: "int \<Rightarrow> 'z os_scheme \<Rightarrow> int \<times> 'z os_scheme" where
  "accept_client listenFd s =
     (let (clientFd, s) = ext ''accept'' [listenFd] s in
      if clientFd < 0 then (-1, printf ''accept: %s'' s)
      else let (_, s) = ext ''close'' [clientFd] s in (0, s))"

text \<open>The loop of both server threads; \<open>None\<close> is a run that goes on forever.\<close>

partial_function (option) accept_thread_start :: "int \<Rightarrow> 'z network_scheme \<Rightarrow> 'z network_scheme option" where
  "accept_thread_start sockFd s =
     (if net_stop s = 1 then Some s
      else
        let (rtrn, s) = ext ''listen'' [sockFd, 1024] s in
        if rtrn < 0 then Some (printf ''listen: %s'' s)
        else
          let (rtrn, s) = accept_client sockFd s in
          if rtrn < 0 then Some (printf ''Can't accept'' s)
          else accept_thread_start sockFd s)"

definition start_thread :: "'z network_scheme \<Rightarrow> 'z network_scheme option" where
  "start_thread s =
     (let s = printf ''Starting Socket Server'' s;
          (rtrn, s) = ext ''pthread_create accept_thread_start'' [] s in
      if rtrn < 0 then Some (printf ''Can't start the IPV6 accept thread'' s)
      else do { s \<leftarrow> accept_thread_start (listen_fd4 s) s;
                if net_stop s = 1 then let (_, s) = ext ''pthread_join'' [] s in Some s else Some s })"

definition pick_random_port :: "u32 \<Rightarrow> 'z network_scheme \<Rightarrow> int \<times> u32 \<times> 'z network_scheme" where
  "pick_random_port port s =
     (let (allocator, s) = get_default_allocator s in
      if allocator = NULL then (-1, port, printf ''Failed to get allocator'' s)
      else
        let (console_ptr, s) = get_console_writter s in
        if console_ptr = NULL then (-1, port, printf ''Failed to get console writter'' s)
        else
          let (random, s) = get_default_random_generator s in
          if random = NULL then (-1, port, printf ''Failed to get random number generator'' s)
          else
            let (rtrn, offset, s) = default_rand_range 10000 0 s in
            if rtrn < 0 then (-1, port, printf ''Can't generate random number'' s)
            else (0, 1200 + offset, s))"

definition select_port_number :: "'z network_scheme \<Rightarrow> int \<times> 'z network_scheme" where
  "select_port_number s =
     (let (rtrn, port, s) = pick_random_port (ss_port s) s;
          s = s\<lparr>ss_port := port\<rparr> in
      if rtrn < 0 then (-1, printf ''Can't pick random port'' s) else (0, s))"

definition start_socket_server :: "'z network_scheme \<Rightarrow> int \<times> 'z network_scheme" where
  "start_socket_server s =
     (let (rtrn, s) = select_port_number s in
      if rtrn < 0 then (-1, printf ''Can't select port number'' s)
      else
        let (rtrn, s) = setup_socket_server s in
        if rtrn < 0 then (-1, printf ''Can't set up socket server'' s)
        else
          let (rtrn, s) = ext ''pthread_create start_thread'' [] s in
          if rtrn < 0 then (-1, printf ''Can't start socket server thread'' s) else (0, s))"

definition setup_network_module :: "network_mode \<Rightarrow> 'z network_scheme \<Rightarrow> int \<times> 'z network_scheme" where
  "setup_network_module mode s =
     (case mode of
        SOCKET_SERVER \<Rightarrow>
          let (rtrn, s) = start_socket_server s in
          if rtrn < 0 then (-1, printf ''Can't setup the socket server'' s) else (0, s))"

section \<open>Clients reach the servers\<close>

lemma alloc_answer:
  "get_default_allocator s = (p, s') \<Longrightarrow> answer s' = answer s"
  "get_console_writter s = (p, s') \<Longrightarrow> answer s' = answer s"
  "get_default_random_generator s = (p, s') \<Longrightarrow> answer s' = answer s"
  by (auto simp: get_default_allocator_def get_console_writter_def get_default_random_generator_def
      default_mem_alloc_def malloc_def printing_defs split: if_splits)

lemma pick_random_port_cases:
  assumes "pick_random_port old s = (r, p, s')" and "bn_ready s"
  shows "r = - 1 \<or> r = 0 \<and> 1200 \<le> unat p \<and> unat p \<le> 11200"
proof -
  obtain a1 s1 where 1: "get_default_allocator s = (a1, s1)" by fastforce
  obtain a2 s2 where 2: "get_console_writter s1 = (a2, s2)" by fastforce
  obtain a3 s3 where 3: "get_default_random_generator s2 = (a3, s3)" by fastforce
  have "bn_ready s3" using assms(2) alloc_answer(1) [OF 1] alloc_answer(2) [OF 2] alloc_answer(3) [OF 3]
    by (metis bn_ready_cong)
  then obtain n u where 4: "default_rand_range 10000 0 s3 = (0, n, u)" and n: "n \<le> 10000"
    by (rule rs.range_cases)
  from n have "unat n \<le> 10000" by (simp add: word_le_nat_alt)
  then have "unat (1200 + n) = 1200 + unat n" by (simp add: unat_word_ariths)
  with assms(1) \<open>unat n \<le> 10000\<close> show ?thesis
    by (auto simp: pick_random_port_def 1 2 3 4 split: if_splits)
qed

lemma htons_small: "unat p \<le> 11200 \<Longrightarrow> htons p = uint p \<and> htons (p + 1) = uint p + 1"
proof -
  assume a: "unat p \<le> 11200"
  then have small: "uint p \<le> 11200" using uint_nat [of p] by linarith
  have "p + 1 \<noteq> 0"
  proof
    assume "p + 1 = 0"
    then have "p = - 1" by (simp add: eq_neg_iff_add_eq_0)
    with a show False by simp
  qed
  then have "uint (p + 1) = uint p + 1" by (rule uint_plus1_u32)
  with small show ?thesis using uint_nonnegative [of p] by (simp add: htons_def)
qed

lemma server_binds:
  "setup_ipv4_tcp_server s = (r, fd, s') \<Longrightarrow> r = - 1 \<or> r = 0 \<and> ss_port s' = ss_port s \<and>
     (''bind'', [fd, AF_INET, htons (ss_port s)]) \<in> set (trace s')"
  "setup_ipv6_tcp_server s = (r, fd, s') \<Longrightarrow> r = - 1 \<or> r = 0 \<and> ss_port s' = ss_port s \<and>
     listen_fd4 s' = listen_fd4 s \<and> set (trace s) \<subseteq> set (trace s') \<and>
     (''bind'', [fd, AF_INET6, htons (ss_port s + 1)]) \<in> set (trace s')"
  by (auto simp: setup_ipv4_tcp_server_def setup_ipv6_tcp_server_def get_server_port_def ext_eq Let_def
      split: if_splits)

lemma setup_socket_server_binds:
  assumes "setup_socket_server s = (r, s')"
  shows "r = - 1 \<or> r = 0 \<and> ss_port s' = ss_port s \<and>
     (''bind'', [listen_fd4 s', AF_INET, htons (ss_port s)]) \<in> set (trace s') \<and>
     (''bind'', [listen_fd6 s', AF_INET6, htons (ss_port s + 1)]) \<in> set (trace s')"
proof -
  obtain r4 fd4 s4 where 4: "setup_ipv4_tcp_server (printf ''Setting Up Socket Server'' s) = (r4, fd4, s4)"
    by (metis prod_cases3)
  obtain r6 fd6 s6 where 6: "setup_ipv6_tcp_server (s4\<lparr>listen_fd4 := fd4\<rparr>) = (r6, fd6, s6)"
    by (metis prod_cases3)
  have s': "r = - 1 \<or> r = 0 \<and> r4 \<noteq> - 1 \<and> r6 \<noteq> - 1 \<and> s' = s6\<lparr>listen_fd6 := fd6\<rparr>"
    using assms by (auto simp: setup_socket_server_def 4 6 Let_def split: if_splits)
  show ?thesis
    using s' server_binds(1) [OF 4] server_binds(2) [OF 6]
    by (auto simp: printing_defs)
qed

text \<open>C30. After a successful set-up of the network module, with a big number library that works as
  documented, the IPv4 server is bound to a port between 1200 and 11200 and the IPv6 server to the next
  one, and a client that connects later, in whatever state with that port, connects to the port of the
  server of its family.\<close>

theorem clients_reach_servers:
  fixes s s' :: "'z network_scheme"
  assumes "setup_network_module SOCKET_SERVER s = (0, s')" and "bn_ready s"
  shows "\<exists>port. 1200 \<le> port \<and> port \<le> 11200 \<and> uint (ss_port s') = port \<and>
     (''bind'', [listen_fd4 s', AF_INET, port]) \<in> set (trace s') \<and>
     (''bind'', [listen_fd6 s', AF_INET6, port + 1]) \<in> set (trace s') \<and>
     (\<forall>(t :: 'z network_scheme) fd t'. ss_port t = ss_port s' \<longrightarrow>
        (connect_ipv4 t = (0, fd, t') \<longrightarrow> last (trace t') = (''connect'', [fd, AF_INET, port])) \<and>
        (connect_ipv6 t = (0, fd, t') \<longrightarrow> last (trace t') = (''connect'', [fd, AF_INET6, port + 1])))"
proof -
  obtain r p t where pick: "pick_random_port (ss_port s) s = (r, p, t)" by (metis prod_cases3)
  obtain q u where srv: "setup_socket_server (t\<lparr>ss_port := p\<rparr>) = (q, u)" by fastforce
  note cases = pick_random_port_cases [OF pick assms(2)] setup_socket_server_binds [OF srv]
  from assms(1) cases have s': "s' = u\<lparr>trace := trace u @ [(''pthread_create start_thread'', [])]\<rparr>"
    and ok: "r = 0" "q = 0"
    by (auto simp: setup_network_module_def start_socket_server_def select_port_number_def ext_eq Let_def
        pick srv split: if_splits)
  from cases ok have range: "1200 \<le> unat p" "unat p \<le> 11200" by auto
  note h = htons_small [OF range(2)]
  note b = cases(2) [unfolded ok]
  have "1200 \<le> uint p" "uint p \<le> 11200" using range uint_nat [of p] by linarith+
  moreover have "uint (ss_port s') = uint p" using b by (simp add: s')
  moreover have "(''bind'', [listen_fd4 s', AF_INET, uint p]) \<in> set (trace s')"
    "(''bind'', [listen_fd6 s', AF_INET6, uint p + 1]) \<in> set (trace s')" using b h by (simp_all add: s')
  moreover have "connect_ipv4 t = (0, fd, t') \<longrightarrow> last (trace t') = (''connect'', [fd, AF_INET, uint p])"
    if "ss_port t = ss_port s'" for t :: "'z network_scheme" and fd t'
    using that b h by (auto simp: s' connect_ipv4_def ext_eq printing_defs split: if_splits)
  moreover have "connect_ipv6 t = (0, fd, t') \<longrightarrow> last (trace t') = (''connect'', [fd, AF_INET6, uint p + 1])"
    if "ss_port t = ss_port s'" for t :: "'z network_scheme" and fd t'
    using that b h by (auto simp: s' connect_ipv6_def ext_eq printing_defs split: if_splits)
  ultimately show ?thesis by blast
qed

section \<open>The server threads\<close>

text \<open>Every call of \<open>listen\<close> and \<open>accept\<close> on the descriptor succeeds.\<close>

definition serves :: "int \<Rightarrow> 'z os_scheme \<Rightarrow> bool" where
  "serves fd s \<longleftrightarrow> (\<forall>k. 0 \<le> fst (answer s k ''listen'' [fd, 1024]) \<and> 0 \<le> fst (answer s k ''accept'' [fd]))"

lemma serves_trace [simp]: "serves fd (s\<lparr>trace := tr\<rparr>) = serves fd s"
  by (simp add: serves_def)

lemma serves_accept: "serves fd s \<Longrightarrow> \<exists>s'. accept_client fd s = (0, s') \<and> serves fd s' \<and> net_stop s' = net_stop s"
  for s :: "'z network_scheme"
  by (auto simp: accept_client_def ext_eq serves_def not_less)

lemma accept_thread_ends:
  assumes "accept_thread_start fd s = Some s'"
  shows "net_stop s \<noteq> 1 \<longrightarrow> \<not> serves fd s"
proof (rule accept_thread_start.raw_induct [OF _ assms], intro impI notI)
  fix rec fd s' and s :: "'a network_scheme"
  assume IH: "\<And>fd s s'. rec fd s = Some s' \<Longrightarrow> net_stop s \<noteq> 1 \<longrightarrow> \<not> serves fd s"
    and run: "(if net_stop s = 1 then Some s
      else
        let (rtrn, s) = ext ''listen'' [fd, 1024] s in
        if rtrn < 0 then Some (printf ''listen: %s'' s)
        else
          let (rtrn, s) = accept_client fd s in
          if rtrn < 0 then Some (printf ''Can't accept'' s) else rec fd s) = Some s'"
    and stop: "net_stop s \<noteq> 1" and sv: "serves fd s"
  let ?t = "s\<lparr>trace := trace s @ [(''listen'', [fd, 1024])]\<rparr>"
  obtain u where u: "accept_client fd ?t = (0, u)" "serves fd u" "net_stop u = net_stop s"
    using serves_accept [of fd ?t] sv by auto
  have "0 \<le> fst (answer s (length (trace s)) ''listen'' [fd, 1024])" using sv by (simp add: serves_def)
  with run stop u(1) have "rec fd u = Some s'" by (simp add: ext_eq)
  with IH u stop show False by auto
qed

text \<open>No function of the module sets the stop flag, so a server thread runs for as long as its socket
  works: with the flag unset and no failing \<open>listen\<close> or \<open>accept\<close> neither thread ever returns.\<close>

lemma servers_run_forever:
  assumes "net_stop s \<noteq> 1" and "serves (listen_fd4 s) s" and "serves (listen_fd6 s) s"
    and "0 \<le> fst (answer s (length (trace s)) ''pthread_create accept_thread_start'' [])"
  shows "accept_thread_start (listen_fd6 s) s = None \<and> start_thread s = None"
proof
  show "accept_thread_start (listen_fd6 s) s = None"
    using accept_thread_ends [of "listen_fd6 s" s] assms by (cases "accept_thread_start (listen_fd6 s) s") auto
  let ?t = "s\<lparr>console := console s @ [(Stdout, ''Starting Socket Server'')],
              trace := trace s @ [(''pthread_create accept_thread_start'', [])]\<rparr>"
  have "serves (listen_fd4 s) ?t" "net_stop ?t \<noteq> 1" using assms by (simp_all add: serves_def)
  then have "accept_thread_start (listen_fd4 s) ?t = None"
    using accept_thread_ends [of "listen_fd4 s" ?t] by (cases "accept_thread_start (listen_fd4 s) ?t") auto
  with assms(4) show "start_thread s = None" by (simp add: start_thread_def ext_eq printing_defs)
qed

definition network0 :: network where
  "network0 = utils.extend (utils0\<lparr>answer := bn_answer\<rparr>) (network.fields 0 0 3 4)"

lemma network0_simps [simp]:
  "answer network0 = bn_answer" "grant network0 = (\<lambda>_. True)" "asked network0 = 0" "fresh network0 = 1"
  "net_stop network0 = 0" "trace network0 = []" "heap network0 = Map.empty"
  by (simp_all add: network0_def utils0_def utils.defs network.defs)

lemma network0_ready: "bn_ready network0"
  using bn_answer_ok by (simp add: bn_ready_def bn_contract_def bn_works_def bn_alloc_ok_def)

theorem clients_reach_servers_witness:
  "\<exists>s'. setup_network_module SOCKET_SERVER network0 = (0, s') \<and> 1200 \<le> uint (ss_port s') \<and> uint (ss_port s') \<le> 11200"
proof -
  have "fst (setup_network_module SOCKET_SERVER network0) = 0"
    by (simp add: setup_network_module_def start_socket_server_def select_port_number_def pick_random_port_def
        get_default_allocator_def get_console_writter_def get_default_random_generator_def default_mem_alloc_def
        malloc_def default_rand_range_def setup_socket_server_def setup_ipv4_tcp_server_def
        setup_ipv6_tcp_server_def sizeof_memory_allocator_def ext_eq ext2_def bn_answer_def printing_defs Let_def)
  then obtain s' where "setup_network_module SOCKET_SERVER network0 = (0, s')" by (metis prod.collapse)
  with clients_reach_servers [OF this network0_ready] show ?thesis by auto
qed

end
