(* ===== verification/Arg_Types.thy ===== *)
theory Arg_Types
  imports Platform
begin

text \<open>
  Model of \<^verbatim>\<open>src/src/syscall/arg_types.c\<close>: the kinds of system call arguments and the static context
  object of each, which says whether the argument is released by its owner and how it is logged.
  A pointer to a context object is the object, \<open>None\<close> being \<open>NULL\<close>; the code never changes one. The constructor \<open>INT\<close> is called \<open>INT_ARG\<close>.
\<close>

datatype yes_no = NX_YES | NX_NO

datatype logging_type = POINTER | PATH | NUMBER

datatype arg_type =
    FILE_DESC | VOID_BUF | SIZE | FILE_PATH | OPEN_FLAG | MODE
  | STAT_FS | STAT_FLAG | INT_ARG | RUSAGE | PID | WAIT_OPTION
  | SOCKET | WHENCE | OFFSET | MOUNT_TYPE | DIR_PATH | MOUNT_FLAG
  | UNMOUNT_FLAG | RECV_FLAG | REQUEST | MOUNT_PATH | DEV | PTRACE_REQUEST
  | MESSAGE | SEND_FLAG | SOCKADDR | SOCKLEN | AMODE | CHFLAGS

record arg_context =
  ctx_name :: string
  ctx_type :: arg_type
  should_free :: yes_no
  log_type :: logging_type

definition file_desc_ctx :: arg_context where
  "file_desc_ctx = \<lparr>ctx_name = ''FILE_DESC'', ctx_type = FILE_DESC, should_free = NX_NO, log_type = NUMBER\<rparr>"

definition void_buf_ctx :: arg_context where
  "void_buf_ctx = \<lparr>ctx_name = ''VOID_BUF'', ctx_type = VOID_BUF, should_free = NX_YES, log_type = POINTER\<rparr>"

definition size_ctx :: arg_context where
  "size_ctx = \<lparr>ctx_name = ''SIZE'', ctx_type = SIZE, should_free = NX_YES, log_type = NUMBER\<rparr>"

definition file_path_ctx :: arg_context where
  "file_path_ctx = \<lparr>ctx_name = ''FILE_PATH'', ctx_type = FILE_PATH, should_free = NX_NO, log_type = PATH\<rparr>"

definition open_flag_ctx :: arg_context where
  "open_flag_ctx = \<lparr>ctx_name = ''OPEN_FLAG'', ctx_type = OPEN_FLAG, should_free = NX_YES, log_type = NUMBER\<rparr>"

definition mode_ctx :: arg_context where
  "mode_ctx = \<lparr>ctx_name = ''MODE'', ctx_type = MODE, should_free = NX_YES, log_type = NUMBER\<rparr>"

definition stat_fs_ctx :: arg_context where
  "stat_fs_ctx = \<lparr>ctx_name = ''STAT_FS'', ctx_type = STAT_FS, should_free = NX_YES, log_type = POINTER\<rparr>"

definition stat_flag_ctx :: arg_context where
  "stat_flag_ctx = \<lparr>ctx_name = ''STAT_FLAG'', ctx_type = STAT_FLAG, should_free = NX_YES, log_type = NUMBER\<rparr>"

definition int_ctx :: arg_context where
  "int_ctx = \<lparr>ctx_name = ''INT'', ctx_type = INT_ARG, should_free = NX_YES, log_type = NUMBER\<rparr>"

definition rusage_ctx :: arg_context where
  "rusage_ctx = \<lparr>ctx_name = ''RUSAGE'', ctx_type = RUSAGE, should_free = NX_YES, log_type = POINTER\<rparr>"

definition pid_ctx :: arg_context where
  "pid_ctx = \<lparr>ctx_name = ''PID'', ctx_type = PID, should_free = NX_YES, log_type = POINTER\<rparr>"

definition wait_option_ctx :: arg_context where
  "wait_option_ctx = \<lparr>ctx_name = ''WAIT_OPTION'', ctx_type = WAIT_OPTION, should_free = NX_YES, log_type = NUMBER\<rparr>"

definition socket_ctx :: arg_context where
  "socket_ctx = \<lparr>ctx_name = ''SOCKET'', ctx_type = SOCKET, should_free = NX_YES, log_type = NUMBER\<rparr>"

definition whence_ctx :: arg_context where
  "whence_ctx = \<lparr>ctx_name = ''WHENCE'', ctx_type = WHENCE, should_free = NX_YES, log_type = NUMBER\<rparr>"

definition offset_ctx :: arg_context where
  "offset_ctx = \<lparr>ctx_name = ''OFFSET'', ctx_type = OFFSET, should_free = NX_YES, log_type = NUMBER\<rparr>"

definition mount_type_ctx :: arg_context where
  "mount_type_ctx = \<lparr>ctx_name = ''MOUNT_TYPE'', ctx_type = MOUNT_TYPE, should_free = NX_YES, log_type = POINTER\<rparr>"

definition dir_path_ctx :: arg_context where
  "dir_path_ctx = \<lparr>ctx_name = ''DIR_PATH'', ctx_type = DIR_PATH, should_free = NX_NO, log_type = POINTER\<rparr>"

definition mount_flag_ctx :: arg_context where
  "mount_flag_ctx = \<lparr>ctx_name = ''MOUNT_FLAG'', ctx_type = MOUNT_FLAG, should_free = NX_YES, log_type = NUMBER\<rparr>"

definition unmount_flag_ctx :: arg_context where
  "unmount_flag_ctx = \<lparr>ctx_name = ''UNMOUNT_FLAG'', ctx_type = UNMOUNT_FLAG, should_free = NX_YES, log_type = NUMBER\<rparr>"

definition recv_flag_ctx :: arg_context where
  "recv_flag_ctx = \<lparr>ctx_name = ''RECV_FLAG'', ctx_type = RECV_FLAG, should_free = NX_YES, log_type = NUMBER\<rparr>"

definition request_ctx :: arg_context where
  "request_ctx = \<lparr>ctx_name = ''REQUEST'', ctx_type = REQUEST, should_free = NX_YES, log_type = NUMBER\<rparr>"

definition mount_path_ctx :: arg_context where
  "mount_path_ctx = \<lparr>ctx_name = ''MOUNT_PATH'', ctx_type = MOUNT_PATH, should_free = NX_NO, log_type = PATH\<rparr>"

definition dev_ctx :: arg_context where
  "dev_ctx = \<lparr>ctx_name = ''DEV'', ctx_type = DEV, should_free = NX_YES, log_type = NUMBER\<rparr>"

definition message_ctx :: arg_context where
  "message_ctx = \<lparr>ctx_name = ''MESSAGE'', ctx_type = MESSAGE, should_free = NX_YES, log_type = POINTER\<rparr>"

definition recv_flags_ctx :: arg_context where
  "recv_flags_ctx = \<lparr>ctx_name = ''RECV_FLAG'', ctx_type = RECV_FLAG, should_free = NX_YES, log_type = NUMBER\<rparr>"

definition send_flags_ctx :: arg_context where
  "send_flags_ctx = \<lparr>ctx_name = ''SEND_FLAG'', ctx_type = SEND_FLAG, should_free = NX_YES, log_type = NUMBER\<rparr>"

definition sockaddr_ctx :: arg_context where
  "sockaddr_ctx = \<lparr>ctx_name = ''SOCKADDR'', ctx_type = SOCKADDR, should_free = NX_YES, log_type = POINTER\<rparr>"

definition socklen_ctx :: arg_context where
  "socklen_ctx = \<lparr>ctx_name = ''SOCKLEN'', ctx_type = SOCKLEN, should_free = NX_YES, log_type = NUMBER\<rparr>"

definition amode_ctx :: arg_context where
  "amode_ctx = \<lparr>ctx_name = ''AMODE'', ctx_type = AMODE, should_free = NX_YES, log_type = NUMBER\<rparr>"

definition chflags_ctx :: arg_context where
  "chflags_ctx = \<lparr>ctx_name = ''CHFLAGS'', ctx_type = CHFLAGS, should_free = NX_YES, log_type = NUMBER\<rparr>"

text \<open>The switch of the code: every constructor but one has a case.\<close>

fun arg_context_of :: "arg_type \<Rightarrow> arg_context option" where
  "arg_context_of FILE_DESC = Some file_desc_ctx"
| "arg_context_of VOID_BUF = Some void_buf_ctx"
| "arg_context_of SIZE = Some size_ctx"
| "arg_context_of FILE_PATH = Some file_path_ctx"
| "arg_context_of OPEN_FLAG = Some open_flag_ctx"
| "arg_context_of MODE = Some mode_ctx"
| "arg_context_of STAT_FS = Some stat_fs_ctx"
| "arg_context_of STAT_FLAG = Some stat_flag_ctx"
| "arg_context_of INT_ARG = Some int_ctx"
| "arg_context_of RUSAGE = Some rusage_ctx"
| "arg_context_of PID = Some pid_ctx"
| "arg_context_of WAIT_OPTION = Some wait_option_ctx"
| "arg_context_of SOCKET = Some socket_ctx"
| "arg_context_of WHENCE = Some whence_ctx"
| "arg_context_of OFFSET = Some offset_ctx"
| "arg_context_of MOUNT_TYPE = Some mount_type_ctx"
| "arg_context_of DIR_PATH = Some dir_path_ctx"
| "arg_context_of MOUNT_FLAG = Some mount_flag_ctx"
| "arg_context_of UNMOUNT_FLAG = Some unmount_flag_ctx"
| "arg_context_of RECV_FLAG = Some recv_flag_ctx"
| "arg_context_of REQUEST = Some request_ctx"
| "arg_context_of MOUNT_PATH = Some mount_path_ctx"
| "arg_context_of DEV = Some dev_ctx"
| "arg_context_of MESSAGE = Some message_ctx"
| "arg_context_of SEND_FLAG = Some send_flags_ctx"
| "arg_context_of SOCKADDR = Some sockaddr_ctx"
| "arg_context_of SOCKLEN = Some socklen_ctx"
| "arg_context_of AMODE = Some amode_ctx"
| "arg_context_of CHFLAGS = Some chflags_ctx"
| "arg_context_of _ = None"

definition get_arg_context :: "arg_type \<Rightarrow> 'z os_scheme \<Rightarrow> arg_context option \<times> 'z os_scheme" where
  "get_arg_context type s =
     (case arg_context_of type of
        Some c \<Rightarrow> (Some c, s)
      | None \<Rightarrow> (None, console_output ERROR ''Unlisted arg type'' s))"

end
