(* ===== verification/Entries.thy ===== *)
theory Entries
  imports Arg_Types
begin

text \<open>
  The description of a system call (\<^verbatim>\<open>src/src/syscall/entry.h\<close>), the static entries of the three
  platforms (\<^verbatim>\<open>src/src/syscall/linux\<close>, \<^verbatim>\<open>freebsd\<close>, \<^verbatim>\<open>mac\<close>) and their tables. Function pointers are
  values of the types \<open>gen_fun\<close> (argument generators) and \<open>test_fun\<close> (test functions), \<open>None\<close> being the
  null pointer. A system call number is the name of the macro that stands for it. What an
  initialiser leaves out is zero: the remaining argument types are \<open>FILE_DESC\<close>, the remaining pointers
  are null, and a missing \<open>id\<close> is \<open>V_ID\<close>.
\<close>

datatype test_id = V_ID | P_ID | VP_ID | VPV_ID | PV_ID | PVV_ID | PP_ID | VPVVPV_ID | VPVP_ID | VVPV_ID

datatype syscall_status = ON | OFF

datatype gen_fun =
    Generate_amode | Generate_buf | Generate_chflags | Generate_dev
  | Generate_dirpath | Generate_fd | Generate_fs_stat | Generate_fs_stat_flag
  | Generate_int | Generate_length | Generate_message | Generate_mode
  | Generate_mount_flags | Generate_mount_type | Generate_mountpath | Generate_offset
  | Generate_open_flag | Generate_path | Generate_pid | Generate_recv_flags
  | Generate_request | Generate_rusage | Generate_send_flags | Generate_sockaddr
  | Generate_socket | Generate_socklen | Generate_unmount_flags | Generate_wait_option
  | Generate_whence

datatype test_fun =
    Test_val_ptr_val_ptr | Test_val_ptr_val_val_ptr_val | Test_val_val_ptr_val | Test_ptr_val_ptr
  | Test_ptr_ptr_val | Test_ptr_val_val | Test_ptr_ptr_ptr | Test_val_ptr_ptr
  | Test_val_val_ptr | Test_val_ptr_val | Test_val_val_val | Test_val_val
  | Test_val_ptr | Test_ptr_val | Test_ptr_ptr | Test_ptr
  | Test_val

record syscall_entry =
  syscall_name :: string
  syscall_symbol :: string
  status :: syscall_status
  need_alarm :: yes_no
  requires_root :: yes_no
  arg_type_array :: "arg_type list"
  total_args :: u32
  arg_context_array :: "arg_context option list"
  get_arg_array :: "gen_fun option list"
  test_syscall_fun :: "test_fun option"
  entry_id :: test_id

record syscall_table =
  total_syscalls :: u32
  sys_entry :: "syscall_entry list"

text \<open>A static entry: both arrays have seven elements.\<close>

definition new_entry ::
    "string \<Rightarrow> string \<Rightarrow> u32 \<Rightarrow> syscall_status \<Rightarrow> yes_no \<Rightarrow> yes_no \<Rightarrow> test_id \<Rightarrow> arg_type list \<Rightarrow>
     gen_fun list \<Rightarrow> syscall_entry" where
  "new_entry name symbol args st root alarm tid types gens =
     \<lparr>syscall_name = name, syscall_symbol = symbol, status = st, need_alarm = alarm, requires_root = root,
      arg_type_array = types @ replicate (7 - length types) FILE_DESC, total_args = args,
      arg_context_array = replicate 7 None,
      get_arg_array = map Some gens @ replicate (7 - length gens) None,
      test_syscall_fun = None, entry_id = tid\<rparr>"

section \<open>Linux\<close>

definition linux_entry_read :: syscall_entry where
  "linux_entry_read = new_entry ''read'' ''SYS_read'' 3 ON NX_NO NX_YES V_ID
     [FILE_DESC, VOID_BUF, SIZE]
     [Generate_fd, Generate_buf, Generate_length]"

definition linux_syscall_table :: syscall_table where
  "linux_syscall_table = \<lparr>total_syscalls = 1, sys_entry =
      [linux_entry_read]\<rparr>"

section \<open>FreeBSD\<close>

definition freebsd_entry_chdir :: syscall_entry where
  "freebsd_entry_chdir = new_entry ''chdir'' ''SYS_chdir'' 1 ON NX_NO NX_NO V_ID
     [FILE_PATH]
     [Generate_path]"

definition freebsd_entry_chmod :: syscall_entry where
  "freebsd_entry_chmod = new_entry ''chmod'' ''SYS_chmod'' 2 ON NX_NO NX_NO V_ID
     [FILE_PATH, MODE]
     [Generate_path, Generate_mode]"

definition freebsd_entry_close :: syscall_entry where
  "freebsd_entry_close = new_entry ''close'' ''SYS_close'' 1 ON NX_NO NX_NO V_ID
     [FILE_DESC]
     [Generate_fd]"

definition freebsd_entry_creat :: syscall_entry where
  "freebsd_entry_creat = new_entry ''creat'' ''SYS_creat'' 2 ON NX_NO NX_NO V_ID
     [FILE_PATH, MODE]
     [Generate_path, Generate_mode]"

definition freebsd_entry_fchdir :: syscall_entry where
  "freebsd_entry_fchdir = new_entry ''fchdir'' ''SYS_fchdir'' 1 ON NX_NO NX_NO V_ID
     [FILE_DESC]
     [Generate_fd]"

definition freebsd_entry_getfsstat :: syscall_entry where
  "freebsd_entry_getfsstat = new_entry ''getfsstat'' ''SYS_getfsstat'' 3 ON NX_NO NX_NO V_ID
     [STAT_FS, SIZE, STAT_FLAG]
     [Generate_fs_stat, Generate_length, Generate_fs_stat_flag]"

definition freebsd_entry_link :: syscall_entry where
  "freebsd_entry_link = new_entry ''link'' ''SYS_link'' 2 ON NX_NO NX_NO V_ID
     [FILE_PATH, FILE_PATH]
     [Generate_path, Generate_path]"

definition freebsd_entry_lseek :: syscall_entry where
  "freebsd_entry_lseek = new_entry ''lseek'' ''SYS_lseek'' 3 ON NX_NO NX_NO V_ID
     [FILE_DESC, OFFSET, WHENCE]
     [Generate_fd, Generate_offset, Generate_whence]"

definition freebsd_entry_mknod :: syscall_entry where
  "freebsd_entry_mknod = new_entry ''mknod'' ''SYS_mknod'' 3 ON NX_NO NX_NO V_ID
     [FILE_PATH, MODE, DEV]
     [Generate_path, Generate_mode, Generate_dev]"

definition freebsd_entry_mount :: syscall_entry where
  "freebsd_entry_mount = new_entry ''mount'' ''SYS_mount'' 4 ON NX_YES NX_NO V_ID
     [MOUNT_TYPE, MOUNT_PATH, MOUNT_FLAG, VOID_BUF]
     [Generate_mount_type, Generate_mountpath, Generate_mount_flags, Generate_buf]"

definition freebsd_entry_open :: syscall_entry where
  "freebsd_entry_open = new_entry ''open'' ''SYS_open'' 3 ON NX_NO NX_NO V_ID
     [FILE_PATH, OPEN_FLAG, MODE]
     [Generate_path, Generate_open_flag, Generate_mode]"

definition freebsd_entry_ptrace :: syscall_entry where
  "freebsd_entry_ptrace = new_entry ''ptrace'' ''SYS_ptrace'' 4 ON NX_YES NX_NO V_ID
     [REQUEST, PID, VOID_BUF, INT_ARG]
     [Generate_request, Generate_pid, Generate_buf, Generate_int]"

definition freebsd_entry_read :: syscall_entry where
  "freebsd_entry_read = new_entry ''read'' ''SYS_read'' 3 ON NX_NO NX_YES V_ID
     [FILE_DESC, VOID_BUF, SIZE]
     [Generate_fd, Generate_buf, Generate_length]"

definition freebsd_entry_recvmsg :: syscall_entry where
  "freebsd_entry_recvmsg = new_entry ''recvmsg'' ''SYS_recvmsg'' 4 ON NX_NO NX_YES V_ID
     [SOCKET, VOID_BUF, SIZE, RECV_FLAG]
     [Generate_socket, Generate_buf, Generate_length, Generate_recv_flags]"

definition freebsd_entry_setuid :: syscall_entry where
  "freebsd_entry_setuid = new_entry ''setuid'' ''SYS_setuid'' 1 ON NX_NO NX_NO V_ID
     [INT_ARG]
     [Generate_int]"

definition freebsd_entry_unlink :: syscall_entry where
  "freebsd_entry_unlink = new_entry ''unlink'' ''SYS_unlink'' 1 ON NX_NO NX_NO V_ID
     [FILE_PATH]
     [Generate_path]"

definition freebsd_entry_unmount :: syscall_entry where
  "freebsd_entry_unmount = new_entry ''unmount'' ''SYS_unmount'' 2 ON NX_YES NX_NO V_ID
     [DIR_PATH, UNMOUNT_FLAG]
     [Generate_dirpath, Generate_unmount_flags]"

definition freebsd_entry_wait4 :: syscall_entry where
  "freebsd_entry_wait4 = new_entry ''wait4'' ''SYS_wait4'' 4 ON NX_NO NX_NO V_ID
     [PID, INT_ARG, WAIT_OPTION, RUSAGE]
     [Generate_pid, Generate_int, Generate_wait_option, Generate_rusage]"

definition freebsd_entry_write :: syscall_entry where
  "freebsd_entry_write = new_entry ''write'' ''SYS_write'' 3 ON NX_NO NX_NO V_ID
     [FILE_DESC, VOID_BUF, SIZE]
     [Generate_fd, Generate_buf, Generate_length]"

definition freebsd_syscall_table :: syscall_table where
  "freebsd_syscall_table = \<lparr>total_syscalls = 15, sys_entry =
      [freebsd_entry_read, freebsd_entry_write, freebsd_entry_open, freebsd_entry_close,
       freebsd_entry_wait4, freebsd_entry_link, freebsd_entry_unlink, freebsd_entry_chdir,
       freebsd_entry_fchdir, freebsd_entry_mknod, freebsd_entry_getfsstat, freebsd_entry_lseek,
       freebsd_entry_setuid, freebsd_entry_ptrace, freebsd_entry_recvmsg]\<rparr>"

section \<open>Mac OS\<close>

definition mac_entry_accept :: syscall_entry where
  "mac_entry_accept = new_entry ''accept'' ''SYS_accept'' 3 ON NX_NO NX_NO VPV_ID
     [SOCKET, SOCKADDR, SOCKLEN]
     [Generate_socket, Generate_sockaddr, Generate_socklen]"

definition mac_entry_access :: syscall_entry where
  "mac_entry_access = new_entry ''access'' ''SYS_access'' 2 ON NX_NO NX_NO PV_ID
     [FILE_PATH, AMODE]
     [Generate_path, Generate_amode]"

definition mac_entry_chdir :: syscall_entry where
  "mac_entry_chdir = new_entry ''chdir'' ''SYS_chdir'' 1 ON NX_NO NX_NO P_ID
     [FILE_PATH]
     [Generate_path]"

definition mac_entry_chflags :: syscall_entry where
  "mac_entry_chflags = new_entry ''chflags'' ''SYS_chflags'' 2 ON NX_NO NX_NO PV_ID
     [FILE_PATH, CHFLAGS]
     [Generate_path, Generate_chflags]"

definition mac_entry_chmod :: syscall_entry where
  "mac_entry_chmod = new_entry ''chmod'' ''SYS_chmod'' 2 ON NX_NO NX_NO PV_ID
     [FILE_PATH, MODE]
     [Generate_path, Generate_mode]"

definition mac_entry_close :: syscall_entry where
  "mac_entry_close = new_entry ''close'' ''SYS_close'' 1 ON NX_NO NX_NO V_ID
     [FILE_DESC]
     [Generate_fd]"

definition mac_entry_fchdir :: syscall_entry where
  "mac_entry_fchdir = new_entry ''fchdir'' ''SYS_fchdir'' 1 ON NX_NO NX_NO V_ID
     [FILE_DESC]
     [Generate_fd]"

definition mac_entry_getfsstat :: syscall_entry where
  "mac_entry_getfsstat = new_entry ''getfsstat'' ''SYS_getfsstat'' 3 ON NX_NO NX_NO PVV_ID
     [STAT_FS, SIZE, STAT_FLAG]
     [Generate_fs_stat, Generate_length, Generate_fs_stat_flag]"

definition mac_entry_getpeername :: syscall_entry where
  "mac_entry_getpeername = new_entry ''getpeername'' ''SYS_getpeername'' 3 ON NX_NO NX_NO VPV_ID
     [SOCKET, SOCKADDR, SOCKLEN]
     [Generate_socket, Generate_sockaddr, Generate_socklen]"

definition mac_entry_getsockname :: syscall_entry where
  "mac_entry_getsockname = new_entry ''getsockname'' ''SYS_getsockname'' 3 ON NX_NO NX_NO VPV_ID
     [SOCKET, SOCKADDR, SOCKLEN]
     [Generate_socket, Generate_sockaddr, Generate_socklen]"

definition mac_entry_link :: syscall_entry where
  "mac_entry_link = new_entry ''link'' ''SYS_link'' 2 ON NX_NO NX_NO PP_ID
     [FILE_PATH, FILE_PATH]
     [Generate_path, Generate_path]"

definition mac_entry_mknod :: syscall_entry where
  "mac_entry_mknod = new_entry ''mknod'' ''SYS_mknod'' 3 ON NX_NO NX_NO PVV_ID
     [FILE_PATH, MODE, DEV]
     [Generate_path, Generate_mode, Generate_dev]"

definition mac_entry_open :: syscall_entry where
  "mac_entry_open = new_entry ''open'' ''SYS_open'' 3 ON NX_NO NX_NO PVV_ID
     [FILE_PATH, OPEN_FLAG, MODE]
     [Generate_path, Generate_open_flag, Generate_mode]"

definition mac_entry_ptrace :: syscall_entry where
  "mac_entry_ptrace = new_entry ''ptrace'' ''SYS_ptrace'' 4 ON NX_YES NX_NO VVPV_ID
     [REQUEST, PID, VOID_BUF, INT_ARG]
     [Generate_request, Generate_pid, Generate_buf, Generate_int]"

definition mac_entry_read :: syscall_entry where
  "mac_entry_read = new_entry ''read'' ''SYS_read'' 3 ON NX_NO NX_YES VPV_ID
     [FILE_DESC, VOID_BUF, SIZE]
     [Generate_fd, Generate_buf, Generate_length]"

definition mac_entry_recvfrom :: syscall_entry where
  "mac_entry_recvfrom = new_entry ''recvfrom'' ''SYS_sendmsg'' 6 ON NX_NO NX_YES VPVVPV_ID
     [SOCKET, VOID_BUF, SIZE, RECV_FLAG, SOCKADDR, SOCKLEN]
     [Generate_socket, Generate_message, Generate_length, Generate_recv_flags, Generate_sockaddr, Generate_socklen]"

definition mac_entry_recvmsg :: syscall_entry where
  "mac_entry_recvmsg = new_entry ''recvmsg'' ''SYS_recvmsg'' 3 ON NX_NO NX_NO VPV_ID
     [SOCKET, MESSAGE, RECV_FLAG]
     [Generate_socket, Generate_message, Generate_recv_flags]"

definition mac_entry_sendmsg :: syscall_entry where
  "mac_entry_sendmsg = new_entry ''sendmsg'' ''SYS_sendmsg'' 3 ON NX_NO NX_NO VPV_ID
     [SOCKET, MESSAGE, SEND_FLAG]
     [Generate_socket, Generate_message, Generate_send_flags]"

definition mac_entry_setuid :: syscall_entry where
  "mac_entry_setuid = new_entry ''setuid'' ''SYS_setuid'' 1 ON NX_NO NX_NO V_ID
     [INT_ARG]
     [Generate_int]"

definition mac_entry_unlink :: syscall_entry where
  "mac_entry_unlink = new_entry ''unlink'' ''SYS_unlink'' 1 ON NX_NO NX_NO P_ID
     [FILE_PATH]
     [Generate_path]"

definition mac_entry_wait4 :: syscall_entry where
  "mac_entry_wait4 = new_entry ''wait4'' ''SYS_wait4'' 4 ON NX_NO NX_NO VPVP_ID
     [PID, INT_ARG, WAIT_OPTION, RUSAGE]
     [Generate_pid, Generate_int, Generate_wait_option, Generate_rusage]"

definition mac_entry_write :: syscall_entry where
  "mac_entry_write = new_entry ''write'' ''SYS_write'' 3 ON NX_NO NX_NO VPV_ID
     [FILE_DESC, VOID_BUF, SIZE]
     [Generate_fd, Generate_buf, Generate_length]"

definition mac_osx_syscall_table :: syscall_table where
  "mac_osx_syscall_table = \<lparr>total_syscalls = 21, sys_entry =
      [mac_entry_read, mac_entry_write, mac_entry_open, mac_entry_close,
       mac_entry_wait4, mac_entry_link, mac_entry_unlink, mac_entry_chdir,
       mac_entry_fchdir, mac_entry_mknod, mac_entry_getfsstat, mac_entry_setuid,
       mac_entry_ptrace, mac_entry_recvmsg, mac_entry_sendmsg, mac_entry_recvfrom,
       mac_entry_accept, mac_entry_getpeername, mac_entry_getsockname, mac_entry_access,
       mac_entry_chflags]\<rparr>"

end
