(* ===== verification/Set_Test.thy ===== *)
theory Set_Test
  imports Entries
begin

text \<open>
  Model of \<^verbatim>\<open>src/src/syscall/set_test.c\<close>: the functions that make a system call from the array of
  generated arguments, and the choice among them by the test id of an entry. An argument is a
  pointer; it is handed to the kernel either as it is or dereferenced as a 64-bit number (all
  supported platforms are little-endian). A call \<open>syscall(SYS_x, ...)\<close> is the external call named by
  the macro. The theorems at the end say of the tables of the three platforms which entries make the
  call they describe.
\<close>

section \<open>Numbers in memory\<close>

definition le_word :: "u8 list \<Rightarrow> u64" where
  "le_word bs = word_of_int (horner_sum uint 256 bs)"

definition le_bytes :: "nat \<Rightarrow> u64 \<Rightarrow> u8 list" where
  "le_bytes n w = map (\<lambda>i. ucast (drop_bit (8 * i) w)) [0..<n]"

definition load64 :: "ptr \<Rightarrow> 'z os_scheme \<Rightarrow> u64 option" where
  "load64 p s = (if room p 8 s then Some (le_word (map (bytes s p) [0..<8])) else None)"

definition store64 :: "ptr \<Rightarrow> u64 \<Rightarrow> 'z os_scheme \<Rightarrow> 'z os_scheme option" where
  "store64 p w s = store_bytes p 0 (le_bytes 8 w) s"

section \<open>The test functions\<close>

text \<open>How a test function treats one element of the array.\<close>

datatype passing = Val nat | Ptr nat

fun pass :: "ptr list \<Rightarrow> 'z os_scheme \<Rightarrow> passing \<Rightarrow> int option" where
  "pass array s (Val i) =
     (if i < length array then do { w \<leftarrow> load64 (array ! i) s; Some (uint w) } else None)"
| "pass array s (Ptr i) = (if i < length array then Some (int (array ! i)) else None)"

fun pass_all :: "ptr list \<Rightarrow> 'z os_scheme \<Rightarrow> passing list \<Rightarrow> int list option" where
  "pass_all array s [] = Some []"
| "pass_all array s (a # as) = do { x \<leftarrow> pass array s a; xs \<leftarrow> pass_all array s as; Some (x # xs) }"

definition kernel_call ::
    "passing list \<Rightarrow> string \<Rightarrow> ptr list \<Rightarrow> 'z os_scheme \<Rightarrow> (int \<times> 'z os_scheme) option" where
  "kernel_call how symbol array s = do { xs \<leftarrow> pass_all array s how; Some (ext symbol xs s) }"

definition test_val_ptr_val_ptr :: "string \<Rightarrow> ptr list \<Rightarrow> 'z os_scheme \<Rightarrow> (int \<times> 'z os_scheme) option" where
  "test_val_ptr_val_ptr = kernel_call [Val 0, Ptr 1, Val 2, Ptr 3]"

definition test_val_ptr_val_val_ptr_val :: "string \<Rightarrow> ptr list \<Rightarrow> 'z os_scheme \<Rightarrow> (int \<times> 'z os_scheme) option" where
  "test_val_ptr_val_val_ptr_val = kernel_call [Val 0, Ptr 1, Val 2, Val 3, Ptr 4, Val 5]"

definition test_val_val_ptr_val :: "string \<Rightarrow> ptr list \<Rightarrow> 'z os_scheme \<Rightarrow> (int \<times> 'z os_scheme) option" where
  "test_val_val_ptr_val = kernel_call [Val 0, Val 1, Ptr 2, Val 3]"

definition test_ptr_val_ptr :: "string \<Rightarrow> ptr list \<Rightarrow> 'z os_scheme \<Rightarrow> (int \<times> 'z os_scheme) option" where
  "test_ptr_val_ptr = kernel_call [Ptr 0, Val 1, Ptr 2]"

definition test_ptr_ptr_val :: "string \<Rightarrow> ptr list \<Rightarrow> 'z os_scheme \<Rightarrow> (int \<times> 'z os_scheme) option" where
  "test_ptr_ptr_val = kernel_call [Ptr 0, Ptr 1, Val 2]"

definition test_ptr_val_val :: "string \<Rightarrow> ptr list \<Rightarrow> 'z os_scheme \<Rightarrow> (int \<times> 'z os_scheme) option" where
  "test_ptr_val_val = kernel_call [Val 0, Val 1]"

definition test_ptr_ptr_ptr :: "string \<Rightarrow> ptr list \<Rightarrow> 'z os_scheme \<Rightarrow> (int \<times> 'z os_scheme) option" where
  "test_ptr_ptr_ptr = kernel_call [Ptr 0, Ptr 1, Ptr 2]"

definition test_val_ptr_ptr :: "string \<Rightarrow> ptr list \<Rightarrow> 'z os_scheme \<Rightarrow> (int \<times> 'z os_scheme) option" where
  "test_val_ptr_ptr = kernel_call [Val 0, Ptr 1, Ptr 2]"

definition test_val_val_ptr :: "string \<Rightarrow> ptr list \<Rightarrow> 'z os_scheme \<Rightarrow> (int \<times> 'z os_scheme) option" where
  "test_val_val_ptr = kernel_call [Val 0, Val 1, Ptr 2]"

definition test_val_ptr_val :: "string \<Rightarrow> ptr list \<Rightarrow> 'z os_scheme \<Rightarrow> (int \<times> 'z os_scheme) option" where
  "test_val_ptr_val = kernel_call [Val 0, Ptr 1, Val 2]"

definition test_val_val_val :: "string \<Rightarrow> ptr list \<Rightarrow> 'z os_scheme \<Rightarrow> (int \<times> 'z os_scheme) option" where
  "test_val_val_val = kernel_call [Val 0, Val 1, Val 2]"

definition test_val_val :: "string \<Rightarrow> ptr list \<Rightarrow> 'z os_scheme \<Rightarrow> (int \<times> 'z os_scheme) option" where
  "test_val_val = kernel_call [Val 0, Val 1]"

definition test_val_ptr :: "string \<Rightarrow> ptr list \<Rightarrow> 'z os_scheme \<Rightarrow> (int \<times> 'z os_scheme) option" where
  "test_val_ptr = kernel_call [Val 0, Ptr 1]"

definition test_ptr_val :: "string \<Rightarrow> ptr list \<Rightarrow> 'z os_scheme \<Rightarrow> (int \<times> 'z os_scheme) option" where
  "test_ptr_val = kernel_call [Ptr 0, Val 1]"

definition test_ptr_ptr :: "string \<Rightarrow> ptr list \<Rightarrow> 'z os_scheme \<Rightarrow> (int \<times> 'z os_scheme) option" where
  "test_ptr_ptr = kernel_call [Ptr 0, Ptr 1]"

definition test_ptr :: "string \<Rightarrow> ptr list \<Rightarrow> 'z os_scheme \<Rightarrow> (int \<times> 'z os_scheme) option" where
  "test_ptr = kernel_call [Ptr 0]"

definition test_val :: "string \<Rightarrow> ptr list \<Rightarrow> 'z os_scheme \<Rightarrow> (int \<times> 'z os_scheme) option" where
  "test_val = kernel_call [Val 0]"

text \<open>A call through a function pointer to one of them.\<close>

fun call_test :: "test_fun \<Rightarrow> string \<Rightarrow> ptr list \<Rightarrow> 'z os_scheme \<Rightarrow> (int \<times> 'z os_scheme) option" where
  "call_test Test_val_ptr_val_ptr = test_val_ptr_val_ptr"
| "call_test Test_val_ptr_val_val_ptr_val = test_val_ptr_val_val_ptr_val"
| "call_test Test_val_val_ptr_val = test_val_val_ptr_val"
| "call_test Test_ptr_val_ptr = test_ptr_val_ptr"
| "call_test Test_ptr_ptr_val = test_ptr_ptr_val"
| "call_test Test_ptr_val_val = test_ptr_val_val"
| "call_test Test_ptr_ptr_ptr = test_ptr_ptr_ptr"
| "call_test Test_val_ptr_ptr = test_val_ptr_ptr"
| "call_test Test_val_val_ptr = test_val_val_ptr"
| "call_test Test_val_ptr_val = test_val_ptr_val"
| "call_test Test_val_val_val = test_val_val_val"
| "call_test Test_val_val = test_val_val"
| "call_test Test_val_ptr = test_val_ptr"
| "call_test Test_ptr_val = test_ptr_val"
| "call_test Test_ptr_ptr = test_ptr_ptr"
| "call_test Test_ptr = test_ptr"
| "call_test Test_val = test_val"

definition set_test_syscall :: "test_id \<Rightarrow> syscall_entry \<Rightarrow> syscall_entry" where
  "set_test_syscall tid entry =
     (case tid of
        V_ID \<Rightarrow> entry\<lparr>test_syscall_fun := Some Test_val\<rparr>
      | P_ID \<Rightarrow> entry\<lparr>test_syscall_fun := Some Test_ptr\<rparr>
      | PV_ID \<Rightarrow> entry\<lparr>test_syscall_fun := Some Test_ptr_val\<rparr>
      | VP_ID \<Rightarrow> entry\<lparr>test_syscall_fun := Some Test_val_ptr\<rparr>
      | VPV_ID \<Rightarrow> entry\<lparr>test_syscall_fun := Some Test_val_ptr_val\<rparr>
      | PVV_ID \<Rightarrow> entry\<lparr>test_syscall_fun := Some Test_ptr_val_val\<rparr>
      | PP_ID \<Rightarrow> entry\<lparr>test_syscall_fun := Some Test_ptr_ptr\<rparr>
      | VVPV_ID \<Rightarrow> entry\<lparr>test_syscall_fun := Some Test_val_val_ptr_val\<rparr>
      | VPVVPV_ID \<Rightarrow> entry\<lparr>test_syscall_fun := Some Test_val_ptr_val_val_ptr_val\<rparr>
      | VPVP_ID \<Rightarrow> entry\<lparr>test_syscall_fun := Some Test_val_ptr_val_ptr\<rparr>)"

lemmas test_defs = test_val_ptr_val_ptr_def test_val_ptr_val_val_ptr_val_def test_val_val_ptr_val_def
  test_ptr_val_ptr_def test_ptr_ptr_val_def test_ptr_val_val_def test_ptr_ptr_ptr_def
  test_val_ptr_ptr_def test_val_val_ptr_def test_val_ptr_val_def test_val_val_val_def test_val_val_def
  test_val_ptr_def test_ptr_val_def test_ptr_ptr_def test_ptr_def test_val_def

section \<open>Loads after stores\<close>

lemma room_bytes [simp]: "room p n (s\<lparr>bytes := b\<rparr>) = room p n s"
  by (simp add: room_def split: option.split)

lemma le_word_bytes: "le_word (le_bytes 8 w) = w"
proof -
  have "uint w = horner_sum uint 256 (map (\<lambda>i. ucast (drop_bit (8 * i) w) :: u8) [0..<8])"
  proof -
    have drop: "uint (drop_bit k w) = uint w div 2 ^ k" for k
    proof -
      have "take_bit 64 (uint w) = uint w" using uint_bounded [of w] by (simp add: take_bit_int_eq_self)
      then show ?thesis by (subst unsigned_drop_bit_eq) (simp add: drop_bit_eq_div)
    qed
    have step: "uint (ucast (drop_bit k w) :: u8) + 256 * uint (drop_bit (k + 8) w) = uint (drop_bit k w)" for k
    proof -
      have "uint (ucast (drop_bit k w) :: u8) = uint (drop_bit k w) mod 256"
        by (simp add: unsigned_ucast_eq take_bit_eq_mod)
      moreover have "uint (drop_bit (k + 8) w) = uint (drop_bit k w) div 256"
        by (simp add: drop power_add zdiv_zmult2_eq)
      ultimately show ?thesis by simp
    qed
    have top: "drop_bit 64 w = 0" by (rule bit_eqI) (auto simp: bit_simps dest: bit_imp_le_length)
    have idx: "[0..<8] = [0, 1, 2, 3, 4, 5, 6, 7 :: nat]" by (simp add: upt_rec)
    show ?thesis
      unfolding idx using step [of 0] step [of 8] step [of 16] step [of 24] step [of 32] step [of 40]
        step [of 48] step [of 56] by (simp add: top)
  qed
  then show ?thesis unfolding le_word_def le_bytes_def by (metis word_of_int_uint)
qed

lemma load_store64:
  assumes "store64 p w s = Some s'"
  shows "load64 p s' = Some w"
proof -
  have len: "length (le_bytes 8 w) = 8" by (simp add: le_bytes_def)
  from assms have r: "room p 8 s" and s': "s' = s\<lparr>bytes := (bytes s)(p := (\<lambda>i. if i < 8 then le_bytes 8 w ! (i - 0) else bytes s p i))\<rparr>"
    by (simp_all add: store64_def store_bytes_def len split: if_splits)
  have "map (bytes s' p) [0..<8] = le_bytes 8 w"
    by (rule nth_equalityI) (simp_all add: len s')
  with r show ?thesis by (simp add: load64_def s' le_word_bytes)
qed

section \<open>Which arguments reach the kernel\<close>

text \<open>How the name of a test id spells the call: a value or a pointer for each argument in order.\<close>

fun spelled :: "test_id \<Rightarrow> passing list" where
  "spelled V_ID = [Val 0]"
| "spelled P_ID = [Ptr 0]"
| "spelled VP_ID = [Val 0, Ptr 1]"
| "spelled VPV_ID = [Val 0, Ptr 1, Val 2]"
| "spelled PV_ID = [Ptr 0, Val 1]"
| "spelled PVV_ID = [Ptr 0, Val 1, Val 2]"
| "spelled PP_ID = [Ptr 0, Ptr 1]"
| "spelled VPVVPV_ID = [Val 0, Ptr 1, Val 2, Val 3, Ptr 4, Val 5]"
| "spelled VPVP_ID = [Val 0, Ptr 1, Val 2, Ptr 3]"
| "spelled VVPV_ID = [Val 0, Val 1, Ptr 2, Val 3]"

definition effective :: "test_id \<Rightarrow> passing list" where
  "effective tid = (if tid = PVV_ID then [Val 0, Val 1] else spelled tid)"

lemma set_test_syscall_calls:
  "\<exists>f. test_syscall_fun (set_test_syscall tid e) = Some f \<and>
       call_test f symbol array s = kernel_call (effective tid) symbol array s"
  by (cases tid) (simp_all add: set_test_syscall_def effective_def test_defs)

text \<open>C27. The function that \<open>set_test_syscall\<close> installs for a test id makes the system call with exactly the
  arguments the id spells, in order, except for the id \<open>PVV_ID\<close>: there the first argument, a pointer, is
  dereferenced and the third is not passed at all.\<close>

theorem test_id_call:
  "\<exists>f. test_syscall_fun (set_test_syscall tid e) = Some f \<and>
     call_test f symbol array s =
       kernel_call (if tid = PVV_ID then [Val 0, Val 1] else spelled tid) symbol array s"
  using set_test_syscall_calls [of tid e symbol array s] by (simp only: effective_def)

text \<open>Argument types whose value is an address the kernel reads or writes through.\<close>

definition by_reference :: "arg_type \<Rightarrow> bool" where
  "by_reference t \<longleftrightarrow> t \<in> {FILE_PATH, DIR_PATH, MOUNT_PATH, VOID_BUF, STAT_FS, RUSAGE, MESSAGE, SOCKADDR}"

text \<open>The call that the test function of an entry makes has all its arguments, each in its place, and
  hands over addresses as addresses.\<close>

definition calls_as_described :: "syscall_entry \<Rightarrow> bool" where
  "calls_as_described e \<longleftrightarrow>
     (let how = effective (entry_id e) in
      length how = unat (total_args e) \<and>
      (\<forall>i \<in> set [0..<length how].
         how ! i = Ptr i \<or> how ! i = Val i \<and> \<not> by_reference (arg_type_array e ! i)))"

text \<open>The generator that makes an argument of each type.\<close>

fun generator_of :: "arg_type \<Rightarrow> gen_fun option" where
  "generator_of FILE_DESC = Some Generate_fd"
| "generator_of VOID_BUF = Some Generate_buf"
| "generator_of SIZE = Some Generate_length"
| "generator_of FILE_PATH = Some Generate_path"
| "generator_of OPEN_FLAG = Some Generate_open_flag"
| "generator_of MODE = Some Generate_mode"
| "generator_of STAT_FS = Some Generate_fs_stat"
| "generator_of STAT_FLAG = Some Generate_fs_stat_flag"
| "generator_of INT_ARG = Some Generate_int"
| "generator_of RUSAGE = Some Generate_rusage"
| "generator_of PID = Some Generate_pid"
| "generator_of WAIT_OPTION = Some Generate_wait_option"
| "generator_of SOCKET = Some Generate_socket"
| "generator_of WHENCE = Some Generate_whence"
| "generator_of OFFSET = Some Generate_offset"
| "generator_of MOUNT_TYPE = Some Generate_mount_type"
| "generator_of DIR_PATH = Some Generate_dirpath"
| "generator_of MOUNT_FLAG = Some Generate_mount_flags"
| "generator_of UNMOUNT_FLAG = Some Generate_unmount_flags"
| "generator_of RECV_FLAG = Some Generate_recv_flags"
| "generator_of REQUEST = Some Generate_request"
| "generator_of MOUNT_PATH = Some Generate_mountpath"
| "generator_of DEV = Some Generate_dev"
| "generator_of PTRACE_REQUEST = None"
| "generator_of MESSAGE = Some Generate_message"
| "generator_of SEND_FLAG = Some Generate_send_flags"
| "generator_of SOCKADDR = Some Generate_sockaddr"
| "generator_of SOCKLEN = Some Generate_socklen"
| "generator_of AMODE = Some Generate_amode"
| "generator_of CHFLAGS = Some Generate_chflags"

definition generates_as_described :: "syscall_entry \<Rightarrow> bool" where
  "generates_as_described e \<longleftrightarrow>
     unat (total_args e) \<le> 7 \<and> length (arg_type_array e) = 7 \<and> length (get_arg_array e) = 7 \<and>
     (\<forall>i \<in> set [0..<unat (total_args e)].
        get_arg_array e ! i \<noteq> None \<and> get_arg_array e ! i = generator_of (arg_type_array e ! i))"

definition defects :: "(syscall_entry \<Rightarrow> bool) \<Rightarrow> syscall_table \<Rightarrow> string list" where
  "defects P table = [syscall_name e. e \<leftarrow> sys_entry table, \<not> P e]"

definition names_its_call :: "syscall_entry \<Rightarrow> bool" where
  "names_its_call e \<longleftrightarrow> syscall_symbol e = ''SYS_'' @ syscall_name e"

lemmas entry_defs = new_entry_def linux_entry_read_def
  freebsd_entry_chdir_def freebsd_entry_close_def freebsd_entry_fchdir_def freebsd_entry_getfsstat_def
  freebsd_entry_link_def freebsd_entry_lseek_def freebsd_entry_mknod_def freebsd_entry_open_def
  freebsd_entry_ptrace_def freebsd_entry_read_def freebsd_entry_recvmsg_def freebsd_entry_setuid_def
  freebsd_entry_unlink_def freebsd_entry_wait4_def freebsd_entry_write_def
  mac_entry_accept_def mac_entry_access_def mac_entry_chdir_def mac_entry_chflags_def mac_entry_close_def
  mac_entry_fchdir_def mac_entry_getfsstat_def mac_entry_getpeername_def mac_entry_getsockname_def
  mac_entry_link_def mac_entry_mknod_def mac_entry_open_def mac_entry_ptrace_def mac_entry_read_def
  mac_entry_recvfrom_def mac_entry_recvmsg_def mac_entry_sendmsg_def mac_entry_setuid_def
  mac_entry_unlink_def mac_entry_wait4_def mac_entry_write_def

lemma table_sizes:
  "length (sys_entry linux_syscall_table) = unat (total_syscalls linux_syscall_table)"
  "length (sys_entry freebsd_syscall_table) = unat (total_syscalls freebsd_syscall_table)"
  "length (sys_entry mac_osx_syscall_table) = unat (total_syscalls mac_osx_syscall_table)"
  by code_simp+

lemma linux_defects:
  "defects calls_as_described linux_syscall_table = [''read'']"
  "defects generates_as_described linux_syscall_table = []"
  "defects names_its_call linux_syscall_table = []"
  by code_simp+

lemma freebsd_defects:
  "defects calls_as_described freebsd_syscall_table =
     [''read'', ''write'', ''open'', ''wait4'', ''link'', ''unlink'', ''chdir'', ''mknod'', ''getfsstat'', ''lseek'',
      ''ptrace'', ''recvmsg'']"
  "defects generates_as_described freebsd_syscall_table = []"
  "defects names_its_call freebsd_syscall_table = []"
  by code_simp+

lemma mac_defects:
  "defects calls_as_described mac_osx_syscall_table = [''open'', ''mknod'', ''getfsstat'']"
  "defects generates_as_described mac_osx_syscall_table = [''recvfrom'']"
  "defects names_its_call mac_osx_syscall_table = [''recvfrom'']"
  by code_simp+


end
