(* ===== verification/Resource.thy ===== *)
theory Resource
  imports Network Set_Test
begin

text \<open>
  Model of \<^verbatim>\<open>src/src/resource/resource.c\<close>: descriptors, sockets and paths for the generated arguments,
  made on demand or taken from shared pools that are filled beforehand. A function pointer of the
  interface is \<open>None\<close> while unset and otherwise says which of the two implementations it points to.
  \<open>resources\<close> holds the \<open>struct resource_ctx\<close> objects; \<open>walks\<close> is what a file tree walk delivers. A path
  that \<open>asprintf\<close> built is a value in \<open>Utils\<close>; when its pointer becomes a resource, \<open>place_string\<close> gives
  it its address.
\<close>

datatype rsrc_gen_type = CACHE | NO_CACHE

record resource_ctx =
  m_blk :: ptr
  rsrc_ptr :: ptr

record resource = network +
  rsrc_setup :: int
  desc_pool :: ptr
  mount_pool :: ptr
  dirpath_pool :: ptr
  file_pool :: ptr
  socket_pool :: ptr
  get_desc_interface :: "rsrc_gen_type option"
  get_socket_interface :: "rsrc_gen_type option"
  get_mountpath_interface :: "rsrc_gen_type option"
  get_dirpath_interface :: "rsrc_gen_type option"
  get_filepath_interface :: "rsrc_gen_type option"
  free_desc_interface :: "rsrc_gen_type option"
  free_socket_interface :: "rsrc_gen_type option"
  free_mountpath_interface :: "rsrc_gen_type option"
  free_dirpath_interface :: "rsrc_gen_type option"
  free_filepath_interface :: "rsrc_gen_type option"
  resources :: "ptr \<rightharpoonup> resource_ctx"
  walks :: "nat \<Rightarrow> (fts_info \<times> string) list"

definition POOL_SIZE :: u32 where
  "POOL_SIZE = 1024"

definition sizeof_resource_ctx :: u64 where
  "sizeof_resource_ctx = 16"

section \<open>Memory contents\<close>

definition block_text :: "ptr \<Rightarrow> 'z os_scheme \<Rightarrow> string option" where
  "block_text p s =
     do { n \<leftarrow> (case heap s p of None \<Rightarrow> regions s p | Some n \<Rightarrow> Some n);
          let bs = map (bytes s p) [0..<unat n];
          if 0 \<in> set bs then Some (map (\<lambda>b. char_of (unat b)) (takeWhile (\<lambda>b. b \<noteq> 0) bs)) else None }"

definition text_bytes :: "string \<Rightarrow> u8 list" where
  "text_bytes t = map (\<lambda>c. word_of_nat (of_char c)) t"

definition place_string :: "string \<Rightarrow> 'z os_scheme \<Rightarrow> ptr \<times> 'z os_scheme" where
  "place_string t s =
     (fresh s, s\<lparr>fresh := fresh s + 1, heap := (heap s)(fresh s \<mapsto> word_of_nat (length t + 1)),
                bytes := (bytes s)(fresh s := (\<lambda>i. if i < length t then text_bytes t ! i else 0))\<rparr>)"

text \<open>A descriptor in memory is a little-endian \<open>int32_t\<close>.\<close>

definition load_int :: "ptr \<Rightarrow> 'z os_scheme \<Rightarrow> int option" where
  "load_int p s = (if room p 4 s then Some (sint (ucast (le_word (map (bytes s p) [0..<4])) :: u32)) else None)"

definition store_int :: "ptr \<Rightarrow> int \<Rightarrow> 'z os_scheme \<Rightarrow> 'z os_scheme option" where
  "store_int p v s = store_bytes p 0 (le_bytes 4 (word_of_int v)) s"

section \<open>Resources made on demand\<close>

definition get_dirpath_nocached :: "'z resource_scheme \<Rightarrow> (ptr \<times> 'z resource_scheme) option" where
  "get_dirpath_nocached s =
     (let (writter, s) = get_console_writter s in
      if writter = NULL then Some (NULL, printf ''Failed to get console writter'' s)
      else do {
        (rtrn, path, s) \<leftarrow> create_random_directory ''/tmp'' None s;
        if rtrn < 0 then Some (NULL, console_output ERROR ''Can't create directory'' s)
        else do { t \<leftarrow> path; Some (place_string t s) } })"

definition get_filepath_nocached :: "'z resource_scheme \<Rightarrow> (ptr \<times> 'z resource_scheme) option" where
  "get_filepath_nocached s =
     (let (writter, s) = get_console_writter s in
      if writter = NULL then Some (NULL, printf ''Failed to get console writter'' s)
      else
        let (allocator, s) = get_default_allocator s in
        if allocator = NULL then Some (NULL, console_output ERROR ''Failed to get default memory allocator'' s)
        else
          let (random, s) = get_default_random_generator s in
          if random = NULL then Some (NULL, console_output ERROR ''Failed to get random number generator'' s)
          else do {
            (rtrn, path, fsize, s) \<leftarrow> create_random_file ''/tmp'' ''.txt'' None 0 default_generator s;
            if rtrn < 0 then Some (NULL, console_output ERROR ''Can't create random file'' s)
            else do { t \<leftarrow> path; Some (place_string t s) } })"

definition get_mountpath_nocached :: "'z resource_scheme \<Rightarrow> (ptr \<times> 'z resource_scheme) option" where
  "get_mountpath_nocached s = Some (NULL, s)"

definition get_socket_nocached :: "'z resource_scheme \<Rightarrow> (int \<times> 'z resource_scheme) option" where
  "get_socket_nocached s =
     (let (writter, s) = get_console_writter s in
      if writter = NULL then Some (-1, printf ''Failed to get console writter'' s)
      else
        let (allocator, s) = get_default_allocator s in
        if allocator = NULL then Some (-1, console_output ERROR ''Failed to get default memory allocator'' s)
        else
          let (random, s) = get_default_random_generator s in
          if random = NULL then Some (-1, console_output ERROR ''Failed to get random number generator'' s)
          else
            let (rtrn, num, s) = default_rand_range 1 0 s in
            if rtrn < 0 then Some (-1, console_output ERROR ''Can't generate random number'' s)
            else if num = 0 then let (_, sock, s) = connect_ipv6 s in Some (sock, s)
            else if num = 1 then let (_, sock, s) = connect_ipv4 s in Some (sock, s)
            else Some (-1, console_output ERROR ''Should not get here'' s))"

definition get_desc_nocached :: "'z resource_scheme \<Rightarrow> (int \<times> 'z resource_scheme) option" where
  "get_desc_nocached s =
     (let (writter, s) = get_console_writter s in
      if writter = NULL then Some (-1, printf ''Failed to get console writter'' s)
      else
        let (allocator, s) = get_default_allocator s in
        if allocator = NULL then Some (-1, console_output ERROR ''Failed to get default memory allocator'' s)
        else
          let (random, s) = get_default_random_generator s in
          if random = NULL then Some (-1, console_output ERROR ''Failed to get random number generator'' s)
          else do {
            (rtrn, path, fsize, s) \<leftarrow> create_random_file ''/tmp'' ''.txt'' None 0 default_generator s;
            if rtrn < 0 then Some (-1, console_output ERROR ''Can't create random file'' s)
            else do {
              t \<leftarrow> path;
              let (fd, s) = open_rd t s;
              if fd < 0 then Some (-1, console_output ERROR ''Can't open file: %s'' s)
              else Some (fd, s) } })"

text \<open>\<open>path\<close> is the pointer the argument points to; the functions that clear it return it.\<close>

definition free_filepath_nocached :: "ptr \<Rightarrow> 'z resource_scheme \<Rightarrow> (int \<times> ptr \<times> 'z resource_scheme) option" where
  "free_filepath_nocached path s =
     (if path = NULL then Some (-1, path, s)
      else
        let (writter, s) = get_console_writter s in
        if writter = NULL then Some (-1, path, printf ''Failed to get console writter'' s)
        else
          let (allocator, s) = get_default_allocator s in
          if allocator = NULL
          then Some (-1, path, console_output ERROR ''Failed to get default memory allocator'' s)
          else do {
            t \<leftarrow> block_text path s;
            let (rtrn, s) = ext ''unlink'' [] s;
            if rtrn < 0 \<or> files s t = None
            then Some (-1, path, console_output ERROR ''Can't remove file: %s'' s)
            else do {
              let s = s\<lparr>files := (files s)(t := None)\<rparr>;
              (path, s) \<leftarrow> default_mem_free path s;
              Some (0, path, s) } })"

definition free_mountpath_nocached :: "ptr \<Rightarrow> 'z resource_scheme \<Rightarrow> (int \<times> ptr \<times> 'z resource_scheme) option" where
  "free_mountpath_nocached path s = (if path = NULL then Some (-1, path, s) else Some (0, path, s))"

definition free_dirpath_nocached :: "ptr \<Rightarrow> 'z resource_scheme \<Rightarrow> (int \<times> ptr \<times> 'z resource_scheme) option" where
  "free_dirpath_nocached path s =
     (if path = NULL then Some (-1, path, s)
      else
        let (writter, s) = get_console_writter s in
        if writter = NULL then Some (-1, path, printf ''Failed to get console writter'' s)
        else
          let (allocator, s) = get_default_allocator s in
          if allocator = NULL
          then Some (-1, path, console_output ERROR ''Failed to get default memory allocator'' s)
          else do {
            t \<leftarrow> block_text path s;
            let (rtrn, s) = delete_directory (walks s (length (trace s))) (Some t) s;
            if rtrn < 0 then Some (-1, path, console_output ERROR ''Can't delete directory'' s)
            else do { (path, s) \<leftarrow> default_mem_free path s; Some (0, path, s) } })"

definition free_socket_nocached :: "ptr \<Rightarrow> 'z resource_scheme \<Rightarrow> (int \<times> 'z resource_scheme) option" where
  "free_socket_nocached socket_fd s =
     do { fd \<leftarrow> load_int socket_fd s; let (_, s) = ext ''close'' [fd] s; Some (0, s) }"

definition free_desc_nocached :: "ptr \<Rightarrow> 'z resource_scheme \<Rightarrow> (int \<times> 'z resource_scheme) option" where
  "free_desc_nocached fd_ptr s =
     do { fd \<leftarrow> load_int fd_ptr s; let (_, s) = ext ''close'' [fd] s; Some (0, s) }"

section \<open>Resources from the pools\<close>

text \<open>The loop \<open>NX_SLIST_FOREACH\<close> over the allocated blocks of a pool up to the first that matches, and
  the return of that block to the pool. \<open>found\<close> compares the resource of a block.\<close>

partial_function (option) find_block ::
    "(ptr \<Rightarrow> 'z resource_scheme \<Rightarrow> bool option) \<Rightarrow> ptr \<Rightarrow> 'z resource_scheme \<Rightarrow> ptr option" where
  "find_block found blk s =
     (if blk = NULL then Some NULL
      else do { hit \<leftarrow> found blk s;
                if hit then Some blk
                else do { next_blk \<leftarrow> nexts s blk; find_block found next_blk s } })"

definition free_matching ::
    "(ptr \<Rightarrow> 'z resource_scheme \<Rightarrow> bool option) \<Rightarrow> ptr \<Rightarrow> 'z resource_scheme \<Rightarrow> 'z resource_scheme option" where
  "free_matching found pool s =
     do { pl \<leftarrow> pools s pool;
          blk \<leftarrow> find_block found (allocated_list pl) s;
          if blk = NULL then Some s else mem_free_shared_block blk pool s }"

definition resource_of :: "ptr \<Rightarrow> 'z resource_scheme \<Rightarrow> ptr option" where
  "resource_of blk s = do { q \<leftarrow> bptrs s blk; r \<leftarrow> resources s q; Some (rsrc_ptr r) }"

text \<open>\<open>memcmp(*path, filepath, strlen(filepath)) == 0\<close>: the resource is a prefix of the path.\<close>

definition free_filepath_cached :: "ptr \<Rightarrow> 'z resource_scheme \<Rightarrow> (int \<times> ptr \<times> 'z resource_scheme) option" where
  "free_filepath_cached path s =
     do { s \<leftarrow> free_matching (\<lambda>blk s. do { p \<leftarrow> resource_of blk s;
                                            filepath \<leftarrow> block_text p s;
                                            t \<leftarrow> block_text path s;
                                            Some (take (length filepath) t = filepath) }) (file_pool s) s;
          Some (0, path, s) }"

definition free_mountpath_cached :: "ptr \<Rightarrow> 'z resource_scheme \<Rightarrow> (int \<times> ptr \<times> 'z resource_scheme) option" where
  "free_mountpath_cached path s =
     do { s \<leftarrow> free_matching (\<lambda>blk s. do { p \<leftarrow> resource_of blk s;
                                            dirpath \<leftarrow> block_text p s;
                                            t \<leftarrow> block_text path s;
                                            Some (t = dirpath) }) (mount_pool s) s;
          Some (0, path, s) }"

definition free_dirpath_cached :: "ptr \<Rightarrow> 'z resource_scheme \<Rightarrow> (int \<times> ptr \<times> 'z resource_scheme) option" where
  "free_dirpath_cached path s =
     do { s \<leftarrow> free_matching (\<lambda>blk s. do { p \<leftarrow> resource_of blk s;
                                            dirpath \<leftarrow> block_text p s;
                                            t \<leftarrow> block_text path s;
                                            Some (t = dirpath) }) (dirpath_pool s) s;
          Some (0, path, s) }"

definition free_socket_cached :: "ptr \<Rightarrow> 'z resource_scheme \<Rightarrow> (int \<times> 'z resource_scheme) option" where
  "free_socket_cached sock_fd s =
     do { s \<leftarrow> free_matching (\<lambda>blk s. do { p \<leftarrow> resource_of blk s;
                                            sock \<leftarrow> load_int p s;
                                            fd \<leftarrow> load_int sock_fd s;
                                            Some (sock = fd) }) (socket_pool s) s;
          Some (0, s) }"

definition free_desc_cached :: "ptr \<Rightarrow> 'z resource_scheme \<Rightarrow> (int \<times> 'z resource_scheme) option" where
  "free_desc_cached fd_ptr s =
     do { s \<leftarrow> free_matching (\<lambda>blk s. do { p \<leftarrow> resource_of blk s;
                                            desc \<leftarrow> load_int p s;
                                            fd \<leftarrow> load_int fd_ptr s;
                                            Some (fd = desc) }) (desc_pool s) s;
          Some (0, s) }"

definition get_dirpath_cached :: "'z resource_scheme \<Rightarrow> (ptr \<times> 'z resource_scheme) option" where
  "get_dirpath_cached s =
     do { (blk, s) \<leftarrow> mem_get_shared_block (dirpath_pool s) s;
          if blk = NULL then Some (NULL, printf ''Can't get shared block'' s)
          else do { path \<leftarrow> resource_of blk s; Some (path, s) } }"

definition get_filepath_cached :: "'z resource_scheme \<Rightarrow> (ptr \<times> 'z resource_scheme) option" where
  "get_filepath_cached s =
     do { (blk, s) \<leftarrow> mem_get_shared_block (file_pool s) s;
          if blk = NULL then Some (NULL, printf ''Can't get shared block'' s)
          else do { path \<leftarrow> resource_of blk s; Some (path, s) } }"

definition get_mountpath_cached :: "'z resource_scheme \<Rightarrow> (ptr \<times> 'z resource_scheme) option" where
  "get_mountpath_cached s =
     do { (blk, s) \<leftarrow> mem_get_shared_block (mount_pool s) s;
          if blk = NULL then Some (NULL, printf ''Can't get shared block'' s)
          else do { path \<leftarrow> resource_of blk s; Some (path, s) } }"

definition get_socket_cached :: "'z resource_scheme \<Rightarrow> (int \<times> 'z resource_scheme) option" where
  "get_socket_cached s =
     do { (blk, s) \<leftarrow> mem_get_shared_block (socket_pool s) s;
          if blk = NULL then Some (-1, printf ''Can't get shared block'' s)
          else do { sock \<leftarrow> resource_of blk s; fd \<leftarrow> load_int sock s; Some (fd, s) } }"

definition get_desc_cached :: "'z resource_scheme \<Rightarrow> (int \<times> 'z resource_scheme) option" where
  "get_desc_cached s =
     do { (blk, s) \<leftarrow> mem_get_shared_block (desc_pool s) s;
          if blk = NULL then Some (-1, printf ''Can't get shared block'' s)
          else do { p \<leftarrow> resource_of blk s; fd \<leftarrow> load_int p s; Some (fd, s) } }"

section \<open>The public interface\<close>

text \<open>A call through a null function pointer is undefined.\<close>

definition get_desc :: "'z resource_scheme \<Rightarrow> (int \<times> 'z resource_scheme) option" where
  "get_desc s =
     (if rsrc_setup s = 0 then Some (-1, printf ''Setup resource module first'' s)
      else case get_desc_interface s of
             None \<Rightarrow> None
           | Some CACHE \<Rightarrow> get_desc_cached s
           | Some NO_CACHE \<Rightarrow> get_desc_nocached s)"

definition free_desc :: "ptr \<Rightarrow> 'z resource_scheme \<Rightarrow> (int \<times> 'z resource_scheme) option" where
  "free_desc fd_ptr s =
     (if rsrc_setup s = 0 then Some (-1, printf ''Setup resource module first'' s)
      else case free_desc_interface s of
             None \<Rightarrow> None
           | Some CACHE \<Rightarrow> free_desc_cached fd_ptr s
           | Some NO_CACHE \<Rightarrow> free_desc_nocached fd_ptr s)"

definition get_socket :: "'z resource_scheme \<Rightarrow> (int \<times> 'z resource_scheme) option" where
  "get_socket s =
     (if rsrc_setup s = 0 then Some (-1, printf ''Setup resource module first'' s)
      else case get_socket_interface s of
             None \<Rightarrow> None
           | Some CACHE \<Rightarrow> get_socket_cached s
           | Some NO_CACHE \<Rightarrow> get_socket_nocached s)"

definition free_socket :: "ptr \<Rightarrow> 'z resource_scheme \<Rightarrow> (int \<times> 'z resource_scheme) option" where
  "free_socket fd_ptr s =
     (if rsrc_setup s = 0 then Some (-1, printf ''Setup resource module first'' s)
      else case free_socket_interface s of
             None \<Rightarrow> None
           | Some CACHE \<Rightarrow> free_socket_cached fd_ptr s
           | Some NO_CACHE \<Rightarrow> free_socket_nocached fd_ptr s)"

definition get_mountpath :: "'z resource_scheme \<Rightarrow> (ptr \<times> 'z resource_scheme) option" where
  "get_mountpath s =
     (if rsrc_setup s = 0 then Some (NULL, printf ''Setup resource module first'' s)
      else case get_mountpath_interface s of
             None \<Rightarrow> None
           | Some CACHE \<Rightarrow> get_mountpath_cached s
           | Some NO_CACHE \<Rightarrow> get_mountpath_nocached s)"

definition free_mountpath :: "ptr \<Rightarrow> 'z resource_scheme \<Rightarrow> (int \<times> ptr \<times> 'z resource_scheme) option" where
  "free_mountpath path s =
     (if rsrc_setup s = 0 then Some (-1, path, printf ''Setup resource module first'' s)
      else case free_mountpath_interface s of
             None \<Rightarrow> None
           | Some CACHE \<Rightarrow> free_mountpath_cached path s
           | Some NO_CACHE \<Rightarrow> free_mountpath_nocached path s)"

definition get_dirpath :: "'z resource_scheme \<Rightarrow> (ptr \<times> 'z resource_scheme) option" where
  "get_dirpath s =
     (if rsrc_setup s = 0 then Some (NULL, printf ''Setup resource module first'' s)
      else case get_dirpath_interface s of
             None \<Rightarrow> None
           | Some CACHE \<Rightarrow> get_dirpath_cached s
           | Some NO_CACHE \<Rightarrow> get_dirpath_nocached s)"

definition free_dirpath :: "ptr \<Rightarrow> 'z resource_scheme \<Rightarrow> (int \<times> ptr \<times> 'z resource_scheme) option" where
  "free_dirpath path s =
     (if rsrc_setup s = 0 then Some (-1, path, printf ''Setup resource module first'' s)
      else case free_dirpath_interface s of
             None \<Rightarrow> None
           | Some CACHE \<Rightarrow> free_dirpath_cached path s
           | Some NO_CACHE \<Rightarrow> free_dirpath_nocached path s)"

definition get_filepath :: "'z resource_scheme \<Rightarrow> (ptr \<times> 'z resource_scheme) option" where
  "get_filepath s =
     (if rsrc_setup s = 0 then Some (NULL, printf ''Setup resource module first'' s)
      else case get_filepath_interface s of
             None \<Rightarrow> None
           | Some CACHE \<Rightarrow> get_filepath_cached s
           | Some NO_CACHE \<Rightarrow> get_filepath_nocached s)"

definition free_filepath :: "ptr \<Rightarrow> 'z resource_scheme \<Rightarrow> (int \<times> ptr \<times> 'z resource_scheme) option" where
  "free_filepath path s =
     (if rsrc_setup s = 0 then Some (-1, path, printf ''Setup resource module first'' s)
      else case free_filepath_interface s of
             None \<Rightarrow> None
           | Some CACHE \<Rightarrow> free_filepath_cached path s
           | Some NO_CACHE \<Rightarrow> free_filepath_nocached path s)"

section \<open>Filling the pools\<close>

definition init_resource_ctx :: "u64 \<Rightarrow> 'z resource_scheme \<Rightarrow> int \<times> ptr \<times> 'z resource_scheme" where
  "init_resource_ctx nbytes s =
     (let (allocator, s) = get_default_allocator s in
      if allocator = NULL then (-1, NULL, printf ''Failed to get default memory allocator'' s)
      else
        let (resource, s) = default_mem_alloc_shared sizeof_resource_ctx s in
        if resource = NULL then (-1, resource, printf ''Can't allocate resource context'' s)
        else
          let (p, s) = default_mem_alloc_shared nbytes s;
              s = s\<lparr>resources := (resources s)(resource \<mapsto> \<lparr>m_blk = NULL, rsrc_ptr = p\<rparr>)\<rparr> in
          if p = NULL then (-1, resource, printf ''Can't alloc resource pointer'' s)
          else (0, resource, s))"

text \<open>The loop over the free blocks of a new pool; it returns early when its body does.\<close>

partial_function (option) foreach_block ::
    "(ptr \<Rightarrow> 'z resource_scheme \<Rightarrow> (bool \<times> 'z resource_scheme) option) \<Rightarrow> ptr \<Rightarrow> 'z resource_scheme \<Rightarrow>
     (bool \<times> 'z resource_scheme) option" where
  "foreach_block body blk s =
     (if blk = NULL then Some (True, s)
      else do { (go, s) \<leftarrow> body blk s;
                if \<not> go then Some (False, s)
                else do { next_blk \<leftarrow> nexts s blk; foreach_block body next_blk s } })"

text \<open>\<open>resource->m_blk = m_blk; m_blk->ptr = resource\<close>\<close>

definition attach :: "ptr \<Rightarrow> ptr \<Rightarrow> 'z resource_scheme \<Rightarrow> 'z resource_scheme option" where
  "attach resource blk s =
     do { r \<leftarrow> resources s resource;
          Some (s\<lparr>bptrs := (bptrs s)(blk \<mapsto> resource),
                  resources := (resources s)(resource \<mapsto> r\<lparr>m_blk := blk\<rparr>)\<rparr>) }"

definition fill_pool ::
    "(ptr \<Rightarrow> 'z resource_scheme \<Rightarrow> (bool \<times> 'z resource_scheme) option) \<Rightarrow> ptr \<Rightarrow> 'z resource_scheme \<Rightarrow>
     (ptr \<times> 'z resource_scheme) option" where
  "fill_pool body pool s =
     do { pl \<leftarrow> pools s pool;
          (done_all, s) \<leftarrow> foreach_block body (free_list pl) s;
          Some (if done_all then pool else NULL, s) }"

definition fd_pool_body :: "string \<Rightarrow> ptr \<Rightarrow> 'z resource_scheme \<Rightarrow> (bool \<times> 'z resource_scheme) option" where
  "fd_pool_body path blk s =
     (let (rtrn, resource, s) = init_resource_ctx 4 s in
      if rtrn < 0 then Some (False, printf ''Can't initialize resource context'' s)
      else do {
        (rtrn, file_path, fsize, s) \<leftarrow> create_random_file path ''.txt'' None 0 default_generator s;
        if rtrn < 0 then Some (False, printf ''Can't create random file'' s)
        else do {
          t \<leftarrow> file_path;
          let (fd, s) = open_rd t s;
          if fd < 0 then Some (False, printf ''Can't open newly created file: %s'' s)
          else do {
            r \<leftarrow> resources s resource;
            s \<leftarrow> store_int (rsrc_ptr r) fd s;
            s \<leftarrow> attach resource blk s;
            Some (True, s) } } })"

definition create_fd_pool :: "string \<Rightarrow> 'z resource_scheme \<Rightarrow> (ptr \<times> 'z resource_scheme) option" where
  "create_fd_pool path s =
     (let (writter, s) = get_console_writter s in
      if writter = NULL then Some (NULL, printf ''Failed to get console writter'' s)
      else
        let (allocator, s) = get_default_allocator s in
        if allocator = NULL then Some (NULL, console_output ERROR ''Failed to get default memory allocator'' s)
        else
          let (random, s) = get_default_random_generator s in
          if random = NULL then Some (NULL, console_output ERROR ''Failed to get random number generator'' s)
          else do {
            (pool, s) \<leftarrow> mem_create_shared_pool 8 POOL_SIZE s;
            if pool = NULL then Some (NULL, printf ''Can't allocate descriptor memory pool'' s)
            else fill_pool (fd_pool_body path) pool s })"

text \<open>The terminator is not copied: the mapping is zero-filled.\<close>

definition file_pool_body :: "string \<Rightarrow> ptr \<Rightarrow> 'z resource_scheme \<Rightarrow> (bool \<times> 'z resource_scheme) option" where
  "file_pool_body path blk s =
     (let (rtrn, resource, s) = init_resource_ctx (word_of_nat (PATH_MAX + 1)) s in
      if rtrn < 0 then Some (False, printf ''Initialize resource context'' s)
      else do {
        (rtrn, file_path, fsize, s) \<leftarrow> create_random_file path ''.txt'' None 0 default_generator s;
        if rtrn < 0 then Some (False, printf ''Can't create random file'' s)
        else do {
          t \<leftarrow> file_path;
          r \<leftarrow> resources s resource;
          s \<leftarrow> store_bytes (rsrc_ptr r) 0 (text_bytes t) s;
          s \<leftarrow> attach resource blk s;
          Some (True, s) } })"

definition create_file_pool :: "string \<Rightarrow> 'z resource_scheme \<Rightarrow> (ptr \<times> 'z resource_scheme) option" where
  "create_file_pool path s =
     (let (writter, s) = get_console_writter s in
      if writter = NULL then Some (NULL, printf ''Failed to get console writter'' s)
      else
        let (allocator, s) = get_default_allocator s in
        if allocator = NULL then Some (NULL, console_output ERROR ''Failed to get default memory allocator'' s)
        else
          let (random, s) = get_default_random_generator s in
          if random = NULL then Some (NULL, console_output ERROR ''Failed to get random number generator'' s)
          else do {
            (pool, s) \<leftarrow> mem_create_shared_pool 8 POOL_SIZE s;
            if pool = NULL then Some (NULL, printf ''Can't allocate file path memory pool'' s)
            else fill_pool (file_pool_body path) pool s })"

definition dirpath_pool_body :: "string \<Rightarrow> ptr \<Rightarrow> 'z resource_scheme \<Rightarrow> (bool \<times> 'z resource_scheme) option" where
  "dirpath_pool_body path blk s =
     (let (resource, s) = default_mem_alloc_shared sizeof_resource_ctx s in
      if resource = NULL then Some (False, printf ''Can't alloc resource object'' s)
      else
        let (p, s) = default_mem_alloc_shared (word_of_nat (PATH_MAX + 1)) s;
            s = s\<lparr>resources := (resources s)(resource \<mapsto> \<lparr>m_blk = NULL, rsrc_ptr = p\<rparr>)\<rparr> in
        if p = NULL then Some (False, printf ''Can't alloc resource pointer'' s)
        else
          let (rtrn, dir_name) = generate_directory_name None in
          if rtrn < 0 then Some (False, printf ''Can't generate file path'' s)
          else
            let (rtrn, dir_path, s) = asprintf (path @ ''/'' @ show_name dir_name) s in
            if rtrn < 0 then Some (False, printf ''Can't join paths: %s'' s)
            else do {
              t \<leftarrow> dir_path;
              s \<leftarrow> store_bytes p 0 (text_bytes t) s;
              s \<leftarrow> attach resource blk s;
              Some (True, s) })"

definition create_dirpath_pool :: "string \<Rightarrow> 'z resource_scheme \<Rightarrow> (ptr \<times> 'z resource_scheme) option" where
  "create_dirpath_pool path s =
     (let (writter, s) = get_console_writter s in
      if writter = NULL then Some (NULL, printf ''Failed to get console writter'' s)
      else do {
        (pool, s) \<leftarrow> mem_create_shared_pool 8 POOL_SIZE s;
        if pool = NULL then Some (NULL, printf ''Can't allocate dir path memory pool'' s)
        else
          let (allocator, s) = get_default_allocator s in
          if allocator = NULL then Some (NULL, printf ''Failed to get default memory allocator'' s)
          else fill_pool (dirpath_pool_body path) pool s })"

definition socket_pool_body :: "ptr \<Rightarrow> 'z resource_scheme \<Rightarrow> (bool \<times> 'z resource_scheme) option" where
  "socket_pool_body blk s =
     (let (rtrn, resource, s) = init_resource_ctx 4 s in
      if rtrn < 0 then Some (False, printf ''Initialize resource context'' s)
      else
        let (sock, s) = default_mem_alloc 4 s in
        if sock = NULL then Some (False, printf ''Can't allocate socket'' s)
        else
          let (rtrn, fd, s) = connect_ipv6 s in
          do {
            s \<leftarrow> store_int sock fd s;
            if rtrn < 0
            then do { (_, s) \<leftarrow> default_mem_free sock (printf ''Can't create socket'' s); Some (False, s) }
            else do {
              r \<leftarrow> resources s resource;
              v \<leftarrow> load_int sock s;
              s \<leftarrow> store_int (rsrc_ptr r) v s;
              s \<leftarrow> attach resource blk s;
              Some (True, s) } })"

definition create_socket_pool :: "'z resource_scheme \<Rightarrow> (ptr \<times> 'z resource_scheme) option" where
  "create_socket_pool s =
     do { (pool, s) \<leftarrow> mem_create_shared_pool 4 POOL_SIZE s;
          if pool = NULL then Some (NULL, printf ''Can't allocate socket memory pool'' s)
          else
            let (allocator, s) = get_default_allocator s in
            if allocator = NULL then Some (NULL, printf ''Failed to get default memory allocator'' s)
            else fill_pool socket_pool_body pool s }"

section \<open>Cleaning up\<close>

text \<open>The last statement of the loop body sets the loop variable to \<open>NULL\<close>, and the loop then reads the
  next pointer through it.\<close>

partial_function (option) clean_file_blocks ::
    "ptr \<Rightarrow> 'z resource_scheme \<Rightarrow> (int \<times> 'z resource_scheme) option" where
  "clean_file_blocks blk s =
     (if blk = NULL then Some (0, s)
      else do {
        q \<leftarrow> bptrs s blk;
        r \<leftarrow> resources s q;
        t \<leftarrow> block_text (rsrc_ptr r) s;
        let (rtrn, s) = ext ''unlink'' [] s;
        if rtrn < 0 \<or> files s t = None then Some (-1, printf ''Can't remove temp file'' s)
        else do {
          let s = s\<lparr>files := (files s)(t := None)\<rparr>;
          let (p, s) = default_mem_free_shared (rsrc_ptr r) (word_of_nat (PATH_MAX + 1)) s;
          let s = s\<lparr>resources := (resources s)(q \<mapsto> r\<lparr>rsrc_ptr := p\<rparr>)\<rparr>;
          let (p, s) = default_mem_free_shared q sizeof_resource_ctx s;
          let s = s\<lparr>bptrs := (bptrs s)(blk \<mapsto> p)\<rparr>;
          let (next_var, s) = default_mem_free_shared blk sizeof_memory_block s;
          if next_var = NULL then None
          else do { next_blk \<leftarrow> nexts s next_var; clean_file_blocks next_blk s } } })"

definition clean_allocated_file_list :: "ptr \<Rightarrow> 'z resource_scheme \<Rightarrow> (int \<times> 'z resource_scheme) option" where
  "clean_allocated_file_list pool s =
     (let (allocator, s) = get_default_allocator s in
      if allocator = NULL then Some (-1, printf ''Failed to get default memory allocator'' s)
      else do { pl \<leftarrow> pools s pool; clean_file_blocks (allocated_list pl) s })"

definition clean_file_pool :: "ptr \<Rightarrow> 'z resource_scheme \<Rightarrow> (int \<times> 'z resource_scheme) option" where
  "clean_file_pool pool s =
     (if pool = NULL then Some (-1, printf ''File pool already clean'' s)
      else do {
        s \<leftarrow> spinlock_lock pool s;
        pl \<leftarrow> pools s pool;
        (rtrn, s) \<leftarrow> (if allocated_list pl \<noteq> NULL then clean_allocated_file_list pool s else Some (0, s));
        if rtrn < 0 then Some (-1, printf ''Can't clean allocated file list'' s)
        else do {
          s \<leftarrow> spinlock_unlock pool s;
          Some (0, mem_clean_shared_pool pool s) } })"

definition cleanup_resource_pools :: "'z resource_scheme \<Rightarrow> (int \<times> 'z resource_scheme) option" where
  "cleanup_resource_pools s =
     do { (rtrn, s) \<leftarrow> clean_file_pool (file_pool s) s;
          if rtrn < 0 then Some (-1, printf ''Can't clean file pool'' s) else Some (0, s) }"

definition cleanup_resource_module :: "'z resource_scheme \<Rightarrow> (int \<times> 'z resource_scheme) option" where
  "cleanup_resource_module s =
     do { (rtrn, s) \<leftarrow> cleanup_resource_pools s;
          if rtrn < 0 then Some (0, printf ''Failed to clean resource pools'' s)
          else Some (0, s\<lparr>rsrc_setup := 0\<rparr>) }"

section \<open>Setting up\<close>

definition setup_nocache_interface :: "'z resource_scheme \<Rightarrow> 'z resource_scheme" where
  "setup_nocache_interface s =
     s\<lparr>get_desc_interface := Some NO_CACHE, get_socket_interface := Some NO_CACHE,
       get_mountpath_interface := Some NO_CACHE, get_filepath_interface := Some NO_CACHE,
       get_dirpath_interface := Some NO_CACHE, free_desc_interface := Some NO_CACHE,
       free_socket_interface := Some NO_CACHE, free_mountpath_interface := Some NO_CACHE,
       free_filepath_interface := Some NO_CACHE, free_dirpath_interface := Some NO_CACHE\<rparr>"

definition setup_cached_interface :: "'z resource_scheme \<Rightarrow> 'z resource_scheme" where
  "setup_cached_interface s =
     s\<lparr>get_desc_interface := Some CACHE, get_socket_interface := Some CACHE,
       get_mountpath_interface := Some CACHE, get_filepath_interface := Some CACHE,
       get_dirpath_interface := Some CACHE, free_desc_interface := Some CACHE,
       free_socket_interface := Some CACHE, free_mountpath_interface := Some CACHE,
       free_filepath_interface := Some CACHE, free_dirpath_interface := Some CACHE\<rparr>"

definition create_resource_pools :: "string \<Rightarrow> 'z resource_scheme \<Rightarrow> (int \<times> 'z resource_scheme) option" where
  "create_resource_pools path s =
     do { let s = printf ''Creating resource pools'' s;
          (p, s) \<leftarrow> create_file_pool path s;
          let s = s\<lparr>file_pool := p\<rparr>;
          if p = NULL then Some (-1, printf ''Can't create file pool'' s)
          else do {
            (p, s) \<leftarrow> create_socket_pool s;
            let s = s\<lparr>socket_pool := p\<rparr>;
            if p = NULL then Some (-1, printf ''Can't create socket pool'' s)
            else do {
              (p, s) \<leftarrow> create_fd_pool path s;
              let s = s\<lparr>desc_pool := p\<rparr>;
              if p = NULL then Some (-1, printf ''Can't create fd pool'' s)
              else do {
                (p, s) \<leftarrow> create_dirpath_pool path s;
                let s = s\<lparr>dirpath_pool := p\<rparr>;
                if p = NULL then Some (-1, printf ''Can't create dirpath pool'' s) else Some (0, s) } } } }"

text \<open>The generator object carries the two functions that make and release a descriptor on demand.\<close>

definition get_default_desc_generator :: "'z resource_scheme \<Rightarrow> ptr \<times> 'z resource_scheme" where
  "get_default_desc_generator s =
     (let (desc_gen, s) = default_mem_alloc 16 s in
      if desc_gen = NULL
      then (NULL, console_output ERROR ''Failed to allocate memory for the descriptor generator'' s)
      else (desc_gen, s))"

definition setup_resource_module ::
    "rsrc_gen_type \<Rightarrow> string option \<Rightarrow> 'z resource_scheme \<Rightarrow> (int \<times> 'z resource_scheme) option" where
  "setup_resource_module type path s =
     (if rsrc_setup s \<noteq> 0 then Some (-1, printf ''Resource module already setup'' s)
      else case path of
        None \<Rightarrow> Some (-1, printf ''Path is NULL'' s)
      | Some dir \<Rightarrow>
          let (rtrn, s) = setup_network_module SOCKET_SERVER s in
          if rtrn < 0 then Some (-1, printf ''Can't start socket server'' s)
          else
            (case type of
               CACHE \<Rightarrow>
                 do { (rtrn, s) \<leftarrow> create_resource_pools dir s;
                      if rtrn < 0 then Some (-1, printf ''Can't create resource pools'' s)
                      else Some (0, setup_cached_interface s\<lparr>rsrc_setup := 1\<rparr>) }
             | NO_CACHE \<Rightarrow> Some (0, setup_nocache_interface s\<lparr>rsrc_setup := 1\<rparr>)))"

section \<open>The cached resources\<close>

lemma find_block_first:
  assumes "slist (nexts s) p as" and "\<forall>b \<in> set as. found b s = Some (P b)"
  shows "find_block found p s = Some (case find P as of None \<Rightarrow> NULL | Some b \<Rightarrow> b)"
  using assms
proof (induction as arbitrary: p)
  case Nil
  then show ?case by (simp add: find_block.simps)
next
  case (Cons a as)
  then obtain n where n: "p = a" "a \<noteq> NULL" "nexts s a = Some n" "slist (nexts s) n as"
    by (auto split: option.splits)
  with Cons show ?case by (simp add: find_block.simps [of found a])
qed

lemma free_matching_first:
  assumes rep: "pool_rep pool s fs as" and "pool \<noteq> NULL" and "\<forall>b \<in> set as. found b s = Some (P b)"
  shows "case find P as of
     None \<Rightarrow> free_matching found pool s = Some s
   | Some b \<Rightarrow> b \<in> set as \<and> P b \<and> (\<exists>s'. free_matching found pool s = Some s' \<and>
                 pool_rep pool s' (b # fs) (remove1 b as) \<and> pool_frame pool (set as) s s')"
proof -
  from rep obtain pl where pl: "pools s pool = Some pl" "slist (nexts s) (allocated_list pl) as"
    by (rule pool_repE)
  note f = find_block_first [where found = found and P = P, OF pl(2) assms(3)]
  show ?thesis
  proof (cases "find P as")
    case None
    then show ?thesis using pl f by (simp add: free_matching_def)
  next
    case (Some b)
    then have b: "b \<in> set as" "P b" by (auto simp: find_Some_iff)
    then have "b \<noteq> NULL" using pool_rep_not_NULL [OF rep] by (metis UnCI set_append)
    with mem_free_shared_block_rep [OF rep b(1) assms(2)] pl f Some b show ?thesis
      by (simp add: free_matching_def)
  qed
qed

lemma pool_frame_resource:
  assumes "pool_frame pool bs s s'"
  shows "resource_of b s' = resource_of b s" "load_int p s' = load_int p s" "block_text p s' = block_text p s"
    "desc_pool s' = desc_pool s" "socket_pool s' = socket_pool s" "file_pool s' = file_pool s"
proof -
  from assms obtain h pl where s': "s' = s\<lparr>nexts := h, pools := pl\<rparr>" by (auto simp: pool_frame_def)
  show "resource_of b s' = resource_of b s" "load_int p s' = load_int p s" "block_text p s' = block_text p s"
    "desc_pool s' = desc_pool s" "socket_pool s' = socket_pool s" "file_pool s' = file_pool s"
    by (simp_all add: s' resource_of_def load_int_def block_text_def room_def cong: if_cong option.case_cong)
qed

text \<open>The descriptor that a block of a pool stands for.\<close>

definition desc_of :: "ptr \<Rightarrow> 'z resource_scheme \<Rightarrow> int option" where
  "desc_of b s = do { p \<leftarrow> resource_of b s; load_int p s }"

lemma desc_ofE:
  assumes "desc_of b s = Some v"
  obtains p where "resource_of b s = Some p" and "load_int p s = Some v"
  using assms by (auto simp: desc_of_def elim: bind_SomeE)

lemma get_desc_cached_first:
  assumes "pool_rep (desc_pool s) s (b # fs) as" and "desc_of b s = Some v"
  shows "\<exists>s'. get_desc_cached s = Some (v, s') \<and> pool_rep (desc_pool s) s' fs (b # as) \<and>
     pool_frame (desc_pool s) {b} s s'"
proof -
  obtain s' where s': "mem_get_shared_block (desc_pool s) s = Some (b, s')"
    "pool_rep (desc_pool s) s' fs (b # as)" "pool_frame (desc_pool s) {b} s s'"
    using mem_get_shared_block_rep [OF assms(1)] by blast
  from assms(2) obtain p where p: "resource_of b s = Some p" "load_int p s = Some v" by (rule desc_ofE)
  have "b \<noteq> NULL" using pool_rep_not_NULL [OF assms(1)] by auto
  with s' p pool_frame_resource [OF s'(3)] show ?thesis by (simp add: get_desc_cached_def)
qed

lemma free_desc_cached_first:
  assumes "pool_rep (desc_pool s) s fs as" and "desc_pool s \<noteq> NULL"
    and "\<forall>b \<in> set as. desc_of b s = Some (v b)" and "load_int q s = Some d"
  shows "case find (\<lambda>b. v b = d) as of
     None \<Rightarrow> free_desc_cached q s = Some (0, s)
   | Some b \<Rightarrow> \<exists>s'. free_desc_cached q s = Some (0, s') \<and>
       pool_rep (desc_pool s) s' (b # fs) (remove1 b as) \<and> pool_frame (desc_pool s) (set as) s s'"
proof -
  let ?found = "\<lambda>blk s. do { p \<leftarrow> resource_of blk s; desc \<leftarrow> load_int p s; fd \<leftarrow> load_int q s; Some (fd = desc) }"
  have "\<forall>b \<in> set as. ?found b s = Some (v b = d)"
  proof
    fix b assume "b \<in> set as"
    with assms(3) have "desc_of b s = Some (v b)" by blast
    then show "?found b s = Some (v b = d)" by (elim desc_ofE) (auto simp: assms(4))
  qed
  from free_matching_first [where found = ?found and P = "\<lambda>b. v b = d", OF assms(1,2) this] show ?thesis
    by (cases "find (\<lambda>b. v b = d) as") (auto simp: free_desc_cached_def)
qed

text \<open>C29. With pairwise different descriptors in its pool, a descriptor taken from the cache and given
  back through any variable that holds it restores the pool: the same block becomes the first free
  block again and no other block moves. Giving back a number that is no descriptor in use changes
  nothing.\<close>

theorem desc_cache_roundtrip:
  assumes "pool_rep (desc_pool s) s (b # fs) as" and "desc_pool s \<noteq> NULL"
    and "\<forall>c \<in> set (b # as). desc_of c s = Some (v c)" and "\<forall>c \<in> set as. v c \<noteq> v b"
    and "load_int q s = Some (v b)" and "load_int q' s = Some d" and "d \<notin> v ` set (b # as)"
  shows "\<exists>s1 s2. get_desc_cached s = Some (v b, s1) \<and> pool_rep (desc_pool s) s1 fs (b # as) \<and>
     free_desc_cached q' s1 = Some (0, s1) \<and>
     free_desc_cached q s1 = Some (0, s2) \<and> pool_rep (desc_pool s) s2 (b # fs) as \<and>
     resources s2 = resources s \<and> bytes s2 = bytes s"
proof -
  obtain s1 where s1: "get_desc_cached s = Some (v b, s1)" "pool_rep (desc_pool s) s1 fs (b # as)"
    "pool_frame (desc_pool s) {b} s s1"
    using get_desc_cached_first [OF assms(1), of "v b"] assms(3) by auto
  note same = pool_frame_resource [OF s1(3)]
  have rep1: "pool_rep (desc_pool s1) s1 fs (b # as)" and nn: "desc_pool s1 \<noteq> NULL"
    using s1(2) same assms(2) by simp_all
  have vals: "\<forall>c \<in> set (b # as). desc_of c s1 = Some (v c)"
    using assms(3) same by (simp add: desc_of_def)
  have q: "load_int q s1 = Some (v b)" "load_int q' s1 = Some d" using assms(5,6) same by simp_all
  have "find (\<lambda>c. v c = d) (b # as) = None" using assms(7) by (auto simp: find_None_iff)
  with free_desc_cached_first [OF rep1 nn vals q(2)] have gone: "free_desc_cached q' s1 = Some (0, s1)"
    by simp
  from free_desc_cached_first [OF rep1 nn vals q(1)] obtain s2 where
    s2: "free_desc_cached q s1 = Some (0, s2)" "pool_rep (desc_pool s1) s2 (b # fs) as"
      "pool_frame (desc_pool s1) (set (b # as)) s1 s2" by auto
  have "resources s2 = resources s" "bytes s2 = bytes s"
    using s1(3) s2(3) by (auto simp: pool_frame_def)
  with s1 s2 same gone show ?thesis by auto
qed

section \<open>The cache is never built\<close>

lemma create_blocks_head:
  assumes "create_blocks n pool bsize s = Some (True, s')"
    and "0 < n \<or> (\<exists>pl. pools s pool = Some pl \<and> free_list pl \<noteq> NULL)"
  shows "\<exists>pl. pools s' pool = Some pl \<and> free_list pl \<noteq> NULL"
  using assms
proof (induction n arbitrary: s)
  case (Suc n)
  then obtain t u b where "create_blocks n pool bsize u = Some (True, s')"
      and "free_list_insert_head pool b t = Some u" and "b \<noteq> NULL"
    by (auto simp: Let_def split: prod.splits if_splits elim!: bind_SomeE)
  moreover from this have "\<exists>pl. pools u pool = Some pl \<and> free_list pl \<noteq> NULL"
    by (auto simp: free_list_insert_head_def slist_insert_head_def split: if_splits elim!: bind_SomeE)
  ultimately show ?case using Suc.IH by blast
qed simp

lemma mem_create_shared_pool_head:
  assumes "mem_create_shared_pool bsize bcount s = Some (pool, s')" and "pool \<noteq> NULL"
  shows "\<exists>pl. pools s' pool = Some pl \<and> free_list pl \<noteq> NULL"
proof -
  from assms obtain t where "create_blocks (unat bcount) pool bsize t = Some (True, s')" and "bcount \<noteq> 0"
    by (auto simp: mem_create_shared_pool_def Let_def split: prod.splits if_splits elim!: bind_SomeE)
  with create_blocks_head [of "unat bcount" pool bsize t s'] show ?thesis
    by (simp add: unat_gt_0)
qed

lemma file_pool_body_fails: "file_pool_body path blk s = Some (go, s') \<Longrightarrow> \<not> go"
  by (auto simp: file_pool_body_def Let_def dest: create_random_file_code
      split: prod.splits if_splits elim!: bind_SomeE)

lemma fill_file_pool_never:
  assumes "fill_pool (file_pool_body path) pool s = Some (q, s')"
    and "pools s pool = Some pl" and "free_list pl \<noteq> NULL"
  shows "q = NULL"
  using assms by (auto simp: fill_pool_def foreach_block.simps [of _ "free_list pl"] dest: file_pool_body_fails
      split: if_splits elim!: bind_SomeE)

lemma create_file_pool_never:
  assumes "create_file_pool path s = Some (pool, s')"
  shows "pool = NULL"
proof -
  obtain a1 s1 where 1: "get_console_writter s = (a1, s1)" by fastforce
  obtain a2 s2 where 2: "get_default_allocator s1 = (a2, s2)" by fastforce
  obtain a3 s3 where 3: "get_default_random_generator s2 = (a3, s3)" by fastforce
  show ?thesis
  proof (cases "a1 = NULL \<or> a2 = NULL \<or> a3 = NULL")
    case True
    with assms show ?thesis by (auto simp: create_file_pool_def 1 2 3 split: if_splits)
  next
    case False
    with assms obtain q t where q: "mem_create_shared_pool 8 POOL_SIZE s3 = Some (q, t)"
      and run: "(if q = NULL then Some (NULL, printf ''Can't allocate file path memory pool'' t)
                 else fill_pool (file_pool_body path) q t) = Some (pool, s')"
      by (auto simp: create_file_pool_def 1 2 3 elim!: bind_SomeE)
    show ?thesis
    proof (cases "q = NULL")
      case False
      with mem_create_shared_pool_head [OF q] run fill_file_pool_never [of path q t pool s'] show ?thesis by auto
    qed (use run in simp)
  qed
qed

text \<open>C31. No file descriptor and no file path is ever obtained, since \<open>create_random_file\<close> never succeeds
  with the default generator: on demand both functions fail, and the cache cannot be built, so the set-up
  of the module in cached mode never succeeds.\<close>

theorem no_file_resources:
  "(get_desc_nocached s = Some (fd, s') \<longrightarrow> fd = - 1) \<and>
   (get_filepath_nocached s = Some (p, s') \<longrightarrow> p = NULL) \<and>
   setup_resource_module CACHE path s \<noteq> Some (0, s')"
proof (intro conjI impI)
  show "fd = - 1" if "get_desc_nocached s = Some (fd, s')"
    using that by (auto simp: get_desc_nocached_def Let_def dest: create_random_file_code
        split: prod.splits if_splits elim!: bind_SomeE)
  show "p = NULL" if "get_filepath_nocached s = Some (p, s')"
    using that by (auto simp: get_filepath_nocached_def Let_def dest: create_random_file_code
        split: prod.splits if_splits elim!: bind_SomeE)
  have "create_resource_pools dir u \<noteq> Some (r, t)" if "\<not> r < 0" for dir r and u t :: "'a resource_scheme"
    using that by (auto simp: create_resource_pools_def Let_def dest: create_file_pool_never
        split: if_splits elim!: bind_SomeE)
  then show "setup_resource_module CACHE path s \<noteq> Some (0, s')"
    by (auto simp: setup_resource_module_def split: option.splits prod.splits if_splits elim!: bind_SomeE)
qed

section \<open>Cleaning up a file pool in use\<close>

lemma clean_file_blocks_cases:
  assumes "blk \<noteq> NULL" and "clean_file_blocks blk s = Some (r, s')"
  shows "r = - 1 \<and> pools s' = pools s"
  using assms by (auto simp: clean_file_blocks.simps [of blk] default_mem_free_shared_def ext_eq printing_defs
      Let_def split: prod.splits if_splits elim!: bind_SomeE)

text \<open>Cleaning up a file pool of which at least one block is in use never succeeds: the loop sets its
  own variable to \<open>NULL\<close> and then reads the next block through it, or it returns the error code before
  that and leaves the pool locked, so that every later request for a block spins forever.\<close>

lemma clean_used_pool_fails:
  assumes "pool_rep pool s fs as" and "as \<noteq> []" and "pool \<noteq> NULL"
  shows "case clean_file_pool pool s of
     None \<Rightarrow> True
   | Some (r, s') \<Rightarrow> r = - 1 \<and> mem_get_shared_block pool s' = None"
proof (cases "clean_file_pool pool s")
  case (Some x)
  obtain r s' where x: "x = (r, s')" by fastforce
  from assms obtain pl where pl: "pools s pool = Some pl" "\<not> lock pl" "allocated_list pl \<noteq> NULL"
    by (auto elim!: pool_repE simp: neq_Nil_conv)
  let ?t = "s\<lparr>pools := (pools s)(pool \<mapsto> pl\<lparr>lock := True\<rparr>)\<rparr>"
  obtain c u where u: "clean_allocated_file_list pool ?t = Some (c, u)"
    and r: "if c < 0 then r = - 1 \<and> s' = printf ''Can't clean allocated file list'' u else r = 0"
    using Some pl assms(3) unfolding x
    by (auto simp: clean_file_pool_def spinlock_lock_def split: if_splits elim!: bind_SomeE)
  obtain a t1 where a: "get_default_allocator ?t = (a, t1)" by fastforce
  then have t1: "pools t1 pool = Some (pl\<lparr>lock := True\<rparr>)"
    by (auto simp: get_default_allocator_def default_mem_alloc_def malloc_def split: if_splits)
  have "c = - 1 \<and> (\<exists>pl. pools u pool = Some pl \<and> lock pl)"
    using u a t1 pl(3) clean_file_blocks_cases [of "allocated_list pl" t1 c u]
    by (auto simp: clean_allocated_file_list_def printing_defs split: if_splits)
  with r have "r = - 1" and locked: "\<exists>pl. pools s' pool = Some pl \<and> lock pl"
    by (auto simp: printing_defs)
  from locked have "spinlock_lock pool s' = None" by (auto simp: spinlock_lock_def)
  then have "mem_get_shared_block pool s' = None" by (simp add: mem_get_shared_block.simps)
  with \<open>r = - 1\<close> Some x show ?thesis by simp
qed simp

section \<open>Instances\<close>

text \<open>A descriptor pool at address 5 with one free block, which stands for descriptor 3, and one in use,
  which stands for descriptor 4; the variables at 12 and 13 hold 3 and 9.\<close>

definition resource0 :: resource where
  "resource0 = network.extend
     (network0\<lparr>grant := (\<lambda>_. False), fresh := 20,
       regions := [10 \<mapsto> 4, 11 \<mapsto> 4, 12 \<mapsto> 4, 13 \<mapsto> 4],
       bytes := (\<lambda>p i. if i = 0 then (if p = 10 \<or> p = 12 then 3 else if p = 11 then 4 else if p = 13 then 9 else 0) else 0),
       nexts := [6 \<mapsto> NULL, 7 \<mapsto> NULL], bptrs := [6 \<mapsto> 8, 7 \<mapsto> 9],
       pools := [5 \<mapsto> \<lparr>lock = False, block_size = 8, block_count = 2, free_list = 6, allocated_list = 7\<rparr>]\<rparr>)
     (resource.fields 1 5 0 0 5 0 (Some CACHE) (Some CACHE) (Some CACHE) (Some CACHE) (Some CACHE)
       (Some CACHE) (Some CACHE) (Some CACHE) (Some CACHE) (Some CACHE)
       [8 \<mapsto> \<lparr>m_blk = 6, rsrc_ptr = 10\<rparr>, 9 \<mapsto> \<lparr>m_blk = 7, rsrc_ptr = 11\<rparr>] (\<lambda>_. []))"

lemma resource0_simps [simp]:
  "grant resource0 = (\<lambda>_. False)" "heap resource0 = Map.empty" "asked resource0 = 0"
  "regions resource0 = [10 \<mapsto> 4, 11 \<mapsto> 4, 12 \<mapsto> 4, 13 \<mapsto> 4]"
  "bytes resource0 = (\<lambda>p i. if i = 0 then (if p = 10 \<or> p = 12 then 3 else if p = 11 then 4 else if p = 13 then 9 else 0) else 0)"
  "nexts resource0 = [6 \<mapsto> NULL, 7 \<mapsto> NULL]" "bptrs resource0 = [6 \<mapsto> 8, 7 \<mapsto> 9]"
  "pools resource0 = [5 \<mapsto> \<lparr>lock = False, block_size = 8, block_count = 2, free_list = 6, allocated_list = 7\<rparr>]"
  "resources resource0 = [8 \<mapsto> \<lparr>m_blk = 6, rsrc_ptr = 10\<rparr>, 9 \<mapsto> \<lparr>m_blk = 7, rsrc_ptr = 11\<rparr>]"
  "desc_pool resource0 = 5" "file_pool resource0 = 5"
  by (simp_all add: resource0_def network0_def utils0_def utils.defs network.defs resource.defs)

lemma resource0_pool: "pool_rep 5 resource0 [6] [7]"
  by (simp add: pool_rep_def)

lemma resource0_ints: "load_int 10 resource0 = Some 3" "load_int 11 resource0 = Some 4"
    "load_int 12 resource0 = Some 3" "load_int 13 resource0 = Some 9"
proof -
  have four: "[0..<4] = [0, 1, 2, 3 :: nat]" by (simp add: upt_rec)
  show "load_int 10 resource0 = Some 3" "load_int 11 resource0 = Some 4"
    "load_int 12 resource0 = Some 3" "load_int 13 resource0 = Some 9"
    by (simp_all add: load_int_def room_def le_word_def four)
qed

theorem desc_cache_roundtrip_witness:
  "\<exists>s1 s2. get_desc_cached resource0 = Some (3, s1) \<and> free_desc_cached 12 s1 = Some (0, s2) \<and>
     pool_rep 5 s2 [6] [7]"
proof -
  have "desc_of 6 resource0 = Some 3" "desc_of 7 resource0 = Some 4"
    using resource0_ints by (simp_all add: desc_of_def resource_of_def)
  then show ?thesis
    using desc_cache_roundtrip [of resource0 6 "[]" "[7]" "\<lambda>c. if c = 6 then 3 else 4" 12 13 9]
      resource0_pool resource0_ints by auto
qed

theorem no_file_resources_witness: "\<exists>fd s'. get_desc_nocached resource0 = Some (fd, s') \<and> fd = - 1"
proof -
  have "\<exists>fd s'. get_desc_nocached resource0 = Some (fd, s')"
    by (simp add: get_desc_nocached_def get_console_writter_def malloc_def)
  then obtain fd s' where "get_desc_nocached resource0 = Some (fd, s')" by blast
  with no_file_resources [of resource0 fd s'] show ?thesis by blast
qed

end
