(* ===== verification/Child.thy ===== *)
theory Child
  imports Resource
begin

text \<open>
  The data of \<^verbatim>\<open>src/src/syscall/syscall.c\<close> and the functions on it that the argument generators and the
  signal handlers call: the contexts of the child processes, which live in shared memory, and the
  static variables of the file. A zero-filled field of an enumeration is its first constructor, so a
  new context says \<open>NX_YES\<close> wherever the code has not written. Atomic loads and stores are loads and
  stores; the compare-and-swap loop that stores a pid is the subject of \<open>Concurrent\<close>.

  The shared copy of the system call table holds the same pointers to the static entries as the
  original, so both are \<open>static_table\<close>; \<open>sys_table\<close> is the address of the copy. The arrays of a context
  have \<open>ARG_LIMIT\<close> elements and the array of children \<open>total_children\<close>: outside of them a read is
  undefined.
\<close>

definition ARG_LIMIT :: u32 where "ARG_LIMIT = 7"
definition ARG_BUF_LEN :: u64 where "ARG_BUF_LEN = 4096"
definition EMPTY :: int where "EMPTY = 0"

record child_ctx =
  child_pid :: int
  syscall_number :: u32
  child_symbol :: string
  current_arg :: u32
  child_total_args :: u32
  child_syscall_name :: string
  arg_value_array :: "ptr list"
  arg_copy_array :: "ptr list"
  arg_size_array :: "u64 list"
  ret_value :: int
  had_error :: yes_no
  sig_num :: int
  did_jump :: yes_no
  probe_handle :: ptr
  child_need_alarm :: yes_no
  child_test :: "test_fun option"

record syscall_state = resource +
  static_table :: syscall_table
  sys_table :: ptr
  table_set :: int
  total_children :: u32
  children :: "ptr list"
  child_at :: "ptr \<rightharpoonup> child_ctx"
  global_state :: ptr
  running_children :: u32
  test_counter :: u32
  stop_ptr :: ptr
  run_mode :: int
  epoch_global :: ptr

definition upd_child ::
    "ptr \<Rightarrow> (child_ctx \<Rightarrow> child_ctx) \<Rightarrow> 'z syscall_state_scheme \<Rightarrow> 'z syscall_state_scheme option" where
  "upd_child child f s =
     do { c \<leftarrow> child_at s child; Some (s\<lparr>child_at := (child_at s)(child \<mapsto> f c)\<rparr>) }"

definition set_had_error :: "ptr \<Rightarrow> yes_no \<Rightarrow> 'z syscall_state_scheme \<Rightarrow> 'z syscall_state_scheme option" where
  "set_had_error child val s = upd_child child (\<lambda>c. c\<lparr>had_error := val\<rparr>) s"

definition set_ret_value :: "ptr \<Rightarrow> int \<Rightarrow> 'z syscall_state_scheme \<Rightarrow> 'z syscall_state_scheme option" where
  "set_ret_value child val s = upd_child child (\<lambda>c. c\<lparr>ret_value := val\<rparr>) s"

definition set_sig_num :: "ptr \<Rightarrow> int \<Rightarrow> 'z syscall_state_scheme \<Rightarrow> 'z syscall_state_scheme option" where
  "set_sig_num child num s = upd_child child (\<lambda>c. c\<lparr>sig_num := num\<rparr>) s"

definition set_did_jump :: "ptr \<Rightarrow> yes_no \<Rightarrow> 'z syscall_state_scheme \<Rightarrow> 'z syscall_state_scheme option" where
  "set_did_jump child val s = upd_child child (\<lambda>c. c\<lparr>did_jump := val\<rparr>) s"

definition set_child_pid :: "ptr \<Rightarrow> int \<Rightarrow> 'z syscall_state_scheme \<Rightarrow> 'z syscall_state_scheme option" where
  "set_child_pid child pid s = upd_child child (\<lambda>c. c\<lparr>child_pid := pid\<rparr>) s"

definition get_arg_size ::
    "ptr \<Rightarrow> u32 \<Rightarrow> u64 \<Rightarrow> 'z syscall_state_scheme \<Rightarrow> (int \<times> u64 \<times> 'z syscall_state_scheme) option" where
  "get_arg_size child arg_num nbytes s =
     (if ARG_LIMIT < arg_num
      then Some (-1, nbytes, console_output ERROR ''Arg number is greater than the arg limit.'' s)
      else do { c \<leftarrow> child_at s child;
                if unat arg_num < length (arg_size_array c)
                then Some (0, arg_size_array c ! unat arg_num, s) else None })"

definition get_current_arg :: "ptr \<Rightarrow> 'z syscall_state_scheme \<Rightarrow> u32 option" where
  "get_current_arg child s = do { c \<leftarrow> child_at s child; Some (current_arg c) }"

text \<open>The body of this function ignores its arguments.\<close>

definition set_arg_size :: "ptr \<Rightarrow> u64 \<Rightarrow> 'z syscall_state_scheme \<Rightarrow> 'z syscall_state_scheme" where
  "set_arg_size child nbytes s = s"

definition get_total_syscalls :: "'z syscall_state_scheme \<Rightarrow> u32 option" where
  "get_total_syscalls s = (if sys_table s = NULL then None else Some (total_syscalls (static_table s)))"

text \<open>The inner option is the pointer: the table has 56 slots, and those without an entry are null.\<close>

definition get_entry :: "u32 \<Rightarrow> 'z syscall_state_scheme \<Rightarrow> syscall_entry option option" where
  "get_entry number s =
     (if sys_table s = NULL then None
      else if total_syscalls (static_table s) < number then Some None
      else if unat number < length (sys_entry (static_table s))
      then Some (Some (sys_entry (static_table s) ! unat number))
      else if unat number < 56 then Some None else None)"

definition get_child_from_index :: "u32 \<Rightarrow> 'z syscall_state_scheme \<Rightarrow> ptr option" where
  "get_child_from_index i s =
     (if total_children s < i then Some NULL
      else if unat i < length (children s) then Some (children s ! unat i) else None)"

text \<open>The loops of the next two functions walk the array from index \<open>i\<close>.\<close>

function find_child :: "int \<Rightarrow> u32 \<Rightarrow> 'z syscall_state_scheme \<Rightarrow> u32 option option" where
  "find_child pid i s =
     (if i < total_children s
      then if unat i < length (children s)
           then do { c \<leftarrow> child_at s (children s ! unat i);
                     if child_pid c = pid then Some (Some i) else find_child pid (i + 1) s }
           else None
      else Some None)"
  by auto

termination
proof (relation "measure (\<lambda>(pid, i, s). unat (total_children s) - unat i)")
  show "wf (measure (\<lambda>(pid, i, s :: 'z syscall_state_scheme). unat (total_children s) - unat i))" by simp
  fix pid and i :: u32 and s :: "'z syscall_state_scheme" and c
  assume "i < total_children s"
  then have "unat (i + 1) = unat i + 1" and "unat i < unat (total_children s)"
    using unat_u32_less [of "total_children s"] by (simp_all add: word_less_nat_alt unat_plus1_u32)
  then show "((pid, i + 1, s), pid, i, s) \<in> measure (\<lambda>(pid, i, s). unat (total_children s) - unat i)" by simp
qed

definition get_child_index_number ::
    "u32 \<Rightarrow> 'z syscall_state_scheme \<Rightarrow> (int \<times> u32 \<times> 'z syscall_state_scheme) option" where
  "get_child_index_number index_num s =
     (let (pid, s) = ext ''getpid'' [] s in
      do { r \<leftarrow> find_child pid 0 s;
           case r of None \<Rightarrow> Some (-1, index_num, s) | Some i \<Rightarrow> Some (0, i, s) })"

definition get_child_ctx_from_pid :: "int \<Rightarrow> 'z syscall_state_scheme \<Rightarrow> ptr option" where
  "get_child_ctx_from_pid pid s =
     do { r \<leftarrow> find_child pid 0 s;
          case r of None \<Rightarrow> Some NULL | Some i \<Rightarrow> Some (children s ! unat i) }"

definition get_child :: "'z syscall_state_scheme \<Rightarrow> (ptr \<times> 'z syscall_state_scheme) option" where
  "get_child s =
     do { (rtrn, offset, s) \<leftarrow> get_child_index_number 0 s;
          if rtrn < 0 then Some (NULL, console_output ERROR ''Can't grab child number'' s)
          else if unat offset < length (children s) then Some (children s ! unat offset, s) else None }"

section \<open>Looking up a child\<close>

lemma find_child_spec:
  assumes "length (children s) = unat (total_children s)"
    and "\<forall>p \<in> set (children s). child_at s p \<noteq> None"
  shows "find_child pid i s =
     Some (case find (\<lambda>k. child_pid (the (child_at s (children s ! k))) = pid) [unat i..<length (children s)] of
             None \<Rightarrow> None | Some k \<Rightarrow> Some (word_of_nat k))"
  using assms
proof (induction pid i s rule: find_child.induct)
  case (1 pid i s)
  show ?case
  proof (cases "i < total_children s")
    case True
    then have lt: "unat i < length (children s)" and suc: "unat (i + 1) = unat i + 1"
      using 1(2) unat_u32_less [of "total_children s"] by (simp_all add: word_less_nat_alt unat_plus1_u32)
    then obtain c where c: "child_at s (children s ! unat i) = Some c" using 1(3) nth_mem by blast
    have "find_child pid (i + 1) s =
       Some (case find (\<lambda>k. child_pid (the (child_at s (children s ! k))) = pid) [unat i + 1..<length (children s)] of
             None \<Rightarrow> None | Some k \<Rightarrow> Some (word_of_nat k))" if "child_pid c \<noteq> pid"
      using 1(1) [OF True lt c that 1(2,3)] suc by simp
    with True lt c show ?thesis
      by (subst find_child.simps) (simp add: upt_conv_Cons [OF lt])
  next
    case False
    then have "length (children s) \<le> unat i" using 1(2) by (simp add: word_less_nat_alt)
    then have none: "[unat i..<length (children s)] = []" by simp
    show ?thesis unfolding none using False by (subst find_child.simps) simp
  qed
qed

end
