(* ===== verification/Generate.thy ===== *)
theory Generate
  imports Child
begin

text \<open>
  Model of \<^verbatim>\<open>src/src/syscall/generate.c\<close> and \<^verbatim>\<open>generate-macos.c\<close>: the functions that make the arguments of
  a system call. A generator gets the child and the present value of the array element it fills, and
  returns its code and the new value of the element. \<open>with_alloc\<close> and \<open>with_random\<close> are the two
  prologues that nearly all of them share: allocate the argument or return, draw a number or return.
  A \<open>switch\<close> over the number that stores a constant in each case is a list of the constants and a
  bound; the constants are those of Linux, and those of Mac OS where the function is not compiled on
  Linux. What \<open>malloc\<close> delivers is not initialised: its contents are whatever \<open>bytes\<close> says.
\<close>

unbundle bit_operations_syntax

type_synonym 's generated = "(int \<times> ptr \<times> 's) option"

definition with_alloc ::
    "u64 \<Rightarrow> out_type \<Rightarrow> string \<Rightarrow> (ptr \<Rightarrow> 'z os_scheme \<Rightarrow> 'z os_scheme generated) \<Rightarrow> 'z os_scheme \<Rightarrow>
     'z os_scheme generated" where
  "with_alloc n kind msg f s =
     (let (p, s) = mem_alloc n s in
      if p = NULL then Some (-1, p, nx_output kind msg s) else f p s)"

definition with_random ::
    "u32 \<Rightarrow> string \<Rightarrow> ptr \<Rightarrow> (u32 \<Rightarrow> 'z crypto_scheme \<Rightarrow> 'z crypto_scheme generated) \<Rightarrow> 'z crypto_scheme \<Rightarrow>
     'z crypto_scheme generated" where
  "with_random rng msg arg f s =
     do { (rtrn, number, s) \<leftarrow> rand_range rng 0 s;
          if rtrn < 0 then Some (-1, arg, nx_output ERROR msg s) else f number s }"

text \<open>\<open>**p = v\<close> and \<open>**p |= v\<close> for the case of the number, and the message of the default case.\<close>

definition store_case ::
    "u64 list \<Rightarrow> string \<Rightarrow> ptr \<Rightarrow> u32 \<Rightarrow> 'z os_scheme \<Rightarrow> 'z os_scheme generated" where
  "store_case vals msg p number s =
     (if unat number < length vals
      then do { s \<leftarrow> store64 p (vals ! unat number) s; Some (0, p, s) }
      else Some (-1, p, nx_output ERROR msg s))"

definition or_case ::
    "u64 list \<Rightarrow> string \<Rightarrow> ptr \<Rightarrow> u32 \<Rightarrow> 'z os_scheme \<Rightarrow> 'z os_scheme generated" where
  "or_case vals msg p number s =
     (if unat number < length vals
      then do { w \<leftarrow> load64 p s; s \<leftarrow> store64 p (w OR vals ! unat number) s; Some (0, p, s) }
      else Some (-1, p, nx_output ERROR msg s))"

text \<open>The end of a generator: the size is recorded, which does nothing, and the code is returned.\<close>

definition finish ::
    "ptr \<Rightarrow> u64 \<Rightarrow> 'z syscall_state_scheme generated \<Rightarrow> 'z syscall_state_scheme generated" where
  "finish child n r =
     do { (rtrn, p, s) \<leftarrow> r;
          if rtrn < 0 then Some (rtrn, p, s) else Some (0, p, set_arg_size child n s) }"

section \<open>Resources\<close>

definition generate_fd ::
    "ptr \<Rightarrow> ptr \<Rightarrow> 'z syscall_state_scheme \<Rightarrow> 'z syscall_state_scheme generated" where
  "generate_fd child fd s =
     with_alloc 4 ERROR ''Can't allocate a descriptor'' (\<lambda>fd s.
       do { (desc, s) \<leftarrow> get_desc s;
            if desc < 0 then Some (-1, fd, nx_output ERROR ''Can't get file descriptor'' s)
            else do { s \<leftarrow> store_int fd desc s; Some (0, fd, set_arg_size child 4 s) } }) s"

definition generate_socket ::
    "ptr \<Rightarrow> ptr \<Rightarrow> 'z syscall_state_scheme \<Rightarrow> 'z syscall_state_scheme generated" where
  "generate_socket child sock s =
     with_alloc 4 ERROR ''Can't allocate socket'' (\<lambda>sock s.
       do { (sock_fd, s) \<leftarrow> get_socket s;
            if sock_fd < 0 then Some (-1, sock, nx_output ERROR ''Can't get socket'' s)
            else do { s \<leftarrow> store_int sock sock_fd s; Some (0, sock, set_arg_size child 4 s) } }) s"

text \<open>The three cases map the same number of bytes and differ in the protection only; a failed \<open>mmap\<close>
  leaves \<open>MAP_FAILED\<close> in the element, which is no address of a block.\<close>

definition map_failed :: ptr where
  "map_failed = 2 ^ 64 - 1"

definition generate_buf ::
    "ptr \<Rightarrow> ptr \<Rightarrow> 'z syscall_state_scheme \<Rightarrow> 'z syscall_state_scheme generated" where
  "generate_buf child buf s =
     with_random 1023 ''Can't pick random size'' buf (\<lambda>nbytes.
       let nbytes = nbytes + 1 in
       with_random 2 ''Can't pick random number'' buf (\<lambda>number s.
         if unat number < 3
         then case mmap (ucast nbytes) s of
                (None, s) \<Rightarrow> Some (-1, map_failed, nx_output ERROR ''mmap: %s'' s)
              | (Some p, s) \<Rightarrow> Some (0, p, set_arg_size child (ucast nbytes) s)
         else Some (-1, buf, nx_output ERROR ''Should not get here'' s))) s"

text \<open>The number of the argument before the current one.\<close>

definition last_arg_of :: "u32 \<Rightarrow> u32" where
  "last_arg_of current = (if current = 0 then 0 else current - 1)"

definition generate_length ::
    "ptr \<Rightarrow> ptr \<Rightarrow> 'z syscall_state_scheme \<Rightarrow> 'z syscall_state_scheme generated" where
  "generate_length child len s =
     do { current \<leftarrow> get_current_arg child s;
          with_alloc 8 ERROR ''Can't alloc length'' (\<lambda>len s.
            do { (rtrn, arg_size, s) \<leftarrow> get_arg_size child (last_arg_of current) 0 s;
                 if rtrn < 0 then Some (-1, len, nx_output ERROR ''Can't get argument size.'' s)
                 else do { s \<leftarrow> store64 len arg_size s; Some (0, len, set_arg_size child 8 s) } }) s }"

definition generate_path ::
    "ptr \<Rightarrow> ptr \<Rightarrow> 'z syscall_state_scheme \<Rightarrow> 'z syscall_state_scheme generated" where
  "generate_path child path s =
     do { (path, s) \<leftarrow> get_filepath s;
          if path = NULL then Some (-1, path, nx_output ERROR ''Can't get file path'' s)
          else do { t \<leftarrow> block_text path s;
                    Some (0, path, set_arg_size child (word_of_nat (length t)) s) } }"

definition generate_dirpath ::
    "ptr \<Rightarrow> ptr \<Rightarrow> 'z syscall_state_scheme \<Rightarrow> 'z syscall_state_scheme generated" where
  "generate_dirpath child dirpath s =
     do { (dirpath, s) \<leftarrow> get_dirpath s;
          if dirpath = NULL then Some (-1, dirpath, nx_output ERROR ''Can't get directory path'' s)
          else do { t \<leftarrow> block_text dirpath s;
                    Some (0, dirpath, set_arg_size child (word_of_nat (length t)) s) } }"

definition generate_mountpath ::
    "ptr \<Rightarrow> ptr \<Rightarrow> 'z syscall_state_scheme \<Rightarrow> 'z syscall_state_scheme generated" where
  "generate_mountpath child path s = Some (0, path, s)"

definition generate_mount_type ::
    "ptr \<Rightarrow> ptr \<Rightarrow> 'z syscall_state_scheme \<Rightarrow> 'z syscall_state_scheme generated" where
  "generate_mount_type child type s = Some (0, type, s)"

section \<open>Flags and modes\<close>

text \<open>Octal digits: a constant such as \<^verbatim>\<open>070\<close> is octal, one such as \<^verbatim>\<open>700\<close> is not.\<close>

definition generate_open_flag ::
    "ptr \<Rightarrow> ptr \<Rightarrow> 'z syscall_state_scheme \<Rightarrow> 'z syscall_state_scheme generated" where
  "generate_open_flag child flag s =
     with_random 7 ''Can't generate random number'' flag (\<lambda>number.
       with_alloc 12 ERROR ''Can't alloc flag'' (\<lambda>flag s.
         finish child 8 (or_case [0, 1, 2, 2048, 1024, 64, 512, 128]
           ''Should not get here'' flag number s))) s"

definition generate_mode ::
    "ptr \<Rightarrow> ptr \<Rightarrow> 'z syscall_state_scheme \<Rightarrow> 'z syscall_state_scheme generated" where
  "generate_mode child mode s =
     with_random 20 ''Can't generate random number'' mode (\<lambda>number.
       with_alloc 12 ERROR ''Can't alloc mode'' (\<lambda>mode s.
         finish child 8 (store_case [1, 2, 3, 4, 5, 6, 7, 8, 16, 24, 32, 40, 48, 56, 100, 200, 300, 400, 500, 600, 700]
           ''Can't get mode'' mode number s))) s"

definition generate_fs_stat_flag ::
    "ptr \<Rightarrow> ptr \<Rightarrow> 'z syscall_state_scheme \<Rightarrow> 'z syscall_state_scheme generated" where
  "generate_fs_stat_flag child flag s =
     with_alloc 12 ERROR ''Can't alloc flag'' (\<lambda>flag.
       with_random 1 ''Can't generate random number'' flag (\<lambda>number s.
         finish child 8 (store_case [2, 1]
           ''Can't pick stat flag'' flag number s))) s"

definition generate_wait_option ::
    "ptr \<Rightarrow> ptr \<Rightarrow> 'z syscall_state_scheme \<Rightarrow> 'z syscall_state_scheme generated" where
  "generate_wait_option child option s =
     with_alloc 8 ERROR ''Can't alloc option'' (\<lambda>option.
       with_random 1 ''Can't generate random number'' option (\<lambda>number s.
         finish child 8 (store_case [2, 1]
           ''Should not get here'' option number s))) s"

definition generate_whence ::
    "ptr \<Rightarrow> ptr \<Rightarrow> 'z syscall_state_scheme \<Rightarrow> 'z syscall_state_scheme generated" where
  "generate_whence child whence s =
     with_alloc 8 ERROR ''mem_alloc'' (\<lambda>whence.
       with_random 2 ''Can't generate random number'' whence (\<lambda>number s.
         finish child 8 (store_case [0, 1, 2]
           ''Should not get here'' whence number s))) s"

definition generate_recv_flags ::
    "ptr \<Rightarrow> ptr \<Rightarrow> 'z syscall_state_scheme \<Rightarrow> 'z syscall_state_scheme generated" where
  "generate_recv_flags child flag s =
     with_alloc 4 ERROR ''Can't alloc mount flags'' (\<lambda>flag.
       with_random 2 ''Can't generate random number'' flag (\<lambda>number s.
         finish child 4 (store_case [1, 2, 256]
           ''Should not get here'' flag number s))) s"

definition generate_chflags ::
    "ptr \<Rightarrow> ptr \<Rightarrow> 'z syscall_state_scheme \<Rightarrow> 'z syscall_state_scheme generated" where
  "generate_chflags child flag s =
     with_alloc 4 ERROR ''Can't allocate flag'' (\<lambda>flag.
       with_random 7 ''Can't pick random number'' flag (\<lambda>number s.
         finish child 4 (or_case [1, 2, 4, 8, 32768, 65536, 131072, 262144]
           ''Random number is too high'' flag number s))) s"

text \<open>The first three cases or the constant into what is there, the others assign.\<close>

definition generate_amode ::
    "ptr \<Rightarrow> ptr \<Rightarrow> 'z syscall_state_scheme \<Rightarrow> 'z syscall_state_scheme generated" where
  "generate_amode child amode s =
     with_alloc 4 ERROR ''Can't allocate amode'' (\<lambda>amode.
       with_random 6 ''Can't pick random number'' amode (\<lambda>number s.
         finish child 4
           (if unat number < 3 then or_case [4, 2, 1] '''' amode number s
            else store_case [0, 0, 0, 6, 5, 3, 6] ''Random number is too high'' amode number s))) s"

definition generate_send_flags ::
    "ptr \<Rightarrow> ptr \<Rightarrow> 'z syscall_state_scheme \<Rightarrow> 'z syscall_state_scheme generated" where
  "generate_send_flags child flag s =
     with_alloc 8 ERROR ''Can't allocate send flags'' (\<lambda>flag.
       with_random 2 ''Can't pick random number'' flag (\<lambda>number s.
         finish child 8
           (if unat number < 2 then or_case [1, 4] '''' flag number s
            else store_case [0, 0, 1 OR 4] ''Random number is too high'' flag number s))) s"

text \<open>An index of the array of flags outside its seven elements is undefined; the array of requests has
  eight.\<close>

definition MNT_FLAGS :: "u64 list" where
  "MNT_FLAGS = [1, 4, 8, 16, 32, 2, 128]"

definition PT_REQUESTS :: "u64 list" where
  "PT_REQUESTS = [0, 31, 7, 9, 8, 10, 14, 11]"

definition copy_element ::
    "u64 list \<Rightarrow> ptr \<Rightarrow> u32 \<Rightarrow> 'z os_scheme \<Rightarrow> 'z os_scheme generated" where
  "copy_element vals p number s =
     (if unat number < length vals
      then do { s \<leftarrow> store_bytes p 0 (le_bytes 4 (vals ! unat number)) s; Some (0, p, s) }
      else None)"

definition generate_mount_flags ::
    "ptr \<Rightarrow> ptr \<Rightarrow> 'z syscall_state_scheme \<Rightarrow> 'z syscall_state_scheme generated" where
  "generate_mount_flags child flag s =
     with_alloc 4 ERROR ''Can't alloc mount flags'' (\<lambda>flag.
       with_random 7 ''Can't generate random number'' flag (\<lambda>number s.
         finish child 4 (copy_element MNT_FLAGS flag number s))) s"

definition generate_unmount_flags ::
    "ptr \<Rightarrow> ptr \<Rightarrow> 'z syscall_state_scheme \<Rightarrow> 'z syscall_state_scheme generated" where
  "generate_unmount_flags child flag s =
     with_alloc 8 ERROR ''Can't alloc mount flags'' (\<lambda>flag.
       with_random 7 ''Can't generate random number'' flag (\<lambda>number s.
         finish child 4 (copy_element MNT_FLAGS flag number s))) s"

definition generate_request ::
    "ptr \<Rightarrow> ptr \<Rightarrow> 'z syscall_state_scheme \<Rightarrow> 'z syscall_state_scheme generated" where
  "generate_request child flag s =
     with_alloc 4 ERROR ''Can't alloc mount flags'' (\<lambda>flag.
       with_random 7 ''Can't generate random number'' flag (\<lambda>number s.
         finish child 4 (copy_element PT_REQUESTS flag number s))) s"

section \<open>Numbers and structures\<close>

definition INT_MAX :: u32 where
  "INT_MAX = 2147483647"

text \<open>The sizes of the structures on 64-bit Linux: \<open>statfs\<close>, \<open>rusage\<close>, \<open>msghdr\<close>, \<open>sockaddr_in\<close>.\<close>

definition generate_fs_stat ::
    "ptr \<Rightarrow> ptr \<Rightarrow> 'z syscall_state_scheme \<Rightarrow> 'z syscall_state_scheme generated" where
  "generate_fs_stat child stat s =
     (let (stat_buf, s) = mem_alloc 120 s in
      if stat_buf = NULL then Some (-1, stat, nx_output ERROR ''Can't alloc stat'' s)
      else Some (0, stat_buf, set_arg_size child 120 s))"

definition generate_rusage ::
    "ptr \<Rightarrow> ptr \<Rightarrow> 'z syscall_state_scheme \<Rightarrow> 'z syscall_state_scheme generated" where
  "generate_rusage child usage s =
     (let (buf, s) = mem_alloc 144 s in
      if buf = NULL then Some (-1, usage, nx_output ERROR ''Can't alloc rusage'' s)
      else Some (0, buf, set_arg_size child 144 s))"

definition generate_pid ::
    "ptr \<Rightarrow> ptr \<Rightarrow> 'z syscall_state_scheme \<Rightarrow> 'z syscall_state_scheme generated" where
  "generate_pid child pid s =
     with_alloc 8 STD ''Can't alloc pid'' (\<lambda>pid s.
       let (me, s) = ext ''getpid'' [] s in
       do { s \<leftarrow> store64 pid (word_of_int me) s; Some (0, pid, set_arg_size child 8 s) }) s"

definition generate_int ::
    "ptr \<Rightarrow> ptr \<Rightarrow> 'z syscall_state_scheme \<Rightarrow> 'z syscall_state_scheme generated" where
  "generate_int child integer s =
     with_alloc 8 ERROR ''Can't alloc int'' (\<lambda>integer.
       with_random INT_MAX ''Can't pick random int'' integer (\<lambda>number s.
         do { s \<leftarrow> store64 integer (ucast number) s; Some (0, integer, set_arg_size child 8 s) })) s"

text \<open>The number is drawn into the low half of the element; the high half stays as \<open>malloc\<close> left it.\<close>

definition generate_offset ::
    "ptr \<Rightarrow> ptr \<Rightarrow> 'z syscall_state_scheme \<Rightarrow> 'z syscall_state_scheme generated" where
  "generate_offset child offset s =
     with_alloc 8 ERROR ''mem_alloc'' (\<lambda>offset.
       with_random INT_MAX ''Can't generate random number'' offset (\<lambda>number s.
         do { s \<leftarrow> store_bytes offset 0 (le_bytes 4 (ucast number)) s;
              Some (0, offset, set_arg_size child 8 s) })) s"

text \<open>\<open>makedev(10, 2)\<close>\<close>

definition generate_dev ::
    "ptr \<Rightarrow> ptr \<Rightarrow> 'z syscall_state_scheme \<Rightarrow> 'z syscall_state_scheme generated" where
  "generate_dev child dev s =
     with_alloc 8 ERROR ''Can't alloc dev'' (\<lambda>dev s.
       do { s \<leftarrow> store64 dev 2562 s; Some (0, dev, set_arg_size child 8 s) }) s"

text \<open>The message points to a local variable of the function, whose address is what the environment
  says; it is dead when the function returns. The length of the data is the length of the string there.\<close>

definition msghdr_bytes :: "u64 \<Rightarrow> u8 list" where
  "msghdr_bytes iov = replicate 16 0 @ le_bytes 8 iov @ le_bytes 8 1 @ replicate 24 0"

definition generate_message ::
    "ptr \<Rightarrow> ptr \<Rightarrow> 'z syscall_state_scheme \<Rightarrow> 'z syscall_state_scheme generated" where
  "generate_message child msg s =
     with_alloc 56 ERROR ''Can't alloc message header'' (\<lambda>msg s.
       let (data, s) = mem_alloc 64 s in
       if data = NULL then Some (-1, msg, nx_output ERROR ''Can't allocate data'' s)
       else do {
         (rtrn, s) \<leftarrow> rand_bytes data 63 s;
         if rtrn < 0 then Some (-1, msg, nx_output ERROR ''Can't get random data'' s)
         else do {
           len \<leftarrow> cstr data s;
           let (iov, s) = ext ''address of iov'' [] s;
           s \<leftarrow> store_bytes msg 0 (msghdr_bytes (word_of_int iov)) s;
           Some (0, msg, set_arg_size child 56 s) } }) s"

text \<open>The function fills a local \<open>sockaddr_in\<close> and then copies its 16 bytes from the address of a local
  4-byte variable: a read past the end of that variable.\<close>

definition local_bytes :: "u8 list \<Rightarrow> nat \<Rightarrow> u8 list option" where
  "local_bytes var n = (if n \<le> length var then Some (take n var) else None)"

definition generate_sockaddr ::
    "ptr \<Rightarrow> ptr \<Rightarrow> 'z syscall_state_scheme \<Rightarrow> 'z syscall_state_scheme generated" where
  "generate_sockaddr child addr s =
     with_alloc 16 ERROR ''Can't allocate sockaddr'' (\<lambda>addr s.
       let (_, s) = ext ''inet_pton'' [AF_INET] s in
       do { bs \<leftarrow> local_bytes (le_bytes 4 0) 16;
            s \<leftarrow> store_bytes addr 0 bs s;
            Some (0, addr, set_arg_size child 16 s) }) s"

definition generate_socklen ::
    "ptr \<Rightarrow> ptr \<Rightarrow> 'z syscall_state_scheme \<Rightarrow> 'z syscall_state_scheme generated" where
  "generate_socklen child len s =
     do { current \<leftarrow> get_current_arg child s;
          with_alloc 4 ERROR ''Can't alloc length'' (\<lambda>len s.
            do { (rtrn, arg_size, s) \<leftarrow> get_arg_size child (last_arg_of current) 0 s;
                 if rtrn < 0 then Some (-1, len, nx_output ERROR ''Can't get argument size.'' s)
                 else do { s \<leftarrow> store_bytes len 0 (le_bytes 4 arg_size) s;
                           Some (0, len, set_arg_size child 4 s) } }) s }"

section \<open>Calls through a generator pointer\<close>

fun call_generator ::
    "gen_fun \<Rightarrow> ptr \<Rightarrow> ptr \<Rightarrow> 'z syscall_state_scheme \<Rightarrow> 'z syscall_state_scheme generated" where
  "call_generator Generate_amode = generate_amode"
| "call_generator Generate_buf = generate_buf"
| "call_generator Generate_chflags = generate_chflags"
| "call_generator Generate_dev = generate_dev"
| "call_generator Generate_dirpath = generate_dirpath"
| "call_generator Generate_fd = generate_fd"
| "call_generator Generate_fs_stat = generate_fs_stat"
| "call_generator Generate_fs_stat_flag = generate_fs_stat_flag"
| "call_generator Generate_int = generate_int"
| "call_generator Generate_length = generate_length"
| "call_generator Generate_message = generate_message"
| "call_generator Generate_mode = generate_mode"
| "call_generator Generate_mount_flags = generate_mount_flags"
| "call_generator Generate_mount_type = generate_mount_type"
| "call_generator Generate_mountpath = generate_mountpath"
| "call_generator Generate_offset = generate_offset"
| "call_generator Generate_open_flag = generate_open_flag"
| "call_generator Generate_path = generate_path"
| "call_generator Generate_pid = generate_pid"
| "call_generator Generate_recv_flags = generate_recv_flags"
| "call_generator Generate_request = generate_request"
| "call_generator Generate_rusage = generate_rusage"
| "call_generator Generate_send_flags = generate_send_flags"
| "call_generator Generate_sockaddr = generate_sockaddr"
| "call_generator Generate_socket = generate_socket"
| "call_generator Generate_socklen = generate_socklen"
| "call_generator Generate_unmount_flags = generate_unmount_flags"
| "call_generator Generate_wait_option = generate_wait_option"
| "call_generator Generate_whence = generate_whence"

end
