(* ===== verification/Gen_Frame.thy ===== *)
theory Gen_Frame
  imports Generate
begin

text \<open>
  No generator touches the static variables of \<^verbatim>\<open>syscall.c\<close> or a child context. \<open>sysfix\<close> collects that
  part of the state; there is one frame lemma for each function the generators reach, and at the end
  one for all generators.
\<close>

definition sysfix where
  "sysfix s = (static_table s, sys_table s, table_set s, total_children s, children s, child_at s,
     global_state s, running_children s, test_counter s, stop_ptr s, run_mode s, answer s)"

lemma sysfix_simps [simp]:
  "sysfix (s\<lparr>asked := a\<rparr>) = sysfix s" "sysfix (s\<lparr>fresh := b\<rparr>) = sysfix s" "sysfix (s\<lparr>heap := c\<rparr>) = sysfix s"
  "sysfix (s\<lparr>regions := d\<rparr>) = sysfix s" "sysfix (s\<lparr>bytes := e\<rparr>) = sysfix s" "sysfix (s\<lparr>console := f\<rparr>) = sysfix s"
  "sysfix (s\<lparr>trace := g\<rparr>) = sysfix s" "sysfix (s\<lparr>nexts := h\<rparr>) = sysfix s" "sysfix (s\<lparr>pools := i\<rparr>) = sysfix s"
  "sysfix (s\<lparr>files := j\<rparr>) = sysfix s" "sysfix (s\<lparr>dirs := k\<rparr>) = sysfix s" "sysfix (s\<lparr>fds := l\<rparr>) = sysfix s"
  by (simp_all add: sysfix_def)

lemma sysfix_print [simp]:
  "sysfix (printf m s) = sysfix s" "sysfix (console_output t m s) = sysfix s" "sysfix (nx_output t m s) = sysfix s"
  by (simp_all add: printing_defs split: out_type.split)

lemma sysfix_set_arg_size [simp]: "sysfix (set_arg_size c n s) = sysfix s"
  by (simp add: set_arg_size_def)

named_theorems sysfix_intros \<open>frame facts: the call leaves the state of the system call module alone\<close>

lemma sysfix_base [sysfix_intros]:
  "malloc n s = (p, s') \<Longrightarrow> sysfix s' = sysfix s"
  "mmap n s = (q, s') \<Longrightarrow> sysfix s' = sysfix s"
  "ext f a s = (r, s') \<Longrightarrow> sysfix s' = sysfix s"
  "ext2 f a s = (rr, s') \<Longrightarrow> sysfix s' = sysfix s"
  "store_bytes p off bs s = Some s' \<Longrightarrow> sysfix s' = sysfix s"
  "free p s = Some s' \<Longrightarrow> sysfix s' = sysfix s"
  by (auto simp: malloc_def mmap_def ext_eq ext2_def store_bytes_def free_def split: if_splits)

lemma sysfix_mem [sysfix_intros]:
  "mem_alloc n s = (p, s') \<Longrightarrow> sysfix s' = sysfix s"
  "default_mem_alloc n s = (p, s') \<Longrightarrow> sysfix s' = sysfix s"
  "default_mem_free p s = Some (q, s') \<Longrightarrow> sysfix s' = sysfix s"
  "store64 p w s = Some s' \<Longrightarrow> sysfix s' = sysfix s"
  "store_int p v s = Some s' \<Longrightarrow> sysfix s' = sysfix s"
  by (auto simp: mem_alloc_def default_mem_alloc_def default_mem_free_def store64_def store_int_def
      dest: sysfix_base split: if_splits prod.splits elim!: bind_SomeE)

lemma sysfix_objects [sysfix_intros]:
  "get_console_writter s = (p, s') \<Longrightarrow> sysfix s' = sysfix s"
  "get_default_allocator s = (p, s') \<Longrightarrow> sysfix s' = sysfix s"
  "get_default_random_generator s = (p, s') \<Longrightarrow> sysfix s' = sysfix s"
  by (auto simp: get_console_writter_def get_default_allocator_def get_default_random_generator_def
      dest: sysfix_base sysfix_mem split: if_splits prod.splits)

lemma sysfix_default_rand [sysfix_intros]:
  assumes "default_rand_range n old s = (r, m, s')"
  shows "sysfix s' = sysfix s"
  using assms by (auto simp: default_rand_range_def Let_def dest!: sysfix_base split: if_splits prod.splits)

lemma sysfix_rand_crypto [sysfix_intros]:
  assumes "rand_range_crypto n old s = (r, m, s')"
  shows "sysfix s' = sysfix s"
  using assms by (auto simp: rand_range_crypto_def Let_def dest!: sysfix_base split: if_splits prod.splits)

lemma sysfix_rand_range [sysfix_intros]:
  assumes "rand_range n old s = Some (r, m, s')"
  shows "sysfix s' = sysfix s"
  using assms by (auto simp: rand_range_def rand_range_no_crypto_def dest: sysfix_base sysfix_rand_crypto
      split: if_splits option.splits rand_fun.splits prod.splits)

lemma sysfix_rand_bytes [sysfix_intros]:
  assumes "rand_bytes p n s = Some (r, s')"
  shows "sysfix s' = sysfix s"
  using assms by (auto simp: rand_bytes_def ext_fill_def Let_def dest!: sysfix_base
      split: if_splits prod.splits elim!: bind_SomeE)

lemma sysfix_connect [sysfix_intros]:
  "connect_ipv4 s = (r, fd, s') \<Longrightarrow> sysfix s' = sysfix s"
  "connect_ipv6 s = (r, fd, s') \<Longrightarrow> sysfix s' = sysfix s"
  by (auto simp: connect_ipv4_def connect_ipv6_def dest!: sysfix_base split: if_splits prod.splits)

lemma sysfix_asprintf [sysfix_intros]: "asprintf t s = (r, u, s') \<Longrightarrow> sysfix s' = sysfix s"
  by (auto simp: asprintf_def split: if_splits)

lemma sysfix_place [sysfix_intros]: "place_string t s = (p, s') \<Longrightarrow> sysfix s' = sysfix s"
  by (auto simp: place_string_def)

lemma sysfix_random_file [sysfix_intros]:
  assumes "create_random_file root e path z default_generator s = Some (r, path', z', s')"
  shows "sysfix s' = sysfix s"
  using assms by (auto simp: create_random_file_def default_generator_def Let_def dest!: sysfix_intros
      split: if_splits prod.splits)

lemma sysfix_random_directory [sysfix_intros]:
  assumes "create_random_directory root path s = Some (r, path', s')"
  shows "sysfix s' = sysfix s"
  using assms by (auto simp: create_random_directory_def Let_def dest!: sysfix_intros
      split: if_splits prod.splits elim!: bind_SomeE)

lemma sysfix_pool_steps [sysfix_intros]:
  "spinlock_lock pool s = Some s' \<Longrightarrow> sysfix s' = sysfix s"
  "spinlock_unlock pool s = Some s' \<Longrightarrow> sysfix s' = sysfix s"
  "free_list_remove pool b s = Some s' \<Longrightarrow> sysfix s' = sysfix s"
  "allocated_list_insert_head pool b s = Some s' \<Longrightarrow> sysfix s' = sysfix s"
  by (auto simp: spinlock_lock_def spinlock_unlock_def free_list_remove_def allocated_list_insert_head_def
      split: if_splits elim!: bind_SomeE)

lemma sysfix_get_block [sysfix_intros]:
  assumes "mem_get_shared_block pool s = Some (b, s')"
  shows "sysfix s' = sysfix s"
proof -
  have "sysfix (snd r) = sysfix s" if "mem_get_shared_block pool s = Some r" for r
    by (rule mem_get_shared_block.raw_induct [OF _ that])
      (auto simp: Let_def dest!: sysfix_pool_steps split: if_splits elim!: bind_SomeE)
  from this [OF assms] show ?thesis by simp
qed

lemma sysfix_getters [sysfix_intros]:
  "get_desc_cached s = Some (fd, s') \<Longrightarrow> sysfix s' = sysfix s"
  "get_socket_cached s = Some (fd, s') \<Longrightarrow> sysfix s' = sysfix s"
  "get_filepath_cached s = Some (p, s') \<Longrightarrow> sysfix s' = sysfix s"
  "get_dirpath_cached s = Some (p, s') \<Longrightarrow> sysfix s' = sysfix s"
  by (auto simp: get_desc_cached_def get_socket_cached_def get_filepath_cached_def get_dirpath_cached_def
      dest!: sysfix_get_block split: if_splits elim!: bind_SomeE)

lemma sysfix_open_rd [sysfix_intros]: "open_rd t s = (fd, s') \<Longrightarrow> sysfix s' = sysfix s"
  by (auto simp: open_rd_def dest!: sysfix_base split: if_splits prod.splits)

lemma sysfix_desc_nocached [sysfix_intros]:
  assumes "get_desc_nocached s = Some (fd, s')"
  shows "sysfix s' = sysfix s"
  using assms by (auto simp: get_desc_nocached_def dest!: sysfix_random_file sysfix_objects sysfix_open_rd
      split: if_splits prod.splits elim!: bind_SomeE)

lemma sysfix_filepath_nocached [sysfix_intros]:
  assumes "get_filepath_nocached s = Some (p, s')"
  shows "sysfix s' = sysfix s"
  using assms by (auto simp: get_filepath_nocached_def dest!: sysfix_random_file sysfix_objects sysfix_place
      split: if_splits prod.splits elim!: bind_SomeE)

lemma sysfix_dirpath_nocached [sysfix_intros]:
  assumes "get_dirpath_nocached s = Some (p, s')"
  shows "sysfix s' = sysfix s"
  using assms by (auto simp: get_dirpath_nocached_def dest!: sysfix_random_directory sysfix_objects sysfix_place
      split: if_splits prod.splits elim!: bind_SomeE)

lemma sysfix_socket_nocached [sysfix_intros]:
  assumes "get_socket_nocached s = Some (fd, s')"
  shows "sysfix s' = sysfix s"
  using assms by (auto simp: get_socket_nocached_def dest!: sysfix_default_rand sysfix_objects sysfix_connect
      split: if_splits prod.splits)

lemma sysfix_get [sysfix_intros]:
  "get_desc s = Some (fd, s') \<Longrightarrow> sysfix s' = sysfix s"
  "get_socket s = Some (fd, s') \<Longrightarrow> sysfix s' = sysfix s"
  "get_filepath s = Some (p, s') \<Longrightarrow> sysfix s' = sysfix s"
  "get_dirpath s = Some (p, s') \<Longrightarrow> sysfix s' = sysfix s"
  by (auto simp: get_desc_def get_socket_def get_filepath_def get_dirpath_def
      dest: sysfix_getters sysfix_desc_nocached sysfix_filepath_nocached sysfix_dirpath_nocached
        sysfix_socket_nocached
      split: if_splits option.splits rsrc_gen_type.splits)

section \<open>The prologues and epilogues\<close>

lemma sysfix_with_alloc:
  assumes "with_alloc n k m f s = Some (r, p, s')"
    and "\<And>q t. f q t = Some (r, p, s') \<Longrightarrow> sysfix s' = sysfix t"
  shows "sysfix s' = sysfix s"
  using assms by (auto simp: with_alloc_def dest!: sysfix_mem split: if_splits prod.splits)

lemma sysfix_with_random:
  assumes "with_random n m a f s = Some (r, p, s')"
    and "\<And>k t. f k t = Some (r, p, s') \<Longrightarrow> sysfix s' = sysfix t"
  shows "sysfix s' = sysfix s"
  using assms by (auto simp: with_random_def dest!: sysfix_rand_range split: if_splits elim!: bind_SomeE)

lemma sysfix_cases [sysfix_intros]:
  "store_case vs m p n s = Some (r, q, s') \<Longrightarrow> sysfix s' = sysfix s"
  "or_case vs m p n s = Some (r, q, s') \<Longrightarrow> sysfix s' = sysfix s"
  "copy_element vs p n s = Some (r, q, s') \<Longrightarrow> sysfix s' = sysfix s"
  by (auto simp: store_case_def or_case_def copy_element_def dest: sysfix_mem sysfix_base
      split: if_splits elim!: bind_SomeE)

lemma sysfix_finish:
  assumes "finish c n x = Some (r, p, s')"
    and "\<And>r q t. x = Some (r, q, t) \<Longrightarrow> sysfix t = z"
  shows "sysfix s' = z"
  using assms by (auto simp: finish_def split: if_splits elim!: bind_SomeE)

lemma get_arg_size_state: "get_arg_size c n z s = Some (r, m, s') \<Longrightarrow> sysfix s' = sysfix s"
  by (auto simp: get_arg_size_def split: if_splits elim!: bind_SomeE)

lemmas sysfix_rules = sysfix_with_alloc sysfix_with_random sysfix_finish

section \<open>The generators\<close>

lemma sysfix_flag_generators [sysfix_intros]:
  "generate_open_flag c a s = Some (r, p, s') \<Longrightarrow> sysfix s' = sysfix s"
  "generate_mode c a s = Some (r, p, s') \<Longrightarrow> sysfix s' = sysfix s"
  "generate_fs_stat_flag c a s = Some (r, p, s') \<Longrightarrow> sysfix s' = sysfix s"
  "generate_wait_option c a s = Some (r, p, s') \<Longrightarrow> sysfix s' = sysfix s"
  "generate_whence c a s = Some (r, p, s') \<Longrightarrow> sysfix s' = sysfix s"
  "generate_recv_flags c a s = Some (r, p, s') \<Longrightarrow> sysfix s' = sysfix s"
  "generate_chflags c a s = Some (r, p, s') \<Longrightarrow> sysfix s' = sysfix s"
  "generate_amode c a s = Some (r, p, s') \<Longrightarrow> sysfix s' = sysfix s"
  "generate_send_flags c a s = Some (r, p, s') \<Longrightarrow> sysfix s' = sysfix s"
  "generate_mount_flags c a s = Some (r, p, s') \<Longrightarrow> sysfix s' = sysfix s"
  "generate_unmount_flags c a s = Some (r, p, s') \<Longrightarrow> sysfix s' = sysfix s"
  "generate_request c a s = Some (r, p, s') \<Longrightarrow> sysfix s' = sysfix s"
  unfolding generate_open_flag_def generate_mode_def generate_fs_stat_flag_def generate_wait_option_def
    generate_whence_def generate_recv_flags_def generate_chflags_def generate_amode_def
    generate_send_flags_def generate_mount_flags_def generate_unmount_flags_def generate_request_def
  by ((elim sysfix_rules)+; auto dest: sysfix_cases split: if_splits)+

lemma sysfix_number_generators [sysfix_intros]:
  "generate_pid c a s = Some (r, p, s') \<Longrightarrow> sysfix s' = sysfix s"
  "generate_int c a s = Some (r, p, s') \<Longrightarrow> sysfix s' = sysfix s"
  "generate_offset c a s = Some (r, p, s') \<Longrightarrow> sysfix s' = sysfix s"
  "generate_dev c a s = Some (r, p, s') \<Longrightarrow> sysfix s' = sysfix s"
  "generate_sockaddr c a s = Some (r, p, s') \<Longrightarrow> sysfix s' = sysfix s"
  "generate_message c a s = Some (r, p, s') \<Longrightarrow> sysfix s' = sysfix s"
  "generate_fd c a s = Some (r, p, s') \<Longrightarrow> sysfix s' = sysfix s"
  "generate_socket c a s = Some (r, p, s') \<Longrightarrow> sysfix s' = sysfix s"
  unfolding generate_pid_def generate_int_def generate_offset_def generate_dev_def generate_sockaddr_def
    generate_message_def generate_fd_def generate_socket_def
  by ((elim sysfix_rules)+; auto dest!: sysfix_intros split: if_splits prod.splits elim!: bind_SomeE)+

lemma sysfix_length_generators [sysfix_intros]:
  "generate_length c a s = Some (r, p, s') \<Longrightarrow> sysfix s' = sysfix s"
  "generate_socklen c a s = Some (r, p, s') \<Longrightarrow> sysfix s' = sysfix s"
  unfolding generate_length_def generate_socklen_def
  by (elim bind_SomeE sysfix_with_alloc; auto dest!: get_arg_size_state sysfix_intros split: if_splits elim!: bind_SomeE)+

lemma sysfix_other_generators [sysfix_intros]:
  "generate_path c a s = Some (r, p, s') \<Longrightarrow> sysfix s' = sysfix s"
  "generate_dirpath c a s = Some (r, p, s') \<Longrightarrow> sysfix s' = sysfix s"
  "generate_fs_stat c a s = Some (r, p, s') \<Longrightarrow> sysfix s' = sysfix s"
  "generate_rusage c a s = Some (r, p, s') \<Longrightarrow> sysfix s' = sysfix s"
  by (auto simp: generate_path_def generate_dirpath_def generate_fs_stat_def generate_rusage_def
      dest!: sysfix_get sysfix_mem split: if_splits prod.splits elim!: bind_SomeE)

lemma sysfix_generate_buf [sysfix_intros]:
  assumes "generate_buf c a s = Some (r, p, s')"
  shows "sysfix s' = sysfix s"
  using assms unfolding generate_buf_def Let_def
  by (elim sysfix_with_random) (auto dest!: sysfix_base split: if_splits prod.splits option.splits)

text \<open>No generator changes a context, the table or the counters of the system call module.\<close>

lemma call_generator_sysfix:
  assumes "call_generator g c a s = Some (r, p, s')"
  shows "sysfix s' = sysfix s"
  using assms by (cases g)
    (auto dest: sysfix_flag_generators sysfix_number_generators sysfix_length_generators
      sysfix_other_generators sysfix_generate_buf simp: generate_mountpath_def generate_mount_type_def)

section \<open>What the generators store\<close>

lemma mem_alloc_block: "mem_alloc n s = (p, t) \<Longrightarrow> p \<noteq> NULL \<Longrightarrow> heap t p = Some n"
  by (auto simp: mem_alloc_def malloc_def printing_defs split: if_splits)

lemma with_allocE:
  assumes "with_alloc n k m f s = Some (r, p, s')"
  obtains "r = - 1" | q t where "heap t q = Some n" and "f q t = Some (r, p, s')"
  using assms by (auto simp: with_alloc_def split: if_splits prod.splits dest: mem_alloc_block)

lemma with_randomE:
  assumes "with_random n m a f s = Some (r, p, s')"
  obtains "r = - 1" | k t where "heap t = heap s" and "f k t = Some (r, p, s')"
  using assms by (auto simp: with_random_def calm_def split: if_splits elim!: bind_SomeE dest!: rand_range_calm)

lemma no_room: "heap s p = Some 4 \<Longrightarrow> \<not> room p 8 s"
  by (simp add: room_def)

lemma short_block_stores:
  assumes "heap s p = Some 4"
  shows "store64 p w s = None" "load64 p s = None"
  using no_room [OF assms] by (simp_all add: store64_def store_bytes_def load64_def le_bytes_def)

lemma short_block_cases:
  assumes "heap s p = Some 4"
  shows "finish c n (store_case vs m p k s) = Some (r, q, s') \<Longrightarrow> r = - 1"
    "finish c n (or_case vs m p k s) = Some (r, q, s') \<Longrightarrow> r = - 1"
  using short_block_stores [OF assms]
  by (auto simp: finish_def store_case_def or_case_def split: if_splits)

lemma short_argument:
  assumes "with_alloc 4 k m (\<lambda>p. with_random n m' p (f p)) s = Some (r, q, s')"
    and "\<And>p num t. heap t p = Some 4 \<Longrightarrow> f p num t = Some (r, q, s') \<Longrightarrow> r = - 1"
  shows "r = - 1"
  using assms(1)
proof (elim with_allocE with_randomE)
  fix p t num u
  assume "heap t p = Some 4" "heap u = heap t" "f p num u = Some (r, q, s')"
  then show "r = - 1" by (intro assms(2) [of u p num]) simp_all
qed

section \<open>Generators that can draw and allocate\<close>

text \<open>The default random source is set up and its library works.\<close>

definition gen_ready :: "'z crypto_scheme \<Rightarrow> bool" where
  "gen_ready s \<longleftrightarrow> crypto_setup s = 1 \<and> rand_range_pointer s = Some Rand_range_crypto \<and> bn_ready s"

lemma gen_ready_cong:
  "answer t = answer s \<Longrightarrow> crypto_setup t = crypto_setup s \<Longrightarrow> rand_range_pointer t = rand_range_pointer s \<Longrightarrow>
     gen_ready t = gen_ready s"
  using bn_ready_cong [of t s] by (simp add: gen_ready_def)

lemma ready_range:
  assumes "gen_ready s"
  obtains m t where "rand_range n old s = Some (0, m, t)" and "m \<le> n" and "calm s t" and "gen_ready t"
    and "grant t = grant s" and "asked t = asked s" and "answer t = answer s"
proof -
  from assms have "bn_ready s" by (simp add: gen_ready_def)
  then obtain m t where run: "default_rand_range n old s = (0, m, t)" "m \<le> n"
    by (rule rs.range_cases [of s n old])
  have rr: "rand_range n old s = Some (0, m, t)"
    using assms run(1) by (simp add: gen_ready_def rand_range_def rand_range_crypto_def default_rand_range_def)
  note frame = default_rand_range_frame [OF run(1)] rand_range_calm [OF rr]
  have "gen_ready t" using assms frame gen_ready_cong [of t s] by (simp add: calm_def)
  with rr run(2) frame that show ?thesis by blast
qed

lemma alloc_then:
  assumes "grant s (asked s)" and "0 < fresh s" and "n \<noteq> 0"
  shows "with_alloc n k msg f s =
     f (fresh s) (s\<lparr>asked := asked s + 1, fresh := fresh s + 1, heap := (heap s)(fresh s \<mapsto> n)\<rparr>)"
  using assms by (simp add: with_alloc_def mem_alloc_def malloc_def)

lemma alloc_draw:
  assumes "gen_ready s" and "grant s (asked s)" and "0 < fresh s" and "n \<noteq> 0"
  obtains m t where "with_alloc n k msg (\<lambda>p. with_random r msg' p (f p)) s = f (fresh s) m t"
    and "m \<le> r" and "heap t (fresh s) = Some n"
proof -
  let ?s = "s\<lparr>asked := asked s + 1, fresh := fresh s + 1, heap := (heap s)(fresh s \<mapsto> n)\<rparr>"
  have "gen_ready ?s" using assms(1) gen_ready_cong [of ?s s] by simp
  then obtain m t where "rand_range r 0 ?s = Some (0, m, t)" "m \<le> r" "calm ?s t"
    by (rule ready_range [of ?s r 0])
  then show ?thesis
    using that alloc_then [OF assms(2,3,4), of k msg "\<lambda>p. with_random r msg' p (f p)"]
    by (simp add: with_random_def calm_def)
qed

lemma draw_alloc:
  assumes "gen_ready s" and "grant s (asked s)" and "0 < fresh s" and "n \<noteq> 0"
  obtains m t where "with_random r msg a (\<lambda>num. with_alloc n k msg' (\<lambda>p. f p num)) s = f (fresh s) m t"
    and "m \<le> r" and "heap t (fresh s) = Some n"
proof -
  from ready_range [OF assms(1), of r 0] obtain m t where
    "rand_range r 0 s = Some (0, m, t)" "m \<le> r" "calm s t" "grant t = grant s" "asked t = asked s" by blast
  then show ?thesis
    using that [of m "t\<lparr>asked := asked t + 1, fresh := fresh t + 1, heap := (heap t)(fresh t \<mapsto> n)\<rparr>"]
      assms(2,3,4) alloc_then [of t n k msg' "\<lambda>p. f p m"]
    by (simp add: with_random_def calm_def)
qed

lemma store_case_total:
  assumes "heap t p = Some n" and "8 \<le> unat n" and "unat num < length vs"
  shows "\<exists>s'. finish c k (store_case vs msg p num t) = Some (0, p, s') \<and> load64 p s' = Some (vs ! unat num)"
proof -
  have "room p 8 t" using assms(1,2) by (simp add: room_def)
  then obtain s' where "store64 p (vs ! unat num) t = Some s'"
    by (auto simp: store64_def store_bytes_def le_bytes_def)
  with load_store64 [OF this] assms(3) show ?thesis by (simp add: finish_def store_case_def set_arg_size_def)
qed

lemma short_case_undefined:
  assumes "heap t p = Some 4" and "unat num < length vs"
  shows "finish c k (store_case vs msg p num t) = None" "finish c k (or_case vs msg p num t) = None"
  using short_block_stores [OF assms(1)] assms(2) by (simp_all add: finish_def store_case_def or_case_def)

lemma wf_os_pos: "wf_os s \<Longrightarrow> 0 < fresh s"
  by (simp add: wf_os_def)

lemma drawn_case:
  assumes "heap t p = Some n" and "8 \<le> unat n" and "unat num < length vs" and "set vs = V"
  shows "\<exists>s' v. finish c k (store_case vs msg p num t) = Some (0, p, s') \<and> load64 p s' = Some v \<and> v \<in> V"
  using store_case_total [OF assms(1,2,3)] nth_mem [OF assms(3)] assms(4) by metis

lemma short_draw_undefined:
  assumes "gen_ready s" and "grant s (asked s)" and "0 < fresh s"
    and "\<And>p m t. heap t p = Some 4 \<Longrightarrow> m \<le> r \<Longrightarrow> f p m t = None"
  shows "with_alloc 4 k msg (\<lambda>p. with_random r msg' p (f p)) s = None"
  by (rule alloc_draw [OF assms(1,2,3), of 4 k msg r msg' f]) (use assms(4) in simp_all)

lemma overflow_undefined:
  assumes "g \<in> {Generate_recv_flags, Generate_amode, Generate_chflags, Generate_sockaddr}"
    and "gen_ready s" and "grant s (asked s)" and "wf_os s"
  shows "call_generator g c a s = None"
proof -
  note ready = assms(2,3) wf_os_pos [OF assms(4)]
  consider "g = Generate_recv_flags" | "g = Generate_amode" | "g = Generate_chflags" | "g = Generate_sockaddr"
    using assms(1) by blast
  then show ?thesis
  proof cases
    case 1
    then show ?thesis 
      by (simp add: generate_recv_flags_def, intro short_draw_undefined [OF ready] short_case_undefined)
        (simp_all add: word_le_nat_alt)
  next
    case 2
    then show ?thesis
      by (simp add: generate_amode_def, intro short_draw_undefined [OF ready])
        (auto simp: word_le_nat_alt intro: short_case_undefined)
  next
    case 3
    then show ?thesis
      by (simp add: generate_chflags_def, intro short_draw_undefined [OF ready] short_case_undefined)
        (simp_all add: word_le_nat_alt)
  next
    case 4
    then show ?thesis using alloc_then [OF ready(2,3)]
      by (simp add: generate_sockaddr_def local_bytes_def le_bytes_def split: prod.split)
  qed
qed

text \<open>C39. The generators of receive flags, access modes, file flags and socket addresses never deliver an
  argument: the first three allocate four bytes and store eight, and the last copies sixteen bytes out of
  a four-byte variable. Where memory and random numbers are to be had, their run is undefined; where they
  return at all, they return the error code.\<close>

theorem overflowing_generators:
  assumes "g \<in> {Generate_recv_flags, Generate_amode, Generate_chflags, Generate_sockaddr}"
  shows "(gen_ready s \<and> grant s (asked s) \<and> wf_os s \<longrightarrow> call_generator g c a s = None) \<and>
     (call_generator g c a s = None \<or> fst (the (call_generator g c a s)) = - 1)"
proof -
  have code: "r = - 1" if run: "call_generator g c a s = Some (r, p, s')" for r p s'
  proof -
    consider "generate_recv_flags c a s = Some (r, p, s')" | "generate_amode c a s = Some (r, p, s')"
      | "generate_chflags c a s = Some (r, p, s')" | "generate_sockaddr c a s = Some (r, p, s')"
      using assms run by auto
    then show ?thesis
    proof cases
      case 1
      then show ?thesis unfolding generate_recv_flags_def
        by (rule short_argument) (rule short_block_cases(1))
    next
      case 2
      then show ?thesis unfolding generate_amode_def
        by (rule short_argument) (auto dest: short_block_cases split: if_splits)
    next
      case 3
      then show ?thesis unfolding generate_chflags_def
        by (rule short_argument) (rule short_block_cases(2))
    next
      case 4
      then show ?thesis unfolding generate_sockaddr_def
        by (elim with_allocE) (auto simp: local_bytes_def le_bytes_def split: prod.splits)
    qed
  qed
  have undefined: "call_generator g c a s = None" if "gen_ready s" "grant s (asked s)" "wf_os s"
    by (rule overflow_undefined [OF assms that])
  show ?thesis using code undefined by (cases "call_generator g c a s") auto
qed

text \<open>Where memory and random numbers are to be had, the generators of modes, wait options, seek
  origins and stat flags succeed, and leave exactly one of the constants of their \<open>switch\<close> in the
  argument. The modes for the owner are the decimal numbers 100 to 700 and not the octal ones: the owner
  bits alone, \<^verbatim>\<open>0700\<close>, are never generated.\<close>

lemma drawn_constants:
  assumes "gen_ready s" and "grant s (asked s)" and "wf_os s"
  shows "(\<exists>s' v. generate_mode c a s = Some (0, fresh s, s') \<and> load64 (fresh s) s' = Some v \<and> v \<noteq> 448 \<and>
         v \<in> {1, 2, 3, 4, 5, 6, 7, 8, 16, 24, 32, 40, 48, 56, 100, 200, 300, 400, 500, 600, 700}) \<and>
     (\<exists>s' v. generate_wait_option c a s = Some (0, fresh s, s') \<and> load64 (fresh s) s' = Some v \<and> v \<in> {1, 2}) \<and>
     (\<exists>s' v. generate_fs_stat_flag c a s = Some (0, fresh s, s') \<and> load64 (fresh s) s' = Some v \<and> v \<in> {1, 2}) \<and>
     (\<exists>s' v. generate_whence c a s = Some (0, fresh s, s') \<and> load64 (fresh s) s' = Some v \<and> v \<in> {0, 1, 2})"
proof (intro conjI)
  note ready = assms(1,2) wf_os_pos [OF assms(3)]
  obtain m t where run: "generate_mode c a s = finish c 8 (store_case
        [1, 2, 3, 4, 5, 6, 7, 8, 16, 24, 32, 40, 48, 56, 100, 200, 300, 400, 500, 600, 700] ''Can't get mode'' (fresh s) m t)"
      "m \<le> 20" "heap t (fresh s) = Some 12"
    unfolding generate_mode_def by (rule draw_alloc [OF ready, of 12]) simp_all
  have "\<exists>s' v. generate_mode c a s = Some (0, fresh s, s') \<and> load64 (fresh s) s' = Some v \<and>
         v \<in> {1, 2, 3, 4, 5, 6, 7, 8, 16, 24, 32, 40, 48, 56, 100, 200, 300, 400, 500, 600, 700}"
    unfolding run(1) by (rule drawn_case [OF run(3)]) (use run(2) in \<open>auto simp: word_le_nat_alt\<close>)
  then show "\<exists>s' v. generate_mode c a s = Some (0, fresh s, s') \<and> load64 (fresh s) s' = Some v \<and> v \<noteq> 448 \<and>
         v \<in> {1, 2, 3, 4, 5, 6, 7, 8, 16, 24, 32, 40, 48, 56, 100, 200, 300, 400, 500, 600, 700}" by auto
next
  note ready = assms(1,2) wf_os_pos [OF assms(3)]
  obtain m t where run: "generate_wait_option c a s = finish c 8 (store_case [2, 1] ''Should not get here'' (fresh s) m t)"
      "m \<le> 1" "heap t (fresh s) = Some 8"
    unfolding generate_wait_option_def by (rule alloc_draw [OF ready, of 8]) simp_all
  show "\<exists>s' v. generate_wait_option c a s = Some (0, fresh s, s') \<and> load64 (fresh s) s' = Some v \<and> v \<in> {1, 2}"
    unfolding run(1) by (rule drawn_case [OF run(3)]) (use run(2) in \<open>auto simp: word_le_nat_alt\<close>)
next
  note ready = assms(1,2) wf_os_pos [OF assms(3)]
  obtain m t where run: "generate_fs_stat_flag c a s = finish c 8 (store_case [2, 1] ''Can't pick stat flag'' (fresh s) m t)"
      "m \<le> 1" "heap t (fresh s) = Some 12"
    unfolding generate_fs_stat_flag_def by (rule alloc_draw [OF ready, of 12]) simp_all
  show "\<exists>s' v. generate_fs_stat_flag c a s = Some (0, fresh s, s') \<and> load64 (fresh s) s' = Some v \<and> v \<in> {1, 2}"
    unfolding run(1) by (rule drawn_case [OF run(3)]) (use run(2) in \<open>auto simp: word_le_nat_alt\<close>)
next
  note ready = assms(1,2) wf_os_pos [OF assms(3)]
  obtain m t where run: "generate_whence c a s = finish c 8 (store_case [0, 1, 2] ''Should not get here'' (fresh s) m t)"
      "m \<le> 2" "heap t (fresh s) = Some 8"
    unfolding generate_whence_def by (rule alloc_draw [OF ready, of 8]) simp_all
  show "\<exists>s' v. generate_whence c a s = Some (0, fresh s, s') \<and> load64 (fresh s) s' = Some v \<and> v \<in> {0, 1, 2}"
    unfolding run(1) by (rule drawn_case [OF run(3)]) (use run(2) in \<open>auto simp: word_le_nat_alt\<close>)
qed

text \<open>A state with one child, whose context is at address 30, and an empty table.\<close>

definition child0 :: child_ctx where
  "child0 = \<lparr>child_pid = 0, syscall_number = 0, child_symbol = '''', current_arg = 0, child_total_args = 0,
     child_syscall_name = '''', arg_value_array = replicate 7 NULL, arg_copy_array = replicate 7 NULL,
     arg_size_array = replicate 7 0, ret_value = 0, had_error = NX_YES, sig_num = 0, did_jump = NX_YES,
     probe_handle = 0, child_need_alarm = NX_YES, child_test = None\<rparr>"

definition syscall0 :: syscall_state where
  "syscall0 = resource.extend
     (resource0\<lparr>grant := (\<lambda>_. True), fresh := 40, answer := bn_answer, crypto_setup := 1,
       rand_range_pointer := Some Rand_range_crypto\<rparr>)
     (syscall_state.fields \<lparr>total_syscalls = 0, sys_entry = []\<rparr> 31 1 1 [30] [30 \<mapsto> child0] 32 0 0 0 0 0)"

lemma syscall0_simps [simp]:
  "grant syscall0 = (\<lambda>_. True)" "fresh syscall0 = 40" "answer syscall0 = bn_answer" "crypto_setup syscall0 = 1"
  "rand_range_pointer syscall0 = Some Rand_range_crypto" "heap syscall0 = Map.empty"
  "regions syscall0 = [10 \<mapsto> 4, 11 \<mapsto> 4, 12 \<mapsto> 4, 13 \<mapsto> 4]" "trace syscall0 = []"
  "static_table syscall0 = \<lparr>total_syscalls = 0, sys_entry = []\<rparr>" "sys_table syscall0 = 31"
  "total_children syscall0 = 1" "children syscall0 = [30]" "child_at syscall0 = [30 \<mapsto> child0]"
  "running_children syscall0 = 0" "run_mode syscall0 = 0" "stop_ptr syscall0 = 0"
  by (simp_all add: syscall0_def resource0_def network0_def utils0_def utils.defs network.defs resource.defs
      syscall_state.defs)

lemma syscall0_ready: "gen_ready syscall0" "wf_os syscall0"
proof -
  have "bn_ready syscall0" using network0_ready bn_ready_cong [of syscall0 network0] by simp
  then show "gen_ready syscall0" "wf_os syscall0" by (auto simp: gen_ready_def wf_os_def split: if_splits)
qed

theorem overflowing_generators_witness: "call_generator Generate_amode 30 0 syscall0 = None"
  using overflowing_generators [of Generate_amode syscall0 30 0] syscall0_ready by simp

end
