(* ===== verification/Signals.thy ===== *)
theory Signals
  imports Gen_Frame
begin

text \<open>
  Model of \<^verbatim>\<open>src/src/syscall/signals.c\<close>. The arguments of \<open>sigaction\<close> in the trace are the signal and the
  handler: 1 is \<open>ctrlc_handler\<close>, 2 \<open>child_exit_handler\<close> and 3 \<open>child_signal_handler\<close>. The pids that
  \<open>waitpid\<close> delivers and the \<open>si_pid\<close> of a signal are the environment's. The numbers are those of Linux.
\<close>

definition SIGINT :: int where "SIGINT = 2"
definition SIGBUS :: int where "SIGBUS = 7"
definition SIGKILL :: int where "SIGKILL = 9"
definition SIGSEGV :: int where "SIGSEGV = 11"
definition SIGALRM :: int where "SIGALRM = 14"
definition SIGCHLD :: int where "SIGCHLD = 17"

definition WNOHANG :: int where "WNOHANG = 1"

definition WIFEXITED :: "int \<Rightarrow> bool" where
  "WIFEXITED st \<longleftrightarrow> st mod 128 = 0"

text \<open>The handler ends when there is no child to wait for, and also at the first one it cannot find.\<close>

partial_function (option) child_exit_handler ::
    "'z syscall_state_scheme \<Rightarrow> 'z syscall_state_scheme option" where
  "child_exit_handler s =
     (let ((pid, st), s) = ext2 ''waitpid'' [-1, WNOHANG] s in
      if 0 < pid
      then if WIFEXITED st
           then do { child \<leftarrow> get_child_ctx_from_pid pid s;
                     if child = NULL then Some s
                     else do { s \<leftarrow> set_child_pid child EMPTY s; child_exit_handler s } }
           else child_exit_handler s
      else Some s)"

definition ctrlc_handler :: "'z os_scheme \<Rightarrow> 'z os_scheme" where
  "ctrlc_handler s = s"

definition setup_ctrlc_handler :: "'z os_scheme \<Rightarrow> int \<times> 'z os_scheme" where
  "setup_ctrlc_handler s =
     (let (rtrn, s) = ext ''sigaction'' [SIGINT, 1] s in
      if rtrn < 0 then (-1, console_output ERROR ''Can't setup SIGINT handler: %s'' s) else (0, s))"

definition setup_signal_handler :: "'z os_scheme \<Rightarrow> int \<times> 'z os_scheme" where
  "setup_signal_handler s =
     (let (rtrn, s) = setup_ctrlc_handler s in
      if rtrn < 0 then (-1, console_output ERROR ''Can't handle SIGINT'' s)
      else
        let (rtrn, s) = ext ''sigaction'' [SIGCHLD, 2] s in
        if rtrn < 0 then (-1, console_output ERROR ''Can't setup SIGCHLD handler: %s'' s) else (0, s))"

text \<open>\<open>longjmp\<close> through a buffer that this process has not filled by \<open>setjmp\<close> is undefined; \<open>me\<close> is the
  context whose buffer it has filled.\<close>

definition jump :: "ptr \<Rightarrow> ptr \<Rightarrow> 'z syscall_state_scheme \<Rightarrow> 'z syscall_state_scheme option" where
  "jump me child s = (if child = me then Some s else None)"

definition child_signal_handler ::
    "ptr \<Rightarrow> int \<Rightarrow> int \<Rightarrow> 'z syscall_state_scheme \<Rightarrow> 'z syscall_state_scheme option" where
  "child_signal_handler me sig si_pid s =
     do { child \<leftarrow> get_child_ctx_from_pid si_pid s;
          s \<leftarrow> (if sig = SIGALRM
                then do { s \<leftarrow> set_had_error child NX_NO s;
                          s \<leftarrow> set_ret_value child 0 s;
                          s \<leftarrow> set_did_jump child NX_YES s;
                          set_sig_num child sig s }
                else do { s \<leftarrow> set_had_error child NX_YES s;
                          s \<leftarrow> set_ret_value child (-1) s;
                          s \<leftarrow> set_did_jump child NX_YES s;
                          set_sig_num child sig s });
          jump me child s }"

definition setup_child_signal_handler :: "'z os_scheme \<Rightarrow> int \<times> 'z os_scheme" where
  "setup_child_signal_handler s =
     (let (rtrn, s) = setup_ctrlc_handler s in
      if rtrn < 0 then (-1, console_output ERROR ''Can't handle SIGINT'' s)
      else
        let (rtrn, s) = ext ''sigaction'' [SIGBUS, 3] s in
        if rtrn < 0 then (-1, console_output ERROR ''Can't setup SIGBUS handler: %s'' s)
        else
          let (rtrn, s) = ext ''sigaction'' [SIGSEGV, 3] s in
          if rtrn < 0 then (-1, console_output ERROR ''Can't setup SIGSEGV handler: %s'' s)
          else
            let (rtrn, s) = ext ''sigaction'' [SIGALRM, 3] s in
            if rtrn < 0 then (-1, console_output ERROR ''Can't setup SIGALRM handler: %s'' s)
            else (0, s))"

section \<open>Which context a signal reaches\<close>

text \<open>The array of children: distinct contexts, none of them null, one for each index.\<close>

definition children_ok :: "'z syscall_state_scheme \<Rightarrow> bool" where
  "children_ok s \<longleftrightarrow> length (children s) = unat (total_children s) \<and> distinct (children s) \<and>
     NULL \<notin> set (children s) \<and> child_at s NULL = None \<and> (\<forall>p \<in> set (children s). child_at s p \<noteq> None)"

definition pid_of :: "'z syscall_state_scheme \<Rightarrow> ptr \<Rightarrow> int" where
  "pid_of s p = (case child_at s p of None \<Rightarrow> EMPTY | Some c \<Rightarrow> child_pid c)"

lemma find_Some_first:
  assumes "find P xs = Some x"
  shows "P x \<and> x \<in> set xs"
  using assms by (auto simp: find_Some_iff)

lemma find_map_conv: "find P (map f xs) = map_option f (find (P \<circ> f) xs)"
  by (induction xs) simp_all

lemmas context_setters = set_had_error_def set_ret_value_def set_did_jump_def set_sig_num_def set_child_pid_def

text \<open>The context of a pid: the first in the array that has it.\<close>

lemma ctx_from_pid:
  assumes "children_ok s"
  shows "get_child_ctx_from_pid pid s =
     Some (case find (\<lambda>p. pid_of s p = pid) (children s) of None \<Rightarrow> NULL | Some p \<Rightarrow> p)"
proof -
  let ?P = "\<lambda>p. pid_of s p = pid"
  let ?Q = "\<lambda>k. child_pid (the (child_at s (children s ! k))) = pid"
  have len: "length (children s) = unat (total_children s)"
    and at: "\<forall>p \<in> set (children s). child_at s p \<noteq> None"
    using assms by (simp_all add: children_ok_def)
  have eq: "find ?Q [0..<length (children s)] = find (\<lambda>k. ?P (children s ! k)) [0..<length (children s)]"
    by (rule find_cong) (use at nth_mem in \<open>fastforce simp: pid_of_def\<close>)+
  have map: "find ?P (map ((!) (children s)) [0..<length (children s)]) =
     map_option ((!) (children s)) (find (?P \<circ> (!) (children s)) [0..<length (children s)])"
    by (rule find_map_conv)
  have lt: "k < 2 ^ 32" if "find ?Q [0..<length (children s)] = Some k" for k
    using find_Some_first [OF that] len unat_u32_less [of "total_children s"] by simp
  show ?thesis
    unfolding get_child_ctx_from_pid_def find_child_spec [OF len at, of pid 0]
    using map eq lt by (auto simp: map_nth comp_def unat_of_nat take_bit_nat_eq_self split: option.splits)
qed

text \<open>C15. A child that gets a signal looks up its context by \<open>si_pid\<close>. The handler sets the four result
  fields of that context and jumps back exactly when the first context with this pid is the child's own
  one; in every other case the behaviour is undefined. For a signal the kernel sends, such as a fault or
  an alarm, \<open>si_pid\<close> is not the pid of the child: with 0 there, the handler takes the first empty slot.\<close>

theorem signal_reaches_own_context:
  assumes "children_ok s" and "me \<in> set (children s)" and "child_at s me = Some c"
  shows "(child_signal_handler me sig si_pid s =
       (if find (\<lambda>p. pid_of s p = si_pid) (children s) = Some me
        then Some (s\<lparr>child_at := (child_at s)(me \<mapsto>
               c\<lparr>had_error := (if sig = SIGALRM then NX_NO else NX_YES),
                 ret_value := (if sig = SIGALRM then 0 else - 1), did_jump := NX_YES, sig_num := sig\<rparr>)\<rparr>)
        else None)) \<and>
     (child_pid c \<noteq> EMPTY \<longrightarrow> child_signal_handler me sig EMPTY s = None)"
proof -
  note ctx = ctx_from_pid [OF assms(1)]
  have null: "child_at s NULL = None" using assms(1) by (simp add: children_ok_def)
  have other: "child_signal_handler me sig si_pid s = None"
    if "find (\<lambda>p. pid_of s p = si_pid) (children s) \<noteq> Some me" for si_pid
  proof (cases "find (\<lambda>p. pid_of s p = si_pid) (children s)")
    case None
    then show ?thesis using null
      by (simp add: child_signal_handler_def ctx set_had_error_def upd_child_def)
  next
    case (Some q)
    then show ?thesis using that
      by (auto simp: child_signal_handler_def ctx jump_def elim!: bind_SomeE)
  qed
  have "child_signal_handler me sig si_pid s =
       (if find (\<lambda>p. pid_of s p = si_pid) (children s) = Some me
        then Some (s\<lparr>child_at := (child_at s)(me \<mapsto>
               c\<lparr>had_error := (if sig = SIGALRM then NX_NO else NX_YES),
                 ret_value := (if sig = SIGALRM then 0 else - 1), did_jump := NX_YES, sig_num := sig\<rparr>)\<rparr>)
        else None)"
  proof (cases "find (\<lambda>p. pid_of s p = si_pid) (children s) = Some me")
    case True
    then show ?thesis using assms(3)
      by (simp add: child_signal_handler_def ctx context_setters upd_child_def jump_def)
  qed (simp add: other)
  moreover have "child_signal_handler me sig EMPTY s = None" if "child_pid c \<noteq> EMPTY"
    by (rule other) (use that assms(3) in \<open>auto simp: pid_of_def dest: find_Some_first\<close>)
  ultimately show ?thesis by blast
qed

theorem signal_reaches_own_context_witness:
  "\<exists>s'. child_signal_handler 30 SIGALRM 7 (syscall0\<lparr>child_at := [30 \<mapsto> child0\<lparr>child_pid := 7\<rparr>]\<rparr>) = Some s' \<and>
     sig_num (the (child_at s' 30)) = SIGALRM"
  using signal_reaches_own_context [of "syscall0\<lparr>child_at := [30 \<mapsto> child0\<lparr>child_pid := 7\<rparr>]\<rparr>" 30
      "child0\<lparr>child_pid := 7\<rparr>" SIGALRM 7]
  by (auto simp: children_ok_def pid_of_def)

end
