(* ===== verification/Log.thy ===== *)
theory Log
  imports Child
begin

text \<open>
  Model of \<^verbatim>\<open>src/src/log/log.c\<close> and of \<open>log_arguments\<close> in \<^verbatim>\<open>src/src/log/log-mac.c\<close>. A character buffer that
  a function allocates for itself is its contents and its size: writing more characters than fit,
  the terminator included, is undefined. The line that is printed is the buffer. The database
  functions are external calls.
\<close>

record log_state = syscall_state +
  log_set :: yes_no
  log_total_syscalls :: u32
  log_db :: int

section \<open>Numbers in text\<close>

fun show_base :: "nat \<Rightarrow> nat \<Rightarrow> string" where
  "show_base b n =
     (if n < b \<or> b \<le> 1 then [char_of (if n < 10 then 48 + n else 87 + n)]
      else show_base b (n div b) @ [char_of (if n mod b < 10 then 48 + n mod b else 87 + n mod b)])"

declare show_base.simps [simp del]

definition show_ptr :: "ptr \<Rightarrow> string" where
  "show_ptr p = ''0x'' @ show_base 16 p"

section \<open>Logging the arguments of a call\<close>

definition sprintf_buf :: "nat \<Rightarrow> string \<Rightarrow> string option" where
  "sprintf_buf cap t = (if length t < cap then Some t else None)"

definition arg_text :: "arg_context \<Rightarrow> ptr \<Rightarrow> 'z os_scheme \<Rightarrow> string option" where
  "arg_text ctx p s =
     (case log_type ctx of
        PATH \<Rightarrow> do { t \<leftarrow> block_text p s; Some ('' '' @ ctx_name ctx @ ''='' @ t) }
      | POINTER \<Rightarrow> Some ('' '' @ ctx_name ctx @ ''='' @ show_ptr p)
      | NUMBER \<Rightarrow> do { w \<leftarrow> load64 p s; Some ('' '' @ ctx_name ctx @ ''='' @ show_base 10 (unat w)) })"

text \<open>The loop from argument \<open>i\<close> on, with the number of rounds left; \<open>buf\<close> is the line so far.\<close>

fun log_args_loop ::
    "nat \<Rightarrow> nat \<Rightarrow> ptr list \<Rightarrow> arg_context option list \<Rightarrow> string \<Rightarrow> 'z os_scheme \<Rightarrow> string option" where
  "log_args_loop 0 i vals ctxs buf s = Some buf"
| "log_args_loop (Suc n) i vals ctxs buf s =
     (if i < length vals \<and> i < length ctxs
      then do { ctx \<leftarrow> ctxs ! i;
                t \<leftarrow> arg_text ctx (vals ! i) s;
                arg_value \<leftarrow> sprintf_buf 1024 t;
                buf \<leftarrow> sprintf_buf 4096 (buf @ arg_value);
                log_args_loop n (i + 1) vals ctxs buf s }
      else None)"

definition log_arguments ::
    "u32 \<Rightarrow> string \<Rightarrow> ptr list \<Rightarrow> arg_context option list \<Rightarrow> 'z os_scheme \<Rightarrow> (int \<times> 'z os_scheme) option" where
  "log_arguments nargs name vals ctxs s =
     (let (arg_value, s) = default_mem_alloc 1024 s in
      if arg_value = NULL then Some (-1, printf ''Can't create arg_value buffer'' s)
      else
        let (log_buf, s) = default_mem_alloc 4096 s in
        if log_buf = NULL
        then do { s \<leftarrow> cleanup_buf arg_value (printf ''Can't create syscall_log_buf buffer'' s); Some (-1, s) }
        else do {
          buf \<leftarrow> sprintf_buf 4096 (name @ '':'');
          line \<leftarrow> log_args_loop (unat nargs) 0 vals ctxs buf s;
          let s = printf line s;
          s \<leftarrow> cleanup_buf log_buf s;
          s \<leftarrow> cleanup_buf arg_value s;
          Some (0, s) })"

section \<open>Logging the result of a call\<close>

text \<open>The escape sequences of \<^verbatim>\<open>colors.h\<close>.\<close>

definition BOLD_RED :: string where "BOLD_RED = CHR 0x1B # ''[1m'' @ CHR 0x1B # ''[31m''"
definition BOLD_GREEN :: string where "BOLD_GREEN = CHR 0x1B # ''[1m'' @ CHR 0x1B # ''[32m''"
definition RESET :: string where "RESET = CHR 0x1B # ''[0m''"

definition show_int :: "int \<Rightarrow> string" where
  "show_int i = (if i < 0 then ''-'' @ show_base 10 (nat (- i)) else show_base 10 (nat i))"

definition log_results ::
    "yes_no \<Rightarrow> int \<Rightarrow> string option \<Rightarrow> 'z os_scheme \<Rightarrow> int \<times> 'z os_scheme" where
  "log_results error ret_val err_value s =
     (case err_value of
        None \<Rightarrow> (-1, printf ''Err value is NULL'' s)
      | Some err \<Rightarrow>
          let (rtrn, out_buf, s) =
            (if error = NX_YES
             then asprintf ('' '' @ BOLD_RED @ ''= '' @ show_int ret_val @ '' ('' @ err @ '') '' @ RESET) s
             else asprintf (BOLD_GREEN @ ''= '' @ show_int ret_val @ '' '' @ RESET) s) in
          if rtrn < 0 then (-1, printf ''Can't create out message'' s)
          else (0, printf (show_name out_buf) s))"

section \<open>The log module\<close>

definition log_file :: "string \<Rightarrow> string \<Rightarrow> int" where
  "log_file path extension = 0"

definition SQLITE_OK :: int where "SQLITE_OK = 0"

definition create_log_file :: "string option \<Rightarrow> 'z log_state_scheme \<Rightarrow> int \<times> 'z log_state_scheme" where
  "create_log_file path s =
     (case path of
        None \<Rightarrow> (-1, s)
      | Some p \<Rightarrow>
          let ((rtrn, handle), s) = ext2 ''sqlite3_open'' [] s; s = s\<lparr>log_db := handle\<rparr> in
          if rtrn \<noteq> SQLITE_OK then (-1, printf ''Can't create database: %s'' s) else (0, s))"

text \<open>\<open>vals\<close> is \<open>None\<close> for the null pointer. The statement that is executed is unfinished.\<close>

definition write_arguments_to_log ::
    "u32 \<Rightarrow> ptr list option \<Rightarrow> u32 \<Rightarrow> 'z log_state_scheme \<Rightarrow> int \<times> 'z log_state_scheme" where
  "write_arguments_to_log nargs vals number s =
     (if ARG_LIMIT < nargs
      then (-1, printf ''Total args is greater than the arg limit for this system'' s)
      else if vals = None then (-1, printf ''Argument value array is NULL'' s)
      else if log_total_syscalls s < number then (-1, printf ''Total arguments '' s)
      else
        let (rtrn, sql, s) = asprintf ''INSERT INTO syscallEntry('' s in
        if rtrn < 0 then (-1, printf ''Can't create sql statement: %s'' s)
        else
          let (rtrn, s) = ext ''sqlite3_exec'' [log_db s] s in
          if rtrn \<noteq> SQLITE_OK then (-1, printf ''Can't insert syscall values into db: %s'' s) else (0, s))"

definition create_out_directory :: "string \<Rightarrow> 'z log_state_scheme \<Rightarrow> int \<times> 'z log_state_scheme" where
  "create_out_directory path s =
     (let (rtrn, s) = ext ''mkdir'' [] s in
      if rtrn < 0 \<or> dirs s path \<noteq> None
      then
        let s = printf ''Can't create out directory'' s in
        if dirs s path \<noteq> None then (-1, printf ''Out directory already exist'' s) else (-1, s)
      else
        let s = s\<lparr>dirs := (dirs s)(path \<mapsto> [])\<rparr>;
            (rtrn, crash_dir, s) = asprintf (path @ ''/crash_dir'') s in
        if rtrn < 0 then (-1, printf ''Can't create crash directory path'' s)
        else
          let (rtrn, s) = ext ''mkdir'' [] s in
          if rtrn < 0 \<or> dirs s (show_name crash_dir) \<noteq> None
          then (-1, printf ''Can't create crash directory'' s)
          else (0, s\<lparr>dirs := (dirs s)(show_name crash_dir \<mapsto> [])\<rparr>))"

definition create_arg_entry_table :: "'z log_state_scheme \<Rightarrow> int \<times> 'z log_state_scheme" where
  "create_arg_entry_table s =
     (let (rtrn, sql, s) = asprintf ''CREATE TABLE IF NOT EXISTS arg_entry(id INT NOT NULL, val BLOB NOT NULL);'' s in
      if rtrn < 0 then (-1, printf ''Can't create SQL statement: %s'' s)
      else
        let (rtrn, s) = ext ''sqlite3_exec'' [log_db s] s in
        if rtrn \<noteq> SQLITE_OK then (-1, printf ''Can't create argument entry table: %s'' s) else (0, s))"

definition create_syscall_entry_table :: "'z log_state_scheme \<Rightarrow> int \<times> 'z log_state_scheme" where
  "create_syscall_entry_table s =
     (let (rtrn, sql, s) =
            asprintf ''CREATE TABLE IF NOT EXISTS syscall_entry(id INT NOT NULL, num INT NOT NULL, name );'' s in
      if rtrn < 0 then (-1, printf ''Can't create SQL statement: %s'' s)
      else
        let (rtrn, s) = ext ''sqlite3_exec'' [log_db s] s in
        if rtrn \<noteq> SQLITE_OK then (-1, printf ''Can't create argument entry table: %s'' s) else (0, s))"

definition setup_tables :: "'z log_state_scheme \<Rightarrow> int \<times> 'z log_state_scheme" where
  "setup_tables s =
     (let (rtrn, s) = create_arg_entry_table s in
      if rtrn < 0 then (-1, printf ''Can't create argument entry table'' s)
      else
        let (rtrn, s) = create_syscall_entry_table s in
        if rtrn < 0 then (-1, printf ''Can't create syscall entry table'' s) else (0, s))"

definition setup_log_module :: "string \<Rightarrow> u32 \<Rightarrow> 'z log_state_scheme \<Rightarrow> int \<times> 'z log_state_scheme" where
  "setup_log_module path syscall_max s =
     (if log_set s \<noteq> NX_NO then (-1, printf ''We have already been setup'' s)
      else
        let (rtrn, s) = create_out_directory path s in
        if rtrn < 0 then (-1, printf ''Can't create output directory'' s)
        else
          let (rtrn, log_path, s) = asprintf (path @ ''/log.nx'') s in
          if rtrn < 0 then (-1, printf ''Can't create log path'' s)
          else
            let (rtrn, s) = create_log_file log_path s in
            if rtrn < 0 then (-1, printf ''Can't create log file'' s)
            else
              let (rtrn, s) = setup_tables s in
              if rtrn < 0 then (-1, printf ''Can't create tables'' s)
              else (0, s\<lparr>log_total_syscalls := syscall_max\<rparr>))"

section \<open>The log line fits its buffers\<close>

lemma length_show_base: "2 \<le> b \<Longrightarrow> n < b ^ Suc k \<Longrightarrow> length (show_base b n) \<le> Suc k"
proof (induction k arbitrary: n)
  case 0
  then show ?case by (simp add: show_base.simps char_of_eq_iff)
next
  case (Suc k)
  then have "n div b < b ^ Suc k" by (simp add: less_mult_imp_div_less mult.commute)
  with Suc show ?case by (subst show_base.simps) auto
qed

lemma context_name_short: "arg_context_of t = Some c \<Longrightarrow> length (ctx_name c) \<le> 12"
  by (cases t) (auto simp: file_desc_ctx_def void_buf_ctx_def size_ctx_def file_path_ctx_def open_flag_ctx_def
    mode_ctx_def stat_fs_ctx_def stat_flag_ctx_def int_ctx_def rusage_ctx_def pid_ctx_def wait_option_ctx_def
    socket_ctx_def whence_ctx_def offset_ctx_def mount_type_ctx_def dir_path_ctx_def mount_flag_ctx_def
    unmount_flag_ctx_def recv_flag_ctx_def request_ctx_def mount_path_ctx_def dev_ctx_def message_ctx_def
    send_flags_ctx_def sockaddr_ctx_def socklen_ctx_def amode_ctx_def chflags_ctx_def)

text \<open>An argument that can be logged: a path of at most 480 characters, an address, or eight readable
  bytes.\<close>

definition loggable :: "arg_type \<Rightarrow> ptr \<Rightarrow> 'z os_scheme \<Rightarrow> bool" where
  "loggable t p s \<longleftrightarrow>
     (case arg_context_of t of
        None \<Rightarrow> False
      | Some c \<Rightarrow> (case log_type c of
                   PATH \<Rightarrow> (case block_text p s of None \<Rightarrow> False | Some x \<Rightarrow> length x \<le> 480)
                 | POINTER \<Rightarrow> p < 2 ^ 64
                 | NUMBER \<Rightarrow> room p 8 s))"

lemma loggable_text:
  assumes "loggable t p s" and "arg_context_of t = Some c"
  shows "\<exists>x. arg_text c p s = Some x \<and> length x \<le> 500"
proof (cases "log_type c")
  case POINTER
  with assms have "p < 16 ^ Suc 15" by (simp add: loggable_def)
  then have "length (show_base 16 p) \<le> 16" using length_show_base [of 16 p 15] by simp
  with POINTER context_name_short [OF assms(2)] show ?thesis by (simp add: arg_text_def show_ptr_def)
next
  case PATH
  with assms context_name_short [OF assms(2)] show ?thesis
    by (auto simp: arg_text_def loggable_def split: option.splits)
next
  case NUMBER
  with assms obtain w where w: "load64 p s = Some w" by (auto simp: loggable_def load64_def)
  have "unat w < 18446744073709551616" using unsigned_less [of w] by simp
  then have "unat w < 10 ^ Suc 19" by simp
  then have "length (show_base 10 (unat w)) \<le> 20" using length_show_base [of 10 "unat w" 19] by simp
  with NUMBER w context_name_short [OF assms(2)] show ?thesis by (simp add: arg_text_def)
qed

lemma log_args_loop_line:
  assumes "\<forall>j. i \<le> j \<and> j < i + n \<longrightarrow> j < length vals \<and> j < length ctxs \<and>
       (\<exists>c. ctxs ! j = Some c \<and> arg_text c (vals ! j) s = Some (t j) \<and> length (t j) \<le> 500)"
    and "length buf + 500 * n < 4096"
  shows "log_args_loop n i vals ctxs buf s = Some (buf @ concat (map t [i..<i + n]))"
  using assms
proof (induction n arbitrary: i buf)
  case (Suc n)
  from Suc.prems(1) [rule_format, of i] obtain c where c: "i < length vals" "i < length ctxs" "ctxs ! i = Some c"
    "arg_text c (vals ! i) s = Some (t i)" "length (t i) \<le> 500" by auto
  have "log_args_loop n (i + 1) vals ctxs (buf @ t i) s = Some ((buf @ t i) @ concat (map t [i + 1..<i + 1 + n]))"
    using Suc.prems c by (intro Suc.IH) auto
  moreover have "[i..<i + Suc n] = i # [i + 1..<i + 1 + n]" by (simp add: upt_conv_Cons)
  ultimately show ?case using c Suc.prems(2) by (simp add: sprintf_buf_def)
qed simp

lemma arg_text_cong:
  assumes "heap s' p = heap s p" and "regions s' p = regions s p" and "bytes s' p = bytes s p"
  shows "arg_text c p s' = arg_text c p s"
proof -
  have "block_text p s' = block_text p s"
    by (cases "heap s p") (simp_all add: block_text_def assms cong: if_cong)
  moreover have "load64 p s' = load64 p s"
    by (cases "heap s p") (simp_all add: load64_def room_def assms)
  ultimately show ?thesis by (cases "log_type c") (simp_all add: arg_text_def)
qed



end
