(* ===== verification/Plugins.thy ===== *)
theory Plugins
  imports Utils
begin

text \<open>
  Model of \<^verbatim>\<open>src/src/plugins/plugin.c\<close>. The array \<open>plugins\<close> of contexts is never allocated in the
  source, so it is the null pointer, and an access to one of its elements is undefined.
\<close>

record plugin_state = utils +
  plugin_count :: u32

definition supported_file :: "string \<Rightarrow> u32 \<Rightarrow> int" where
  "supported_file file_extension plugin_offset = 0"

definition features_supported :: "u32 \<Rightarrow> u32 \<Rightarrow> int \<times> u32" where
  "features_supported offset number_of_features = (0, number_of_features)"

definition feature_constraints :: "u32 \<Rightarrow> int" where
  "feature_constraints offset = 0"

text \<open>\<open>strncmp(a, b, n) == 0\<close>.\<close>

definition strncmp_eq :: "string \<Rightarrow> string \<Rightarrow> nat \<Rightarrow> bool" where
  "strncmp_eq a b n \<longleftrightarrow> take n a = take n b"

definition hidden :: "string \<Rightarrow> bool" where
  "hidden e \<longleftrightarrow> e \<noteq> [] \<and> hd e = CHR ''.''"

text \<open>The walk of \<open>count_plugins\<close>; the directory is closed by the cleanup of \<open>dir\<close>.\<close>

fun count_plugin_entries ::
    "string list \<Rightarrow> string option \<Rightarrow> u32 \<Rightarrow> 'z utils_scheme \<Rightarrow> u32 \<times> 'z utils_scheme" where
  "count_plugin_entries [] file_extension cnt s = (cnt, s)"
| "count_plugin_entries (entry # es) file_extension cnt s =
     (if hidden entry then count_plugin_entries es file_extension cnt s
      else
        let (rtrn, file_extension, s) = get_extension entry file_extension s in
        if rtrn < 0 then count_plugin_entries es file_extension cnt s
        else
          let cnt = (if strncmp_eq (show_name file_extension) ''.so'' 3 then cnt + 1 else cnt) in
          count_plugin_entries es file_extension cnt s)"

definition count_plugins :: "u32 \<Rightarrow> 'z utils_scheme \<Rightarrow> int \<times> u32 \<times> 'z utils_scheme" where
  "count_plugins cnt s =
     (let (dir, s) = ext ''opendir'' [] s in
      case dirs s ''src/plugins'' of
        None \<Rightarrow> (-1, cnt, printf ''Can't open dir: %s'' s)
      | Some es \<Rightarrow>
          if dir = 0 then (-1, cnt, printf ''Can't open dir: %s'' s)
          else let (cnt, s) = count_plugin_entries es None cnt s in
               (0, cnt, snd (ext ''closedir'' [dir] s)))"

text \<open>The walk of \<open>load_all_plugins\<close>: at the first shared object it stores into an element of the
  unallocated array.\<close>

fun load_plugin_entries ::
    "string list \<Rightarrow> string option \<Rightarrow> 'z plugin_state_scheme \<Rightarrow> (int \<times> 'z plugin_state_scheme) option" where
  "load_plugin_entries [] file_extension s = Some (0, s)"
| "load_plugin_entries (entry # es) file_extension s =
     (if hidden entry then load_plugin_entries es file_extension s
      else
        let (rtrn, file_extension, s) = get_extension entry file_extension s in
        if rtrn < 0 then load_plugin_entries es file_extension s
        else if strncmp_eq (show_name file_extension) ''.so'' 3
        then
          let (current_dir, s) = malloc 1024 s in
          if current_dir = NULL then Some (-1, printf ''Can't malloc current_dir buf: %s'' s)
          else
            let (cwd, s) = ext ''getcwd'' [] s in
            if cwd = 0 then Some (-1, printf ''Can't get current directory'' s)
            else
              let (rtrn, plugin_path, s) = asprintf entry s in
              if rtrn < 0 then Some (-1, printf ''Can't create plugin path string: %s'' s)
              else None
        else load_plugin_entries es file_extension s)"

definition load_all_plugins :: "'z plugin_state_scheme \<Rightarrow> (int \<times> 'z plugin_state_scheme) option" where
  "load_all_plugins s =
     (if plugin_count s = 0 then Some (0, printf ''No plugins to load'' s)
      else
        let s = printf ''Loading all plugins'' s;
            (dir, s) = ext ''opendir'' [] s in
        case dirs s ''src/plugins'' of
          None \<Rightarrow> Some (-1, printf ''Can't open dir: %s'' s)
        | Some es \<Rightarrow>
            if dir = 0 then Some (-1, printf ''Can't open dir: %s'' s)
            else do { (rtrn, s) \<leftarrow> load_plugin_entries es None s;
                      Some (rtrn, snd (ext ''closedir'' [dir] s)) })"

definition setup_plugin_module :: "'z plugin_state_scheme \<Rightarrow> (int \<times> 'z plugin_state_scheme) option" where
  "setup_plugin_module s =
     (let (rtrn, cnt, s) = count_plugins (plugin_count s) s;
          s = s\<lparr>plugin_count := cnt\<rparr> in
      if rtrn < 0 then Some (-1, printf ''Can't count plugins'' s)
      else do {
        (rtrn, s) \<leftarrow> load_all_plugins s;
        if rtrn < 0 then Some (-1, printf ''Can't load plugins'' s)
        else Some (0, s) })"

section \<open>Properties\<close>

lemma get_extension_result:
  assumes "get_extension path old s = (0, new, s')"
  shows "\<exists>as bs. path = as @ CHR ''.'' # bs \<and> CHR ''.'' \<notin> set bs \<and> new = Some (bs @ [newline])"
proof -
  from assms have dot: "CHR ''.'' \<in> set path"
    and new: "new = Some (rev (takeWhile (\<lambda>x. x \<noteq> CHR ''.'') (rev path)) @ [newline])"
    by (auto simp: get_extension_def strrchr_def asprintf_def split: if_splits)
  let ?b = "rev (takeWhile (\<lambda>x. x \<noteq> CHR ''.'') (rev path))"
  have "dropWhile (\<lambda>x. x \<noteq> CHR ''.'') (rev path) \<noteq> []" using dot by (simp add: dropWhile_eq_Nil_conv)
  with hd_dropWhile [OF this] obtain cs where
    cs: "dropWhile (\<lambda>x. x \<noteq> CHR ''.'') (rev path) = CHR ''.'' # cs"
    by (cases "dropWhile (\<lambda>x. x \<noteq> CHR ''.'') (rev path)") auto
  have "rev path = rev ?b @ CHR ''.'' # cs"
    using takeWhile_dropWhile_id [of "\<lambda>x. x \<noteq> CHR ''.''" "rev path"] unfolding cs by simp
  then have "rev (rev path) = rev (rev ?b @ CHR ''.'' # cs)" by (rule arg_cong)
  then have "path = rev cs @ CHR ''.'' # ?b" by simp
  moreover have "CHR ''.'' \<notin> set ?b" by (auto dest: set_takeWhileD)
  ultimately show ?thesis using new by blast
qed

lemma get_extension_code: "get_extension path old s = (r, new, s') \<Longrightarrow> r = 0 \<or> r = -1"
  by (auto simp: get_extension_def asprintf_def split: option.splits if_splits)

text \<open>\<open>get_extension\<close> delivers what follows the last dot of the path with a newline appended, so the
  extension never contains a dot, and it fails exactly when the path has no dot or memory runs out.\<close>

lemma get_extension_exact:
  "case get_extension path old s of
     (r, new, s') \<Rightarrow> (r = 0 \<longleftrightarrow> CHR ''.'' \<in> set path \<and> grant s (asked s)) \<and>
       (r = 0 \<longrightarrow> (\<exists>as bs. path = as @ CHR ''.'' # bs \<and> CHR ''.'' \<notin> set bs \<and> new = Some (bs @ [newline])))"
proof -
  obtain r new s' where e: "get_extension path old s = (r, new, s')" by (metis prod_cases3)
  moreover have "r = 0 \<longleftrightarrow> CHR ''.'' \<in> set path \<and> grant s (asked s)"
    using e by (auto simp: get_extension_def strrchr_def asprintf_def split: if_splits)
  moreover have "r = 0 \<longrightarrow> (\<exists>as bs. path = as @ CHR ''.'' # bs \<and> CHR ''.'' \<notin> set bs \<and> new = Some (bs @ [newline]))"
    using e get_extension_result [of path old s new s'] by blast
  ultimately show ?thesis by simp
qed

lemma never_shared_object:
  assumes "get_extension entry old s = (r, new, s')" and "\<not> r < 0"
  shows "\<not> strncmp_eq (show_name new) ''.so'' 3"
proof -
  from get_extension_code [OF assms(1)] assms(2) have "r = 0" by auto
  with get_extension_result assms(1) obtain bs where "CHR ''.'' \<notin> set bs" "new = Some (bs @ [newline])" by blast
  then show ?thesis by (cases bs) (auto simp: strncmp_eq_def show_name_def newline_def)
qed

lemma count_plugin_entries_zero: "fst (count_plugin_entries es fe cnt s) = cnt"
proof (induction es arbitrary: fe s)
  case (Cons e es)
  obtain r new s' where g: "get_extension e fe s = (r, new, s')" by (metis prod_cases3)
  with never_shared_object [OF g] Cons show ?case by simp
qed simp

lemma plugin_count_frames [simp]:
  "plugin_count (printf m s) = plugin_count s" "plugin_count (snd (ext f a s)) = plugin_count s"
  by (simp_all add: printf_def ext_eq)

text \<open>No plugin is ever counted or loaded: whatever the plugin directory holds, the comparison of an
  extension, which has no dot, with \<open>.so\<close> fails, so \<open>setup_plugin_module\<close> leaves the count at zero
  and returns without touching the unallocated plugin array.\<close>

lemma no_plugin_loaded:
  assumes "plugin_count s = 0"
  shows "\<exists>r s'. setup_plugin_module s = Some (r, s') \<and> plugin_count s' = 0 \<and>
     (r = 0 \<longleftrightarrow> dirs s ''src/plugins'' \<noteq> None \<and> fst (answer s (length (trace s)) ''opendir'' []) \<noteq> 0)"
proof -
  obtain r cnt t where c: "count_plugins 0 s = (r, cnt, t)" by (metis prod_cases3)
  have "cnt = 0" "r = 0 \<or> r = -1"
    "r = 0 \<longleftrightarrow> dirs s ''src/plugins'' \<noteq> None \<and> fst (answer s (length (trace s)) ''opendir'' []) \<noteq> 0"
    using c by (auto simp: count_plugins_def ext_eq count_plugin_entries_zero [of _ _ 0, symmetric]
        split: option.splits if_splits prod.splits)
      (metis fst_conv count_plugin_entries_zero)
  with c assms show ?thesis by (auto simp: setup_plugin_module_def load_all_plugins_def Let_def)
qed

definition plugin0 :: plugin_state where
  "plugin0 = (utils.extend utils0 (plugin_state.fields 0))\<lparr>dirs := [''src/plugins'' \<mapsto> [''a.so'', ''b.c'']]\<rparr>"

lemmas plugin0_defs = plugin0_def utils.extend_def plugin_state.fields_def utils0_def

end
