(* ===== verification/Mutate.thy ===== *)
theory Mutate
  imports Plugins Random_Source
begin

text \<open>
  Model of \<^verbatim>\<open>src/src/mutate/mutate.c\<close>. The file under mutation is the mapped buffer, a list of
  bytes; an access outside it is undefined. The random generator is an argument, as it is in the
  code; what the mutators rely on of it is the locale \<open>random_source\<close> of the theory
  \<open>Random_Source\<close>.
\<close>

unbundle bit_operations_syntax

type_synonym 's mutation = "(int \<times> u8 list \<times> 's) option"

definition flip_byte_mutator ::
    "'z os_scheme rangef \<Rightarrow> u8 list \<Rightarrow> u64 \<Rightarrow> 'z os_scheme \<Rightarrow> 'z os_scheme mutation" where
  "flip_byte_mutator rg file file_size s =
     (let (rtrn, offset, s) = rg (ucast file_size) 0 s in
      if rtrn < 0 then Some (-1, file, console_output ERROR ''Can't pick random file offset'' s)
      else if unat offset < length file
      then Some (0, file[unat offset := NOT (file ! unat offset)], s)
      else None)"

text \<open>A shift of an \<open>int\<close> by its width or more is undefined; the result is truncated to a byte.\<close>

definition flip_bit_mutator ::
    "'z os_scheme rangef \<Rightarrow> u8 list \<Rightarrow> u64 \<Rightarrow> 'z os_scheme \<Rightarrow> 'z os_scheme mutation" where
  "flip_bit_mutator rg file file_size s =
     (let (rtrn, offset, s) = rg (ucast file_size) 0 s in
      if rtrn < 0 then Some (-1, file, console_output ERROR ''Can't pick random file offset'' s)
      else
        let (rtrn, b, s) = rg 8 0 s in
        if rtrn < 0 then Some (-1, file, console_output ERROR ''Can't pick random bit to flip'' s)
        else if unat offset < length file \<and> unat b < 32
        then Some (0, file[unat offset := (file ! unat offset) XOR ucast (push_bit (unat b) (1 :: u32))], s)
        else None)"

definition xor_mutator ::
    "'z os_scheme rangef \<Rightarrow> u8 list \<Rightarrow> u64 \<Rightarrow> 'z os_scheme \<Rightarrow> 'z os_scheme mutation" where
  "xor_mutator rg file file_size s = Some (0, file, s)"

definition number_of_mutators :: u32 where
  "number_of_mutators = 3"

definition mutator_array ::
    "('z os_scheme rangef \<Rightarrow> u8 list \<Rightarrow> u64 \<Rightarrow> 'z os_scheme \<Rightarrow> 'z os_scheme mutation) list" where
  "mutator_array = [flip_byte_mutator, flip_bit_mutator, xor_mutator]"

definition mutate_file_randomly ::
    "'z os_scheme rangef \<Rightarrow> u8 list \<Rightarrow> u64 \<Rightarrow> 'z os_scheme \<Rightarrow> 'z os_scheme mutation" where
  "mutate_file_randomly rg file file_size s =
     (let (rtrn, offset, s) = rg (number_of_mutators - 1) 0 s in
      if rtrn < 0 then Some (-1, file, console_output ERROR ''Can't pick random offset'' s)
      else if unat offset < length (mutator_array :: ('z os_scheme rangef \<Rightarrow> _) list)
      then (mutator_array ! unat offset) rg file file_size s
      else None)"

definition mutate_file ::
    "'z os_scheme rangef \<Rightarrow> u8 list \<Rightarrow> string \<Rightarrow> u64 \<Rightarrow> 'z os_scheme \<Rightarrow> 'z os_scheme mutation" where
  "mutate_file rg file file_extension file_size s =
     (if supported_file file_extension 0 = 1
      then
        let (r, number_of_features) = features_supported 0 0;
            (rtrn, number, s) = rg 10 0 s in
        if rtrn < 0 then Some (-1, file, console_output ERROR ''Can't randomly select number'' s)
        else if number = 10
        then do { (rtrn, file, s) \<leftarrow> mutate_file_randomly rg file file_size s;
                  if rtrn < 0 then Some (-1, file, console_output ERROR ''Can't mutate file randomly'' s)
                  else Some (0, file, s) }
        else
          let (rtrn, feature, s) = rg number_of_features 0 s in
          if rtrn < 0
          then Some (-1, file, console_output ERROR ''Can't randomly select feature to test'' s)
          else if feature_constraints 0 < 0
          then Some (-1, file, console_output ERROR ''Can't get feature constraints'' s)
          else Some (0, file, s)
      else do { (rtrn, file, s) \<leftarrow> mutate_file_randomly rg file file_size s;
                if rtrn < 0 then Some (-1, file, console_output ERROR ''Can't mutate file randomly'' s)
                else Some (0, file, s) })"

definition mutate_arguments :: int where
  "mutate_arguments = 0"

section \<open>One mutation changes at most one byte\<close>

text \<open>The files that differ in at most one byte.\<close>

definition near :: "u8 list \<Rightarrow> u8 list \<Rightarrow> bool" where
  "near f g \<longleftrightarrow> f = g \<or> (\<exists>i < length f. \<exists>b. g = f[i := b])"

lemma near_refl [simp]: "near f f"
  by (simp add: near_def)

lemma near_upd: "i < length f \<Longrightarrow> near f (f[i := b])"
  by (auto simp: near_def)

lemma flip_byte_near: "flip_byte_mutator rg f n s = Some (r, g, s') \<Longrightarrow> near f g \<and> (r = 0 \<or> r = -1)"
  by (auto simp: flip_byte_mutator_def near_upd split: prod.splits if_splits)

lemma flip_bit_near: "flip_bit_mutator rg f n s = Some (r, g, s') \<Longrightarrow> near f g \<and> (r = 0 \<or> r = -1)"
  by (auto simp: flip_bit_mutator_def near_upd split: prod.splits if_splits)

lemma mutate_file_randomly_near:
  assumes "mutate_file_randomly rg f n s = Some (r, g, s')"
  shows "near f g \<and> (r = 0 \<or> r = -1)"
proof -
  obtain rtrn off t where o: "rg (number_of_mutators - 1) 0 s = (rtrn, off, t)" by (metis prod_cases3)
  consider "rtrn < 0" | "unat off = 0" "\<not> rtrn < 0" | "unat off = 1" "\<not> rtrn < 0" | "unat off = 2" "\<not> rtrn < 0"
    | "unat off > 2" "\<not> rtrn < 0" by linarith
  then show ?thesis
    by cases (use assms o flip_byte_near [of rg f n t] flip_bit_near [of rg f n t] in
      \<open>auto simp: mutate_file_randomly_def mutator_array_def xor_mutator_def\<close>)
qed

text \<open>Where a mutator is undefined the generator has drawn a number beyond what the mutator can use.\<close>

definition overshoots :: "'z os_scheme rangef \<Rightarrow> u8 list \<Rightarrow> u64 \<Rightarrow> bool" where
  "overshoots rg f n \<longleftrightarrow> (\<exists>k u r m u'. rg k 0 u = (r, m, u') \<and> 0 \<le> r \<and>
     (k = ucast n \<and> length f \<le> unat m \<or> k = 2 \<and> 2 < unat m \<or> k = 8 \<and> 32 \<le> unat m))"

lemma mutators_undefined:
  "flip_byte_mutator rg f n s = None \<Longrightarrow> overshoots rg f n"
  "flip_bit_mutator rg f n s = None \<Longrightarrow> overshoots rg f n"
  by (fastforce simp: flip_byte_mutator_def flip_bit_mutator_def overshoots_def not_less split: prod.splits if_splits)+

lemma mutate_file_randomly_undefined:
  fixes s :: "'z os_scheme"
  assumes "mutate_file_randomly rg f n s = None"
  shows "overshoots rg f n"
proof -
  obtain rtrn off t where d: "rg 2 0 s = (rtrn, off, t)" by (metis prod_cases3)
  then have nonneg: "0 \<le> rtrn" using assms by (auto simp: mutate_file_randomly_def number_of_mutators_def split: if_splits)
  consider "unat off = 0" | "unat off = 1" | "unat off = 2" | "unat off > 2" by linarith
  then show ?thesis
  proof cases
    case 4
    then show ?thesis using d nonneg unfolding overshoots_def by blast
  qed (use assms d nonneg mutators_undefined [of rg f n t] in
    \<open>auto simp: mutate_file_randomly_def number_of_mutators_def mutator_array_def xor_mutator_def split: if_splits\<close>)
qed

text \<open>C24. Whatever generator it is given, a mutation keeps the length of the file, changes at most one byte of it and
  reports 0 or -1; or it is undefined, and then the generator has drawn an offset past the end of the file, a number
  of a mutator that is not there, or a bit beyond the width of an \<open>int\<close>.\<close>

theorem mutate_file_one_byte:
  "case mutate_file rg f e n s of
     None \<Rightarrow> overshoots rg f n
   | Some (r, g, s') \<Rightarrow> length g = length f \<and> near f g \<and> (r = 0 \<or> r = -1)"
proof (cases "mutate_file rg f e n s")
  case None
  then have "\<exists>u. mutate_file_randomly rg f n u = None"
    by (auto simp: mutate_file_def split: if_splits prod.splits option.splits Option.bind_splits)
  then show ?thesis using None mutate_file_randomly_undefined by auto
next
  case (Some a)
  then obtain r g s' where run: "mutate_file rg f e n s = Some (r, g, s')" by (cases a) auto
  then obtain r1 t where "mutate_file_randomly rg f n s = Some (r1, g, t)" "r = 0 \<or> r = -1"
    by (auto simp: mutate_file_def supported_file_def split: if_splits elim!: bind_SomeE)
  with mutate_file_randomly_near [of rg f n s r1 g t] run show ?thesis by (auto simp: near_def)
qed

text \<open>A generator that always answers 1.\<close>

theorem mutate_file_one_byte_witness:
  "\<exists>g s'. mutate_file (\<lambda>n old s. (0, 1, s)) [7, 8, 9] ''txt'' 3 os0 = Some (0, g, s') \<and> near [7, 8, 9] g"
proof -
  have "\<exists>g s'. mutate_file (\<lambda>n old s. (0, 1, s)) [7, 8, 9] ''txt'' 3 os0 = Some (0, g, s')"
    by (simp add: mutate_file_def supported_file_def mutate_file_randomly_def mutator_array_def
        flip_bit_mutator_def)
  then obtain g s' where run: "mutate_file (\<lambda>n old s. (0, 1, s)) [7, 8, 9] ''txt'' 3 os0 = Some (0, g, s')" by blast
  from mutate_file_one_byte [where rg = "\<lambda>n old s. (0, 1, s)" and f = "[7, 8, 9]" and e = "''txt''" and n = 3 and s = os0] run show ?thesis by auto
qed

lemma ucast_len: "length f < 2 ^ 32 \<Longrightarrow> unat (ucast (word_of_nat (length f) :: u64) :: u32) = length f"
  by (simp add: unsigned_ucast_eq unat_of_nat take_bit_nat_eq_self)

text \<open>With the default generator the byte mutator complements exactly the byte at the offset drawn,
  and complementing it again gives the file back. The generator includes the upper bound in its range,
  so the offset may be the length of the file: then the mutator writes past the end of the buffer.\<close>

lemma flip_byte_exact:
  assumes "bn_ready s" and "length f < 2 ^ 32"
  shows "\<exists>m s'. default_rand_range (ucast (word_of_nat (length f) :: u64)) 0 s = (0, m, s') \<and> unat m \<le> length f \<and>
     flip_byte_mutator default_rand_range f (word_of_nat (length f)) s =
       (if unat m = length f then None else Some (0, f[unat m := NOT (f ! unat m)], s')) \<and>
     (unat m < length f \<longrightarrow>
        (f[unat m := NOT (f ! unat m)]) [unat m := NOT ((f[unat m := NOT (f ! unat m)]) ! unat m)] = f)"
proof -
  obtain m s' where m: "default_rand_range (ucast (word_of_nat (length f) :: u64)) 0 s = (0, m, s')"
    "m \<le> ucast (word_of_nat (length f) :: u64)" by (rule rs.range_cases [OF assms(1)])
  then have "unat m \<le> length f" using ucast_len [OF assms(2)] by (simp add: word_le_nat_alt)
  with m show ?thesis by (intro exI [of _ m] exI [of _ s']) (auto simp: flip_byte_mutator_def)
qed

text \<open>The bit mutator toggles exactly the drawn bit of the drawn byte when the bit is below 8. The
  generator may also deliver 8: then the shifted mask does not fit a byte and nothing changes.\<close>

lemma flip_bit_exact:
  assumes "rg (ucast n) 0 s = (0, off, s1)" and "rg 8 0 s1 = (0, b, s2)" and "unat off < length f" and "b \<le> 8"
  shows "\<exists>g. flip_bit_mutator rg f n s = Some (0, g, s2) \<and>
     (\<forall>i < length f. \<forall>k. bit (g ! i) k = (bit (f ! i) k \<noteq> (i = unat off \<and> k = unat b \<and> k < 8))) \<and>
     (b = 8 \<longrightarrow> g = f)"
proof -
  let ?mask = "ucast (push_bit (unat b) (1 :: u32)) :: u8"
  let ?g = "f[unat off := (f ! unat off) XOR ?mask]"
  have b: "unat b \<le> 8" using assms(4) by (simp add: word_le_nat_alt)
  have mask: "bit ?mask k \<longleftrightarrow> k = unat b \<and> k < 8" for k
    using b by (auto simp: bit_simps)
  have A: "flip_bit_mutator rg f n s = Some (0, ?g, s2)"
    using assms b by (simp add: flip_bit_mutator_def)
  have B: "bit (?g ! i) k = (bit (f ! i) k \<noteq> (i = unat off \<and> k = unat b \<and> k < 8))" if "i < length f" for i k
  proof (cases "i = unat off")
    case True
    have "?g ! i = f ! i XOR ?mask" unfolding True by (rule nth_list_update_eq [OF assms(3)])
    then show ?thesis using mask [of k] True by (simp only: bit_xor_iff) blast
  next
    case False
    then show ?thesis by simp
  qed
  have C: "?g = f" if "b = 8"
  proof -
    have "?mask = 0" unfolding that by simp
    then show ?thesis by simp
  qed
  show ?thesis
  proof (intro exI [of _ ?g] conjI allI impI)
    show "flip_bit_mutator rg f n s = Some (0, ?g, s2)" by (rule A)
    show "bit (?g ! i) k = (bit (f ! i) k \<noteq> (i = unat off \<and> k = unat b \<and> k < 8))" if "i < length f" for i k
      using that by (rule B)
    show "?g = f" if "b = 8" using that by (rule C)
  qed
qed

end
