(* ===== verification/Syscall.thy ===== *)
theory Syscall
  imports Signals Log Mutate
begin

text \<open>
  Model of the rest of \<^verbatim>\<open>src/src/syscall/syscall.c\<close>: the construction of the table and of the child
  contexts, the test of one system call, the loop of a child process and the main loop. A function that
  may leave through \<open>_exit\<close> or be left by \<open>longjmp\<close> returns a \<open>run\<close>. The objects a child is started
  with, that is the resource generator and the random generator, are the record \<open>services\<close>; it also
  has the text that \<open>strsignal\<close> gives a signal. The allocator and the writer are the default ones.

  The variable behind \<open>stop\<close> is shared with other processes, so each load of it is an observation of the
  environment. So are the number of running children where the main loop
  reads it, and the signal that may arrive while a test function runs: 0 for none. A child runs
  on its own copy of the private memory, and \<open>fork\<close> returns 0 there.
\<close>

datatype 'a run = Return 'a | Exited int | Jumped

record 's services =
  svc_free_desc :: "ptr \<Rightarrow> 's \<Rightarrow> (int \<times> 's) option"
  svc_free_socket :: "ptr \<Rightarrow> 's \<Rightarrow> (int \<times> 's) option"
  svc_free_dirpath :: "ptr \<Rightarrow> 's \<Rightarrow> (int \<times> ptr \<times> 's) option"
  svc_free_filepath :: "ptr \<Rightarrow> 's \<Rightarrow> (int \<times> ptr \<times> 's) option"
  svc_range :: "'s rangef"
  svc_strsignal :: "int \<Rightarrow> string option"

definition TRUE :: int where "TRUE = 1"
definition FALSE :: int where "FALSE = 0"

definition load_stop :: "'z os_scheme \<Rightarrow> int \<times> 'z os_scheme" where
  "load_stop s = ext ''stop'' [] s"

section \<open>Leaving a child\<close>

definition inject_kernel_probes :: "ptr \<Rightarrow> int" where
  "inject_kernel_probes probe = 0"

definition cleanup_kernel_probes :: "ptr \<Rightarrow> int" where
  "cleanup_kernel_probes probe = 0"

text \<open>The result is the code of \<open>_exit\<close>. With no context the function writes through a null pointer.\<close>

definition exit_child ::
    "ptr \<Rightarrow> 'z syscall_state_scheme \<Rightarrow> (int \<times> 'z syscall_state_scheme) option" where
  "exit_child thread s =
     do { (_, s) \<leftarrow> epoch_start thread s;
          (child, s) \<leftarrow> get_child s;
          (ret_val, s) \<leftarrow>
            (if child = NULL then Some (-1, console_output ERROR ''Can't get child context'' s)
             else do { c \<leftarrow> child_at s child;
                       if cleanup_kernel_probes (probe_handle c) < 0
                       then Some (-1, console_output ERROR ''Can't clean up kernel probes'' s)
                       else Some (0, s) });
          s \<leftarrow> stop_all_sections thread s;
          (_, s) \<leftarrow> clean_thread thread s;
          s \<leftarrow> set_child_pid child EMPTY s;
          let s = s\<lparr>running_children := running_children s - 1\<rparr>;
          Some (ret_val, console_output STD ''Exiting'' s) }"

definition exits ::
    "string \<Rightarrow> ptr \<Rightarrow> 'z syscall_state_scheme \<Rightarrow> ('a run \<times> 'z syscall_state_scheme) option" where
  "exits msg thread s =
     do { (code, s) \<leftarrow> exit_child thread (console_output ERROR msg s); Some (Exited code, s) }"

section \<open>Releasing the arguments of the last test\<close>

definition complain :: "int \<Rightarrow> string \<Rightarrow> 'z os_scheme \<Rightarrow> 'z os_scheme" where
  "complain rtrn msg s = (if rtrn < 0 then console_output ERROR msg s else s)"

definition free_arg ::
    "'z syscall_state_scheme services \<Rightarrow> ptr \<Rightarrow> arg_type \<Rightarrow> nat \<Rightarrow> 'z syscall_state_scheme \<Rightarrow>
     'z syscall_state_scheme option" where
  "free_arg svc ctx type i s =
     do { c \<leftarrow> child_at s ctx;
          if length (arg_copy_array c) \<le> i \<or> length (arg_value_array c) \<le> i \<or> length (arg_size_array c) \<le> i
          then None
          else case type of
            FILE_DESC \<Rightarrow> do { (rtrn, s) \<leftarrow> svc_free_desc svc (arg_copy_array c ! i) s;
                             Some (complain rtrn ''Can't free descriptor'' s) }
          | FILE_PATH \<Rightarrow> do { (rtrn, p, s) \<leftarrow> svc_free_filepath svc (arg_copy_array c ! i) s;
                             s \<leftarrow> upd_child ctx (\<lambda>c. c\<lparr>arg_copy_array := (arg_copy_array c)[i := p]\<rparr>) s;
                             Some (complain rtrn ''Can't free filepath'' s) }
          | DIR_PATH \<Rightarrow> do { (rtrn, p, s) \<leftarrow> svc_free_dirpath svc (arg_copy_array c ! i) s;
                            s \<leftarrow> upd_child ctx (\<lambda>c. c\<lparr>arg_copy_array := (arg_copy_array c)[i := p]\<rparr>) s;
                            Some (complain rtrn ''Can't free dirpath'' s) }
          | SOCKET \<Rightarrow> do { (rtrn, s) \<leftarrow> svc_free_socket svc (arg_copy_array c ! i) s;
                          Some (complain rtrn ''Can't free socket'' s) }
          | VOID_BUF \<Rightarrow> (let (p, s) = default_mem_free_shared (arg_value_array c ! i) (arg_size_array c ! i) s in
                        upd_child ctx (\<lambda>c. c\<lparr>arg_value_array := (arg_value_array c)[i := p]\<rparr>) s)
          | _ \<Rightarrow> Some s }"

text \<open>The loop from argument \<open>i\<close> on, with the number of rounds left.\<close>

fun free_args_loop ::
    "'z syscall_state_scheme services \<Rightarrow> ptr \<Rightarrow> syscall_entry \<Rightarrow> nat \<Rightarrow> nat \<Rightarrow> 'z syscall_state_scheme \<Rightarrow>
     'z syscall_state_scheme option" where
  "free_args_loop svc ctx entry 0 i s = Some s"
| "free_args_loop svc ctx entry (Suc n) i s =
     do { context \<leftarrow> (if i < length (arg_context_array entry) then arg_context_array entry ! i else None);
          s \<leftarrow> free_arg svc ctx (ctx_type context) i s;
          free_args_loop svc ctx entry n (i + 1) s }"

definition free_old_arguments ::
    "'z syscall_state_scheme services \<Rightarrow> ptr \<Rightarrow> 'z syscall_state_scheme \<Rightarrow> (int \<times> 'z syscall_state_scheme) option" where
  "free_old_arguments svc ctx s =
     do { c \<leftarrow> child_at s ctx;
          entry \<leftarrow> get_entry (syscall_number c) s;
          case entry of
            None \<Rightarrow> Some (-1, console_output ERROR ''Can't get entry'' s)
          | Some entry \<Rightarrow> do { s \<leftarrow> free_args_loop svc ctx entry (unat (child_total_args c)) 0 s; Some (0, s) } }"

section \<open>Making a test case\<close>

definition pick_syscall ::
    "'z syscall_state_scheme rangef \<Rightarrow> ptr \<Rightarrow> 'z syscall_state_scheme \<Rightarrow> (int \<times> 'z syscall_state_scheme) option" where
  "pick_syscall rg child s =
     (if sys_table s = NULL then None
      else
        let (rtrn, num, s) = rg (total_syscalls (static_table s) - 1) 0 s in
        if rtrn < 0 then Some (-1, console_output ERROR ''Can't generate random number'' s)
        else if unat num < length (sys_entry (static_table s))
        then let entry = sys_entry (static_table s) ! unat num in
             do { s \<leftarrow> upd_child child (\<lambda>c. c\<lparr>child_syscall_name := syscall_name entry, syscall_number := num,
                      child_total_args := total_args entry, child_symbol := syscall_symbol entry,
                      child_need_alarm := need_alarm entry, had_error := NX_NO\<rparr>) s;
                  Some (0, s) }
        else None)"

text \<open>\<open>memcpy\<close> of no bytes does nothing.\<close>

definition memcpy :: "ptr \<Rightarrow> ptr \<Rightarrow> u64 \<Rightarrow> 'z os_scheme \<Rightarrow> 'z os_scheme option" where
  "memcpy dst src n s =
     (if n = 0 then Some s
      else if room src (unat n) s then store_bytes dst 0 (map (bytes s src) [0..<unat n]) s else None)"

fun gen_args_loop ::
    "ptr \<Rightarrow> nat \<Rightarrow> nat \<Rightarrow> 'z syscall_state_scheme \<Rightarrow> (int \<times> 'z syscall_state_scheme) option" where
  "gen_args_loop ctx 0 i s = Some (0, s)"
| "gen_args_loop ctx (Suc n) i s =
     do { s \<leftarrow> upd_child ctx (\<lambda>c. c\<lparr>current_arg := word_of_nat i\<rparr>) s;
          c \<leftarrow> child_at s ctx;
          entry \<leftarrow> get_entry (syscall_number c) s;
          case entry of
            None \<Rightarrow> Some (-1, console_output ERROR ''Can't get entry'' s)
          | Some entry \<Rightarrow>
              if length (arg_value_array c) \<le> i \<or> length (arg_copy_array c) \<le> i \<or> length (arg_size_array c) \<le> i \<or>
                 length (get_arg_array entry) \<le> i
              then None
              else do {
                g \<leftarrow> get_arg_array entry ! i;
                (rtrn, p, s) \<leftarrow> call_generator g ctx (arg_value_array c ! i) s;
                s \<leftarrow> upd_child ctx (\<lambda>c. c\<lparr>arg_value_array := (arg_value_array c)[i := p]\<rparr>) s;
                if rtrn < 0
                then Some (-1, console_output ERROR ''Can't generate arguments for: %s'' s)
                else do {
                  c \<leftarrow> child_at s ctx;
                  s \<leftarrow> memcpy (arg_copy_array c ! i) (arg_value_array c ! i) (arg_size_array c ! i) s;
                  gen_args_loop ctx n (i + 1) s } } }"

definition generate_arguments ::
    "ptr \<Rightarrow> 'z syscall_state_scheme \<Rightarrow> (int \<times> 'z syscall_state_scheme) option" where
  "generate_arguments ctx s =
     do { c \<leftarrow> child_at s ctx; gen_args_loop ctx (unat (child_total_args c)) 0 s }"

definition generate_test_case ::
    "'z syscall_state_scheme services \<Rightarrow> ptr \<Rightarrow> ptr \<Rightarrow> 'z syscall_state_scheme \<Rightarrow>
     (int run \<times> 'z syscall_state_scheme) option" where
  "generate_test_case svc child thread s =
     do { (rtrn, s) \<leftarrow> pick_syscall (svc_range svc) child s;
          if rtrn < 0 then exits ''Can't pick syscall to test'' thread s
          else do {
            (rtrn, s) \<leftarrow> generate_arguments child s;
            if rtrn < 0 then exits ''Can't generate arguments'' thread s
            else if mutate_arguments < 0 then exits ''Can't mutate arguments'' thread s
            else do {
              c \<leftarrow> child_at s child;
              entry \<leftarrow> get_entry (syscall_number c) s;
              case entry of
                None \<Rightarrow> exits ''Can't get syscall entry'' thread s
              | Some entry \<Rightarrow> do {
                  (rtrn, s) \<leftarrow> log_arguments (child_total_args c) (child_syscall_name c) (arg_value_array c)
                                (arg_context_array entry) s;
                  if rtrn < 0 then exits ''Can't log arguments'' thread s
                  else Some (Return 0, s) } } } }"

section \<open>Running a test case\<close>

definition check_for_failure :: "int \<Rightarrow> int" where
  "check_for_failure ret = (if ret < 0 then -1 else 0)"

text \<open>A signal that arrives while the test function runs goes to \<open>child_signal_handler\<close>, which jumps back
  to the loop of the child: what follows the call of the test function is not executed then.\<close>

definition test_syscall ::
    "ptr \<Rightarrow> 'z syscall_state_scheme \<Rightarrow> (int run \<times> 'z syscall_state_scheme) option" where
  "test_syscall ctx s =
     do { c \<leftarrow> child_at s ctx;
          let s = (if child_need_alarm c = NX_YES then snd (ext ''alarm'' [1] s) else s);
          entry \<leftarrow> get_entry (syscall_number c) s;
          case entry of
            None \<Rightarrow> Some (Return (-1), console_output ERROR ''Can't get syscall entry'' s)
          | Some entry \<Rightarrow> do {
              let s = s\<lparr>test_counter := test_counter s + 1\<rparr>;
              let s = snd (ext ''gettimeofday'' [] s);
              s \<leftarrow> upd_child ctx (\<lambda>c. c\<lparr>child_test := test_syscall_fun entry\<rparr>) s;
              test \<leftarrow> test_syscall_fun entry;
              (ret, s) \<leftarrow> call_test test (child_symbol c) (arg_value_array c) s;
              let ((sig, si_pid), s) = ext2 ''signal'' [] s;
              if sig \<noteq> 0
              then do { s \<leftarrow> child_signal_handler ctx sig si_pid s; Some (Jumped, s) }
              else do {
                s \<leftarrow> upd_child ctx (\<lambda>c. c\<lparr>ret_value := ret\<rparr>) s;
                s \<leftarrow> (if check_for_failure ret < 0 then upd_child ctx (\<lambda>c. c\<lparr>had_error := NX_YES\<rparr>) s else Some s);
                Some (Return 0, s) } } }"

section \<open>The loop of a child\<close>

definition report_results ::
    "'z syscall_state_scheme services \<Rightarrow> ptr \<Rightarrow> 'z syscall_state_scheme \<Rightarrow> (int \<times> 'z syscall_state_scheme) option" where
  "report_results svc child s =
     do { c \<leftarrow> child_at s child;
          Some (log_results (had_error c) (ret_value c) (svc_strsignal svc (sig_num c)) s) }"

text \<open>From the return of \<open>setjmp\<close>, which is 0 or 1, to the loop.\<close>

definition after_setjmp ::
    "'z syscall_state_scheme services \<Rightarrow> ptr \<Rightarrow> ptr \<Rightarrow> 'z syscall_state_scheme \<Rightarrow>
     (unit run \<times> 'z syscall_state_scheme) option" where
  "after_setjmp svc thread child s =
     do { c \<leftarrow> child_at s child;
          if did_jump c = NX_YES
          then do {
            (_, s) \<leftarrow> epoch_start thread s;
            (rtrn, s) \<leftarrow> report_results svc child s;
            if rtrn < 0 then exits ''Can't log test results'' thread s
            else do {
              (rtrn, s) \<leftarrow> free_old_arguments svc child s;
              if rtrn < 0 then exits ''Can't cleanup old arguments'' thread s
              else do {
                s \<leftarrow> epoch_stop thread s;
                s \<leftarrow> epoch_stop thread s;
                Some (Return (), s) } } }
          else do { s \<leftarrow> epoch_stop thread s; Some (Return (), s) } }"

text \<open>The body of the loop.\<close>

definition child_round ::
    "'z syscall_state_scheme services \<Rightarrow> ptr \<Rightarrow> ptr \<Rightarrow> 'z syscall_state_scheme \<Rightarrow>
     (unit run \<times> 'z syscall_state_scheme) option" where
  "child_round svc thread child s =
     do { (_, s) \<leftarrow> epoch_start thread s;
          (r, s) \<leftarrow> generate_test_case svc child thread s;
          case r of
            Exited code \<Rightarrow> Some (Exited code, s)
          | Jumped \<Rightarrow> Some (Jumped, s)
          | Return rtrn \<Rightarrow>
              if rtrn < 0 then exits ''Syscall call failed'' thread s
              else do {
                s \<leftarrow> epoch_stop thread s;
                (r, s) \<leftarrow> test_syscall child s;
                case r of
                  Exited code \<Rightarrow> Some (Exited code, s)
                | Jumped \<Rightarrow> Some (Jumped, s)
                | Return rtrn \<Rightarrow>
                    if rtrn < 0 then exits ''Syscall call failed'' thread s
                    else do {
                      (rtrn, s) \<leftarrow> report_results svc child s;
                      if rtrn < 0 then exits ''Can't log test results'' thread s
                      else do { (_, s) \<leftarrow> free_old_arguments svc child s; Some (Return (), s) } } } }"

text \<open>\<open>jumped\<close> is true where the control flow comes from \<open>setjmp\<close>.\<close>

partial_function (option) child_loop ::
    "'z syscall_state_scheme services \<Rightarrow> bool \<Rightarrow> ptr \<Rightarrow> ptr \<Rightarrow> 'z syscall_state_scheme \<Rightarrow>
     (int \<times> 'z syscall_state_scheme) option" where
  "child_loop svc jumped thread child s =
     (if jumped
      then do { (r, s) \<leftarrow> after_setjmp svc thread child s;
                case r of
                  Exited code \<Rightarrow> Some (code, s)
                | Jumped \<Rightarrow> child_loop svc True thread child s
                | Return _ \<Rightarrow> child_loop svc False thread child s }
      else let (stop, s) = load_stop s in
           if stop \<noteq> TRUE
           then do { (r, s) \<leftarrow> child_round svc thread child s;
                     case r of
                       Exited code \<Rightarrow> Some (code, s)
                     | Jumped \<Rightarrow> child_loop svc True thread child s
                     | Return _ \<Rightarrow> child_loop svc False thread child s }
           else exit_child thread s)"

definition start_syscall_child ::
    "'z syscall_state_scheme services \<Rightarrow> ptr \<Rightarrow> 'z syscall_state_scheme \<Rightarrow> (int \<times> 'z syscall_state_scheme) option" where
  "start_syscall_child svc thread s =
     do { (_, s) \<leftarrow> epoch_start thread s;
          (child, s) \<leftarrow> get_child s;
          if child = NULL then exit_child thread (console_output ERROR ''Can't get child context'' s)
          else child_loop svc True thread child s }"

partial_function (option) wait_for_stop :: "'z os_scheme \<Rightarrow> 'z os_scheme option" where
  "wait_for_stop s = (let (stop, s) = load_stop s in if stop \<noteq> TRUE then wait_for_stop s else Some s)"

definition start_smart_syscall_child ::
    "ptr \<Rightarrow> 'z syscall_state_scheme \<Rightarrow> (int \<times> 'z syscall_state_scheme) option" where
  "start_smart_syscall_child thread s =
     do { (_, s) \<leftarrow> epoch_start thread s;
          (child, s) \<leftarrow> get_child s;
          if child = NULL then exit_child thread (console_output ERROR ''Can't get child context'' s)
          else do { s \<leftarrow> epoch_stop thread s; s \<leftarrow> wait_for_stop s; exit_child thread s } }"

definition start_child_loop ::
    "'z syscall_state_scheme services \<Rightarrow> ptr \<Rightarrow> 'z syscall_state_scheme \<Rightarrow> (int \<times> 'z syscall_state_scheme) option" where
  "start_child_loop svc thread s =
     (if run_mode s \<noteq> TRUE then start_syscall_child svc thread s else start_smart_syscall_child thread s)"

section \<open>Starting children\<close>

text \<open>The result of \<open>setup_child_signal_handler\<close> is ignored.\<close>

definition init_syscall_child ::
    "u32 \<Rightarrow> ptr \<Rightarrow> 'z syscall_state_scheme \<Rightarrow> (unit run \<times> 'z syscall_state_scheme) option" where
  "init_syscall_child i thread s =
     (let s = snd (setup_child_signal_handler s) in
      do { (rtrn, s) \<leftarrow> epoch_start thread s;
           if rtrn = -1 then exits ''Can't start epoch protected section'' thread s
           else do {
             rtrn \<leftarrow> (if run_mode s = TRUE
                      then do { c \<leftarrow> (if unat i < length (children s) then child_at s (children s ! unat i) else None);
                                Some (inject_kernel_probes (probe_handle c)) }
                      else Some 0);
             if rtrn < 0 then exits ''Can't init child probes'' thread s
             else do { s \<leftarrow> epoch_stop thread s; Some (Return (), s) } } })"

text \<open>\<open>rsize\<close> is the size of an epoch record.\<close>

definition start_child ::
    "u64 \<Rightarrow> 'z syscall_state_scheme services \<Rightarrow> u32 \<Rightarrow> 'z syscall_state_scheme \<Rightarrow>
     (int \<times> 'z syscall_state_scheme) option" where
  "start_child rsize svc i s =
     do { (thread, s) \<leftarrow> init_thread rsize s;
          if thread = NULL then exit_child thread (console_output ERROR ''Thread initialization failed'' s)
          else do {
            (r, s) \<leftarrow> init_syscall_child i thread s;
            case r of
              Exited code \<Rightarrow> Some (code, s)
            | Jumped \<Rightarrow> None
            | Return _ \<Rightarrow> start_child_loop svc thread s } }"

text \<open>The loop of \<open>create_child\<close> from index \<open>i\<close>. In the parent the result is \<open>Return\<close>, in a new child it
  is the code the child ends with.\<close>

function create_from ::
    "u64 \<Rightarrow> 'z syscall_state_scheme services \<Rightarrow> ptr \<Rightarrow> nat \<Rightarrow> nat \<Rightarrow> 'z syscall_state_scheme \<Rightarrow>
     (int run \<times> 'z syscall_state_scheme) option" where
  "create_from rsize svc thread n i s =
     (if i < n
      then do {
        (rtrn, s) \<leftarrow> epoch_start thread s;
        if rtrn = -1 then Some (Return (-1), console_output ERROR ''Can't start protected section'' s)
        else do {
          c \<leftarrow> (if i < length (children s) then child_at s (children s ! i) else None);
          s \<leftarrow> epoch_stop thread s;
          if child_pid c \<noteq> EMPTY then create_from rsize svc thread n (i + 1) s
          else
            let ((rtrn, fds), s) = ext2 ''pipe'' [] s in
            if rtrn < 0 then Some (Return (-1), console_output ERROR ''Message pipe creation failed'' s)
            else
              let (pid, s) = ext ''fork'' [] s in
              if pid = 0
              then do {
                let (me, s) = ext ''getpid'' [] s;
                s \<leftarrow> set_child_pid (children s ! i) me s;
                let s = s\<lparr>running_children := running_children s + 1\<rparr>;
                let (ret, s) = ext ''write'' [fds, 1] s;
                if ret < 1 then exits ''Write: %s'' thread s
                else do { (code, s) \<leftarrow> start_child rsize svc (word_of_nat i) s; Some (Exited code, s) } }
              else if 0 < pid
              then
                let (ret, s) = ext ''read'' [fds, 1] s in
                if ret < 1 then Some (Return (-1), console_output ERROR ''Read: %s'' s)
                else let (_, s) = ext ''close'' [fds] s; (_, s) = ext ''close'' [fds] s in
                     Some (Return 0, s)
              else Some (Return (-1), console_output ERROR ''Can't create child proc: %s'' s) } }
      else Some (Return 0, s))"
  by auto

termination
  by (relation "measure (\<lambda>(_, _, _, n, i, _). n - i)") auto

definition create_child ::
    "u64 \<Rightarrow> 'z syscall_state_scheme services \<Rightarrow> ptr \<Rightarrow> 'z syscall_state_scheme \<Rightarrow>
     (int run \<times> 'z syscall_state_scheme) option" where
  "create_child rsize svc thread s = create_from rsize svc thread (unat (total_children s)) 0 s"

text \<open>The result of the main loop is \<open>Return\<close> where it ends, and \<open>Exited\<close> in a process it has forked.\<close>

partial_function (option) main_loop ::
    "u64 \<Rightarrow> 'z syscall_state_scheme services \<Rightarrow> ptr \<Rightarrow> 'z syscall_state_scheme \<Rightarrow>
     (unit run \<times> 'z syscall_state_scheme) option" where
  "main_loop rsize svc thread s =
     (let (stop, s) = load_stop s in
      if stop = FALSE
      then let (running, s) = ext ''running_children'' [] s in
           if running < uint (total_children s)
           then do { (r, s) \<leftarrow> create_child rsize svc thread s;
                     case r of
                       Exited code \<Rightarrow> Some (Exited code, s)
                     | Jumped \<Rightarrow> Some (Jumped, s)
                     | Return rtrn \<Rightarrow> if rtrn < 0 then Some (Return (), console_output ERROR ''Can't create child'' s)
                                    else main_loop rsize svc thread s }
           else main_loop rsize svc thread s
      else Some (Return (), console_output STD ''Exiting main loop'' s))"

definition start_main_syscall_loop ::
    "u64 \<Rightarrow> 'z syscall_state_scheme services \<Rightarrow> ptr \<Rightarrow> 'z syscall_state_scheme \<Rightarrow>
     (unit run \<times> 'z syscall_state_scheme) option" where
  "start_main_syscall_loop rsize svc thread s =
     (let (rtrn, s) = setup_signal_handler (console_output STD ''Starting fuzzer'' s) in
      if rtrn < 0 then Some (Return (), console_output ERROR ''Signal handler setup failed'' s)
      else main_loop rsize svc thread s)"

fun kill_loop :: "nat \<Rightarrow> nat \<Rightarrow> 'z syscall_state_scheme \<Rightarrow> 'z syscall_state_scheme option" where
  "kill_loop 0 i s = Some s"
| "kill_loop (Suc n) i s =
     do { c \<leftarrow> (if i < length (children s) then child_at s (children s ! i) else None);
          let (rtrn, s) = ext ''kill'' [child_pid c, SIGKILL] s;
          if rtrn < 0 then Some (console_output ERROR ''Can't kill child: %s'' s) else kill_loop n (i + 1) s }"

definition kill_all_children :: "'z syscall_state_scheme \<Rightarrow> 'z syscall_state_scheme option" where
  "kill_all_children s = kill_loop (unat (total_children s)) 0 s"

section \<open>Setting up the module\<close>

fun contexts_loop :: "nat \<Rightarrow> nat \<Rightarrow> syscall_entry \<Rightarrow> 'z os_scheme \<Rightarrow> (bool \<times> syscall_entry \<times> 'z os_scheme) option" where
  "contexts_loop 0 i entry s = Some (True, entry, s)"
| "contexts_loop (Suc n) i entry s =
     (if i < length (arg_type_array entry) \<and> i < length (arg_context_array entry)
      then let (ctx, s) = get_arg_context (arg_type_array entry ! i) s;
               entry = entry\<lparr>arg_context_array := (arg_context_array entry)[i := ctx]\<rparr> in
           if ctx = None then Some (False, entry, console_output ERROR ''Can't get argument context'' s)
           else contexts_loop n (i + 1) entry s
      else None)"

fun entries_loop ::
    "nat \<Rightarrow> nat \<Rightarrow> syscall_entry list \<Rightarrow> 'z os_scheme \<Rightarrow> (bool \<times> syscall_entry list \<times> 'z os_scheme) option" where
  "entries_loop 0 i es s = Some (True, es, s)"
| "entries_loop (Suc n) i es s =
     (if i < length es
      then let entry = (set_test_syscall (entry_id (es ! i)) (es ! i))\<lparr>status := ON\<rparr> in
           do { (ok, entry, s) \<leftarrow> contexts_loop (unat (total_args entry)) 0 entry s;
                if ok then entries_loop n (i + 1) (es[i := entry]) s else Some (False, es[i := entry], s) }
      else None)"

definition build_syscall_table ::
    "'z syscall_state_scheme \<Rightarrow> (ptr \<times> 'z syscall_state_scheme) option" where
  "build_syscall_table s =
     (let (table, s) = default_mem_alloc_shared 456 s in
      if table = NULL then Some (NULL, console_output ERROR ''Can't create shadow table'' s)
      else do {
        (ok, es, s) \<leftarrow> entries_loop (unat (total_syscalls (static_table s))) 0 (sys_entry (static_table s)) s;
        let s = s\<lparr>static_table := (static_table s)\<lparr>sys_entry := es\<rparr>\<rparr>;
        Some (if ok then table else NULL, s) })"

definition get_syscall_table ::
    "'z syscall_state_scheme \<Rightarrow> (ptr \<times> 'z syscall_state_scheme) option" where
  "get_syscall_table s = (if table_set s = TRUE then Some (sys_table s, s) else build_syscall_table s)"

text \<open>The size of a context on 64-bit Linux. Shared memory is zero-filled: the arrays of a new context are
  null pointers until they are allocated.\<close>

definition sizeof_child_ctx :: u64 where
  "sizeof_child_ctx = 328"

definition zero_ctx :: child_ctx where
  "zero_ctx = \<lparr>child_pid = EMPTY, syscall_number = 0, child_symbol = '''', current_arg = 0, child_total_args = 0,
     child_syscall_name = '''', arg_value_array = [], arg_copy_array = [], arg_size_array = [],
     ret_value = 0, had_error = NX_YES, sig_num = 0, did_jump = NX_YES, probe_handle = NULL,
     child_need_alarm = NX_YES, child_test = None\<rparr>"

fun arg_bufs_loop :: "nat \<Rightarrow> nat \<Rightarrow> child_ctx \<Rightarrow> 'z os_scheme \<Rightarrow> bool \<times> child_ctx \<times> 'z os_scheme" where
  "arg_bufs_loop 0 i c s = (True, c, s)"
| "arg_bufs_loop (Suc n) i c s =
     (let (v, s) = default_mem_alloc_shared ARG_BUF_LEN s;
          c = c\<lparr>arg_value_array := (arg_value_array c)[i := v]\<rparr> in
      if v = NULL then (False, c, console_output ERROR ''Can't create arg value'' s)
      else
        let (p, s) = default_mem_alloc_shared ARG_BUF_LEN s;
            c = c\<lparr>arg_copy_array := (arg_copy_array c)[i := p]\<rparr> in
        if p = NULL then (False, c, console_output ERROR ''Can't create arg copy value'' s)
        else arg_bufs_loop n (i + 1) c s)"

definition free_shared_list :: "(ptr \<times> u64) list \<Rightarrow> 'z os_scheme \<Rightarrow> 'z os_scheme" where
  "free_shared_list ps s = fold (\<lambda>(p, n) s. snd (default_mem_free_shared p n s)) ps s"

definition init_child_context :: "'z syscall_state_scheme \<Rightarrow> ptr \<times> 'z syscall_state_scheme" where
  "init_child_context s =
     (let n = unat ARG_LIMIT; arr = ucast ARG_LIMIT * 8; (child, s) = default_mem_alloc_shared sizeof_child_ctx s in
      if child = NULL then (NULL, console_output ERROR ''Can't create child context'' s)
      else
        let c = zero_ctx\<lparr>current_arg := 0\<rparr>; (vals, s) = default_mem_alloc_shared arr s in
        if vals = NULL
        then (NULL, free_shared_list [(child, sizeof_child_ctx)]
                      (console_output ERROR ''Can't create arg value index: %s'' s))
        else
          let c = c\<lparr>arg_value_array := replicate n NULL\<rparr>; (sizes, s) = default_mem_alloc_shared arr s in
          if sizes = NULL
          then (NULL, free_shared_list [(vals, arr), (child, sizeof_child_ctx)]
                        (console_output ERROR ''Can't create arg size index: %s'' s))
          else
            let c = c\<lparr>arg_size_array := replicate n 0\<rparr>; (copies, s) = default_mem_alloc_shared arr s in
            if copies = NULL
            then (NULL, free_shared_list [(sizes, arr), (vals, arr), (child, sizeof_child_ctx)]
                          (console_output ERROR ''Can't create arg copy index: %s'' s))
            else
              let c = c\<lparr>arg_copy_array := replicate n NULL\<rparr>; (ok, c, s) = arg_bufs_loop n 0 c s in
              if \<not> ok
              then (NULL, free_shared_list [(copies, arr), (sizes, arr), (vals, arr), (child, sizeof_child_ctx)] s)
              else (child, s\<lparr>child_at := (child_at s)(child \<mapsto> c)\<rparr>))"

fun children_loop :: "nat \<Rightarrow> nat \<Rightarrow> 'z syscall_state_scheme \<Rightarrow> bool \<times> 'z syscall_state_scheme" where
  "children_loop 0 i s = (True, s)"
| "children_loop (Suc n) i s =
     (let (child, s) = init_child_context s in
      if child = NULL then (False, console_output ERROR ''Can't init child context'' s)
      else children_loop n (i + 1) (s\<lparr>children := (children s)[i := child]\<rparr>))"

text \<open>\<open>test_counter\<close> stands for the variable behind the pointer that the state gets.\<close>

definition setup_syscall_module ::
    "ptr \<Rightarrow> int \<Rightarrow> ptr \<Rightarrow> 'z syscall_state_scheme \<Rightarrow> (int \<times> 'z syscall_state_scheme) option" where
  "setup_syscall_module stop_p rmode e s =
     (let (rtrn, cores, s) = get_core_count (total_children s) s; s = s\<lparr>total_children := cores\<rparr> in
      if rtrn < 0 then Some (-1, console_output ERROR ''Can't get core count'' s)
      else do {
        (table, s) \<leftarrow> get_syscall_table s;
        let s = s\<lparr>sys_table := table\<rparr>;
        if table = NULL then Some (-1, console_output ERROR ''Can't get syscall table'' s)
        else
          let (state, s) = default_mem_alloc_shared 16 s; s = s\<lparr>global_state := state\<rparr> in
          if state = NULL then Some (-1, console_output ERROR ''Global state allocation failed'' s)
          else
            let s = s\<lparr>running_children := 0\<rparr>;
                (arr, s) = default_mem_alloc_shared (ucast (total_children s) * 8) s in
            if arr = NULL then Some (-1, console_output ERROR ''Can't create children index.'' s)
            else
              let (ok, s) = children_loop (unat (total_children s)) 0
                    (s\<lparr>children := replicate (unat (total_children s)) NULL\<rparr>) in
              if \<not> ok then Some (-1, s)
              else Some (0, s\<lparr>stop_ptr := stop_p, run_mode := rmode, epoch_global := e, table_set := TRUE\<rparr>) })"

end
