(* ===== verification/Table.thy ===== *)
theory Table
  imports Syscall
begin

text \<open>
  What the set-up of the system call module guarantees: \<open>build_syscall_table\<close> completes every entry of
  the table, and \<open>pick_syscall\<close> then always describes one of them in the context of the child.
\<close>

section \<open>The table\<close>

text \<open>An entry the loops can complete: its arrays have seven elements, it has no more arguments than that,
  and each of them has a type with a context.\<close>

definition entry_fits :: "syscall_entry \<Rightarrow> bool" where
  "entry_fits e \<longleftrightarrow> length (arg_type_array e) = 7 \<and> length (arg_context_array e) = 7 \<and> unat (total_args e) \<le> 7 \<and>
     list_all (\<lambda>i. arg_context_of (arg_type_array e ! i) \<noteq> None) [0..<unat (total_args e)]"

definition table_fits :: "syscall_table \<Rightarrow> bool" where
  "table_fits t \<longleftrightarrow> unat (total_syscalls t) \<le> length (sys_entry t) \<and> list_all entry_fits (sys_entry t)"

text \<open>The entry with its test function and the contexts of its arguments.\<close>

definition with_contexts :: "nat \<Rightarrow> nat \<Rightarrow> syscall_entry \<Rightarrow> syscall_entry" where
  "with_contexts i n e = e\<lparr>arg_context_array :=
     map (\<lambda>k. if i \<le> k \<and> k < i + n then arg_context_of (arg_type_array e ! k) else arg_context_array e ! k)
       [0..<length (arg_context_array e)]\<rparr>"

definition ready_entry :: "syscall_entry \<Rightarrow> syscall_entry" where
  "ready_entry e = with_contexts 0 (unat (total_args e)) ((set_test_syscall (entry_id e) e)\<lparr>status := ON\<rparr>)"

lemma contexts_loop_spec:
  assumes "i + n \<le> length (arg_type_array e)" and "i + n \<le> length (arg_context_array e)"
    and "\<And>k. i \<le> k \<Longrightarrow> k < i + n \<Longrightarrow> arg_context_of (arg_type_array e ! k) \<noteq> None"
  shows "contexts_loop n i e s = Some (True, with_contexts i n e, s)"
  using assms
proof (induction n arbitrary: i e)
  case 0
  show ?case by (auto simp: with_contexts_def intro!: syscall_entry.equality nth_equalityI)
next
  case (Suc n)
  let ?c = "arg_context_of (arg_type_array e ! i)"
  let ?e = "e\<lparr>arg_context_array := (arg_context_array e)[i := ?c]\<rparr>"
  obtain c where c: "?c = Some c" using Suc.prems(3) [of i] by auto
  have IH: "contexts_loop n (i + 1) ?e s = Some (True, with_contexts (i + 1) n ?e, s)"
    using Suc.prems by (intro Suc.IH) auto
  moreover have "with_contexts (i + 1) n ?e = with_contexts i (Suc n) e"
    using Suc.prems(2) by (auto simp: with_contexts_def nth_list_update intro!: syscall_entry.equality nth_equalityI)
  ultimately show ?case using Suc.prems c by (simp add: get_arg_context_def)
qed

lemma entry_ready:
  assumes "entry_fits e"
  shows "contexts_loop (unat (total_args e)) 0 ((set_test_syscall (entry_id e) e)\<lparr>status := ON\<rparr>) s =
     Some (True, ready_entry e, s)"
proof -
  let ?e = "(set_test_syscall (entry_id e) e)\<lparr>status := ON\<rparr>"
  have same: "arg_type_array ?e = arg_type_array e" "arg_context_array ?e = arg_context_array e"
    by (cases "entry_id e"; simp add: set_test_syscall_def)+
  show ?thesis unfolding ready_entry_def
    by (rule contexts_loop_spec) (use assms same in \<open>auto simp: entry_fits_def list_all_iff\<close>)
qed

definition finished :: "nat \<Rightarrow> nat \<Rightarrow> syscall_entry list \<Rightarrow> syscall_entry list" where
  "finished i n es = map (\<lambda>k. if i \<le> k \<and> k < i + n then ready_entry (es ! k) else es ! k) [0..<length es]"

lemma entries_loop_spec:
  assumes "i + n \<le> length es" and "list_all entry_fits (drop i es)"
  shows "entries_loop n i es s = Some (True, finished i n es, s)"
  using assms
proof (induction n arbitrary: i es)
  case 0
  show ?case by (auto simp: finished_def intro!: nth_equalityI)
next
  case (Suc n)
  let ?es = "es[i := ready_entry (es ! i)]"
  have i: "i < length es" using Suc.prems(1) by simp
  have fits: "entry_fits (es ! i)" and rest: "list_all entry_fits (drop (i + 1) es)"
    using Suc.prems(2) by (simp_all add: Cons_nth_drop_Suc [OF i, symmetric])
  have total: "total_args ((set_test_syscall (entry_id (es ! i)) (es ! i))\<lparr>status := ON\<rparr>) = total_args (es ! i)"
    by (cases "entry_id (es ! i)") (simp_all add: set_test_syscall_def)
  have "drop (i + 1) ?es = drop (i + 1) es" by simp
  with Suc.prems(1) rest have IH: "entries_loop n (i + 1) ?es s = Some (True, finished (i + 1) n ?es, s)"
    by (intro Suc.IH) simp_all
  have "finished (i + 1) n ?es = finished i (Suc n) es"
    using i by (auto simp: finished_def nth_list_update intro!: nth_equalityI)
  with IH i entry_ready [OF fits, of s] total show ?case by (simp add: Let_def)
qed

lemma build_table_spec:
  assumes "table_fits (static_table s)" and "grant s (asked s)" and "0 < fresh s"
  shows "\<exists>s'. build_syscall_table s = Some (fresh s, s') \<and>
     static_table s' = (static_table s)\<lparr>sys_entry :=
       finished 0 (unat (total_syscalls (static_table s))) (sys_entry (static_table s))\<rparr>"
  using assms
  by (simp add: build_syscall_table_def default_mem_alloc_shared_def mmap_def table_fits_def entries_loop_spec Let_def)

lemma tables_fit: "table_fits linux_syscall_table" "table_fits freebsd_syscall_table" "table_fits mac_osx_syscall_table"
  by (simp_all add: table_fits_def entry_fits_def linux_syscall_table_def freebsd_syscall_table_def
      mac_osx_syscall_table_def entry_defs upt_rec)

lemma ready_entry_complete:
  assumes "entry_fits e"
  shows "status (ready_entry e) = ON" "syscall_name (ready_entry e) = syscall_name e"
    "get_arg_array (ready_entry e) = get_arg_array e" "total_args (ready_entry e) = total_args e"
    "test_syscall_fun (ready_entry e) = test_syscall_fun (set_test_syscall (entry_id e) e)"
    "\<exists>f. test_syscall_fun (set_test_syscall (entry_id e) e) = Some f"
    "k < unat (total_args e) \<Longrightarrow> arg_context_array (ready_entry e) ! k = arg_context_of (arg_type_array e ! k)"
    "k < unat (total_args e) \<Longrightarrow> \<exists>c. arg_context_of (arg_type_array e ! k) = Some c"
    "arg_type_array (ready_entry e) = arg_type_array e"
  using assms
  by (cases "entry_id e"; simp add: ready_entry_def with_contexts_def set_test_syscall_def entry_fits_def list_all_iff)+

text \<open>C8. On every platform the construction of the table succeeds when the shared memory is granted. It
  turns every entry on, installs the test function of its id and fills in the context of each of its
  arguments, so that no later lookup through the table meets a null pointer.\<close>

theorem table_built:
  assumes "static_table s \<in> {linux_syscall_table, freebsd_syscall_table, mac_osx_syscall_table}"
    and "grant s (asked s)" and "wf_os s"
  shows "\<exists>s'. build_syscall_table s = Some (fresh s, s') \<and>
     length (sys_entry (static_table s')) = unat (total_syscalls (static_table s')) \<and>
     (\<forall>i < unat (total_syscalls (static_table s')).
        let e = sys_entry (static_table s') ! i; e0 = sys_entry (static_table s) ! i in
        status e = ON \<and> syscall_name e = syscall_name e0 \<and> get_arg_array e = get_arg_array e0 \<and>
        (\<exists>f. test_syscall_fun e = Some f \<and> test_syscall_fun (set_test_syscall (entry_id e0) e0) = Some f) \<and>
        (\<forall>k < unat (total_args e). \<exists>c. arg_context_array e ! k = Some c \<and> arg_context_of (arg_type_array e ! k) = Some c))"
proof -
  let ?t = "static_table s"
  have fits: "table_fits ?t" and len: "length (sys_entry ?t) = unat (total_syscalls ?t)"
    using assms(1) tables_fit table_sizes by auto
  obtain s' where run: "build_syscall_table s = Some (fresh s, s')"
    "static_table s' = ?t\<lparr>sys_entry := finished 0 (unat (total_syscalls ?t)) (sys_entry ?t)\<rparr>"
    using build_table_spec [OF fits assms(2) wf_os_pos [OF assms(3)]] by blast
  have "entry_fits (sys_entry ?t ! i)" if "i < unat (total_syscalls ?t)" for i
    using fits that len by (simp add: table_fits_def list_all_length)
  then show ?thesis using run len by (auto simp: finished_def Let_def ready_entry_complete)
qed

section \<open>Picking a call\<close>

text \<open>A random source that leaves the state of the module alone.\<close>

locale child_random = random_source ok rg
  for ok :: "'z syscall_state_scheme \<Rightarrow> bool" and rg :: "'z syscall_state_scheme rangef" +
  assumes range_frame: "rg n old s = (r, m, s') \<Longrightarrow> sysfix s' = sysfix s"
begin

lemma pick_valid:
  assumes "ok s" and "sys_table s \<noteq> NULL" and "0 < total_syscalls (static_table s)"
    and "unat (total_syscalls (static_table s)) \<le> length (sys_entry (static_table s))"
    and "child_at s child = Some c"
  shows "\<exists>num s'. pick_syscall rg child s = Some (0, s') \<and> num < total_syscalls (static_table s) \<and>
     child_at s' child = Some (let e = sys_entry (static_table s) ! unat num in
       c\<lparr>child_syscall_name := syscall_name e, syscall_number := num, child_total_args := total_args e,
         child_symbol := syscall_symbol e, child_need_alarm := need_alarm e, had_error := NX_NO\<rparr>)"
proof -
  let ?n = "total_syscalls (static_table s)"
  from range_cases [OF assms(1)] obtain num t where
    t: "rg (?n - 1) 0 s = (0, num, t)" "num \<le> ?n - 1" by metis
  from range_frame [OF t(1)] have same: "static_table t = static_table s" "child_at t = child_at s"
    "sys_table t = sys_table s" by (simp_all add: sysfix_def)
  have lt: "num < ?n" using t(2) assms(3) by (auto simp: word_le_nat_alt word_less_nat_alt unat_sub)
  then have "unat num < length (sys_entry (static_table s))" using assms(4) by (simp add: word_less_nat_alt)
  then show ?thesis using t(1) same lt assms(2,5)
    by (intro exI [of _ num]) (simp add: pick_syscall_def upd_child_def Let_def)
qed

end

lemma default_range_frame: "default_rand_range n old s = (r, m, s') \<Longrightarrow> sysfix s' = sysfix s"
  by (auto simp: default_rand_range_def ext_eq ext2_def printf_def split: if_splits prod.splits)

interpretation cr: child_random bn_ready default_rand_range
  by unfold_locales (rule default_range_frame)

text \<open>C9. With a table that has entries and the default random source, \<open>pick_syscall\<close> succeeds and copies
  into the context the number, name, symbol, argument count and alarm flag of one and the same entry of
  the table, and clears the error flag.\<close>

theorem pick_syscall_valid:
  fixes s :: "'z syscall_state_scheme"
  assumes "bn_ready s" and "sys_table s \<noteq> NULL" and "0 < total_syscalls (static_table s)"
    and "unat (total_syscalls (static_table s)) \<le> length (sys_entry (static_table s))"
    and "child_at s child = Some c"
  shows "\<exists>num s'. pick_syscall default_rand_range child s = Some (0, s') \<and> num < total_syscalls (static_table s) \<and>
     child_at s' child = Some (let e = sys_entry (static_table s) ! unat num in
       c\<lparr>child_syscall_name := syscall_name e, syscall_number := num, child_total_args := total_args e,
         child_symbol := syscall_symbol e, child_need_alarm := need_alarm e, had_error := NX_NO\<rparr>)"
  by (rule cr.pick_valid [OF assms])

theorem table_built_witness:
  "\<exists>s'. build_syscall_table (syscall0\<lparr>static_table := linux_syscall_table\<rparr>) = Some (40, s') \<and>
     length (sys_entry (static_table s')) = unat (total_syscalls (static_table s'))"
proof -
  let ?s = "syscall0\<lparr>static_table := linux_syscall_table\<rparr>"
  have "wf_os ?s" using syscall0_ready(2) by (simp add: wf_os_def)
  then show ?thesis using table_built [of ?s] by auto
qed

theorem pick_syscall_valid_witness:
  "\<exists>s'. pick_syscall default_rand_range 30 (syscall0\<lparr>static_table := linux_syscall_table\<rparr>) = Some (0, s') \<and>
     child_syscall_name (the (child_at s' 30)) = ''read''"
proof -
  let ?s = "syscall0\<lparr>static_table := linux_syscall_table\<rparr>"
  have "bn_ready ?s" using syscall0_ready(1) bn_ready_cong [of ?s syscall0] by (simp add: gen_ready_def)
  then show ?thesis using pick_syscall_valid [of ?s 30 child0] by (auto simp: linux_syscall_table_def linux_entry_read_def new_entry_def)
qed

end
