(* ===== verification/Setup.thy ===== *)
theory Setup
  imports Table
begin

text \<open>
  The state that \<open>setup_syscall_module\<close> creates, and what the generation of arguments keeps of it: a
  context for each child, with no process, and with argument sizes that are zero and remain zero.
\<close>

section \<open>Child contexts\<close>

definition fresh_ctx :: "child_ctx \<Rightarrow> bool" where
  "fresh_ctx c \<longleftrightarrow> child_pid c = EMPTY \<and> current_arg c = 0 \<and> child_total_args c = 0 \<and> syscall_number c = 0 \<and>
     length (arg_value_array c) = 7 \<and> length (arg_copy_array c) = 7 \<and> arg_size_array c = replicate 7 0 \<and>
     did_jump c = NX_YES"

text \<open>Memory is granted and has been taken, but nothing else has changed.\<close>

definition grown :: "'z syscall_state_scheme \<Rightarrow> 'z syscall_state_scheme \<Rightarrow> bool" where
  "grown s s' \<longleftrightarrow> sysfix s' = sysfix s \<and> grant s' = grant s \<and> wf_os s' \<and> fresh s \<le> fresh s' \<and>
     table_set s' = table_set s"

lemma grown_trans: "grown s t \<Longrightarrow> grown t u \<Longrightarrow> grown s u"
  by (auto simp: grown_def)

lemma alloc_shared_grown:
  assumes "\<forall>k. grant s k" and "wf_os s" and "n \<noteq> 0"
  shows "\<exists>s'. default_mem_alloc_shared n s = (fresh s, s') \<and> grown s s' \<and> fresh s < fresh s'"
proof -
  obtain s' where run: "mmap n s = (Some (fresh s), s')" "sysfix s' = sysfix s" "grant s' = grant s"
      "table_set s' = table_set s" "fresh s' = fresh s + 1"
    using assms by (simp add: mmap_def)
  with wf_os_mmap [OF assms(2) run(1)] show ?thesis by (simp add: default_mem_alloc_shared_def grown_def)
qed

lemma alloc_sharedE:
  assumes "\<forall>k. grant s k" and "wf_os s" and "n \<noteq> 0"
  obtains s' where "default_mem_alloc_shared n s = (fresh s, s')" and "grown s s'" and "fresh s < fresh s'"
    and "\<forall>k. grant s' k" and "wf_os s'" and "0 < fresh s"
  using alloc_shared_grown [OF assms] assms(1) wf_os_pos [OF assms(2)] by (auto simp: grown_def)

lemma arg_bufs_loop_ok:
  assumes "\<forall>k. grant s k" and "wf_os s"
  shows "\<exists>vs cs s'. arg_bufs_loop n i c s = (True, c\<lparr>arg_value_array := vs, arg_copy_array := cs\<rparr>, s') \<and>
     length vs = length (arg_value_array c) \<and> length cs = length (arg_copy_array c) \<and> grown s s'"
  using assms
proof (induction n arbitrary: i c s)
  case 0
  then show ?case
    by (intro exI [of _ "arg_value_array c"] exI [of _ "arg_copy_array c"] exI [of _ s]) (simp add: grown_def)
next
  case (Suc n)
  have big: "ARG_BUF_LEN \<noteq> 0" by (simp add: ARG_BUF_LEN_def)
  obtain t where t: "default_mem_alloc_shared ARG_BUF_LEN s = (fresh s, t)" "grown s t" "\<forall>k. grant t k" "wf_os t"
    "0 < fresh s" by (rule alloc_sharedE [OF Suc.prems big])
  obtain u where u: "default_mem_alloc_shared ARG_BUF_LEN t = (fresh t, u)" "grown t u" "\<forall>k. grant u k" "wf_os u"
    "0 < fresh t" by (rule alloc_sharedE [OF t(3,4) big])
  let ?c = "c\<lparr>arg_value_array := (arg_value_array c)[i := fresh s], arg_copy_array := (arg_copy_array c)[i := fresh t]\<rparr>"
  from Suc.IH [OF u(3,4), of "i + 1" ?c] obtain vs cs s' where
    "arg_bufs_loop n (i + 1) ?c u = (True, ?c\<lparr>arg_value_array := vs, arg_copy_array := cs\<rparr>, s')"
    "length vs = length (arg_value_array ?c)" "length cs = length (arg_copy_array ?c)" "grown u s'" by blast
  then show ?case using t u grown_trans [OF grown_trans [OF t(2) u(2)]]
    by (intro exI [of _ vs] exI [of _ cs] exI [of _ s']) simp
qed

lemma init_child_context_ok:
  assumes "\<forall>k. grant s k" and "wf_os s"
  shows "\<exists>c t. init_child_context s = (fresh s, t\<lparr>child_at := (child_at s)(fresh s \<mapsto> c)\<rparr>) \<and>
     fresh_ctx c \<and> grown s t \<and> fresh s < fresh t \<and> 0 < fresh s"
proof -
  have nz: "sizeof_child_ctx \<noteq> 0" "ucast ARG_LIMIT * 8 \<noteq> (0 :: u64)" by (simp_all add: sizeof_child_ctx_def ARG_LIMIT_def)
  obtain t1 where 1: "default_mem_alloc_shared sizeof_child_ctx s = (fresh s, t1)" "grown s t1" "fresh s < fresh t1"
    "\<forall>k. grant t1 k" "wf_os t1" "0 < fresh s" by (rule alloc_sharedE [OF assms nz(1)])
  obtain t2 where 2: "default_mem_alloc_shared (ucast ARG_LIMIT * 8) t1 = (fresh t1, t2)" "grown t1 t2"
    "\<forall>k. grant t2 k" "wf_os t2" "0 < fresh t1" by (rule alloc_sharedE [OF 1(4,5) nz(2)])
  obtain t3 where 3: "default_mem_alloc_shared (ucast ARG_LIMIT * 8) t2 = (fresh t2, t3)" "grown t2 t3"
    "\<forall>k. grant t3 k" "wf_os t3" "0 < fresh t2" by (rule alloc_sharedE [OF 2(3,4) nz(2)])
  obtain t4 where 4: "default_mem_alloc_shared (ucast ARG_LIMIT * 8) t3 = (fresh t3, t4)" "grown t3 t4"
    "\<forall>k. grant t4 k" "wf_os t4" "0 < fresh t3" by (rule alloc_sharedE [OF 3(3,4) nz(2)])
  let ?c = "zero_ctx\<lparr>current_arg := 0, arg_value_array := replicate 7 NULL, arg_size_array := replicate 7 0,
     arg_copy_array := replicate 7 NULL\<rparr>"
  obtain vs cs t where 5: "arg_bufs_loop 7 0 ?c t4 = (True, ?c\<lparr>arg_value_array := vs, arg_copy_array := cs\<rparr>, t)"
    "length vs = 7" "length cs = 7" "grown t4 t" using arg_bufs_loop_ok [OF 4(3,4), of 7 0 ?c] by auto
  have g: "grown t1 t" "grown s t"
    using grown_trans [OF 2(2) grown_trans [OF 3(2) grown_trans [OF 4(2) 5(4)]]] grown_trans [OF 1(2)] by blast+
  then have "child_at t = child_at s" "fresh s < fresh t" using 1(3) by (simp_all add: grown_def sysfix_def)
  moreover have "unat ARG_LIMIT = 7" by (simp add: ARG_LIMIT_def)
  ultimately show ?thesis using 1 2 3 4 5 g(2)
    by (intro exI [of _ "?c\<lparr>arg_value_array := vs, arg_copy_array := cs\<rparr>"] exI [of _ t])
      (simp add: init_child_context_def fresh_ctx_def zero_ctx_def)
qed

definition statics where
  "statics s = (static_table s, sys_table s, total_children s, running_children s, global_state s, table_set s,
     answer s, grant s)"

lemma grown_statics: "grown s t \<Longrightarrow> statics t = statics s \<and> children t = children s \<and> child_at t = child_at s"
  by (simp add: grown_def statics_def sysfix_def)

lemma children_loop_ok:
  assumes "\<forall>k. grant s k" and "wf_os s" and "length (children s) = i + n"
  shows "\<exists>cs s'. children_loop n i s = (True, s') \<and> children s' = take i (children s) @ cs \<and> length cs = n \<and>
     distinct cs \<and> (\<forall>p \<in> set cs. fresh s \<le> p \<and> (\<exists>c. child_at s' p = Some c \<and> fresh_ctx c)) \<and>
     (\<forall>p < fresh s. child_at s' p = child_at s p) \<and> statics s' = statics s \<and> wf_os s'"
  using assms
proof (induction n arbitrary: i s)
  case 0
  then show ?case by simp
next
  case (Suc n)
  obtain c t where t: "init_child_context s = (fresh s, t\<lparr>child_at := (child_at s)(fresh s \<mapsto> c)\<rparr>)" "fresh_ctx c"
    "grown s t" "fresh s < fresh t" "0 < fresh s" using init_child_context_ok [OF Suc.prems(1,2)] by blast
  let ?s = "t\<lparr>child_at := (child_at s)(fresh s \<mapsto> c), children := (children t)[i := fresh s]\<rparr>"
  have st: "statics ?s = statics s" and ch: "children ?s = (children s)[i := fresh s]"
    using grown_statics [OF t(3)] by (simp_all add: statics_def)
  have "\<forall>k. grant ?s k" "wf_os ?s" using t(3) Suc.prems(1) by (simp_all add: grown_def wf_os_def)
  then obtain cs s' where IH: "children_loop n (i + 1) ?s = (True, s')" "children s' = take (i + 1) (children ?s) @ cs"
    "length cs = n" "distinct cs" "\<forall>p \<in> set cs. fresh ?s \<le> p \<and> (\<exists>c. child_at s' p = Some c \<and> fresh_ctx c)"
    "\<forall>p < fresh ?s. child_at s' p = child_at ?s p" "statics s' = statics ?s" "wf_os s'"
    using Suc.IH [of ?s "i + 1"] Suc.prems(3) ch by auto
  have "take (i + 1) (children ?s) = take i (children s) @ [fresh s]"
    using Suc.prems(3) unfolding ch by (simp add: take_Suc_conv_app_nth)
  moreover have "fresh s \<notin> set cs" using IH(5) t(4) by auto
  moreover have "child_at s' (fresh s) = Some c" "\<forall>p < fresh s. child_at s' p = child_at s p" using IH(6) t(4) by auto
  ultimately show ?case using t IH st by (intro exI [of _ "fresh s # cs"] exI [of _ s']) auto
qed

lemma core_count_ok:
  assumes "0 \<le> fst (answer s (length (trace s)) ''sysctl'' [])"
  shows "\<exists>cores. get_core_count n s = (0, cores, s\<lparr>trace := trace s @ [(''sysctl'', [])]\<rparr>) \<and> 0 < cores"
proof -
  obtain a b where a: "answer s (length (trace s)) ''sysctl'' [] = (a, b)" by (cases "answer s (length (trace s)) ''sysctl'' []")
  have "0 < (if (word_of_int b :: u32) < 1 then 1 else word_of_int b :: u32)"
    by (simp add: not_less word_le_nat_alt word_less_nat_alt)
  with a assms show ?thesis by (simp add: get_core_count_def ext2_def)
qed

lemma array_size_nonzero:
  assumes "0 < (n :: u32)"
  shows "ucast n * 8 \<noteq> (0 :: u64)"
proof -
  have "unat (ucast n * 8 :: u64) = unat n * 8"
    using unat_u32_less [of n] by (simp add: unat_word_ariths unsigned_ucast_eq take_bit_nat_eq_self)
  moreover have "0 < unat n" using assms by (simp add: word_less_nat_alt)
  ultimately show ?thesis by fastforce
qed

lemma build_table_grown:
  assumes "\<forall>k. grant s k" and "wf_os s"
    and "static_table s \<in> {linux_syscall_table, freebsd_syscall_table, mac_osx_syscall_table}"
  shows "\<exists>t es. build_syscall_table s = Some (fresh s, t\<lparr>static_table := (static_table s)\<lparr>sys_entry := es\<rparr>\<rparr>) \<and>
     grown s t \<and> 0 < fresh s"
proof -
  obtain t where t: "default_mem_alloc_shared 456 s = (fresh s, t)" "grown s t" "0 < fresh s"
    by (rule alloc_sharedE [OF assms(1,2), of 456]) simp_all
  then have same: "static_table t = static_table s" by (simp add: grown_def sysfix_def)
  have fits: "table_fits (static_table s)" using assms(3) tables_fit by auto
  with t same entries_loop_spec [of 0 "unat (total_syscalls (static_table s))" "sys_entry (static_table s)" t]
  show ?thesis by (auto simp: build_syscall_table_def table_fits_def Let_def)
qed

lemma setup_module_state:
  assumes "\<forall>k. grant s k" and "wf_os s" and "child_at s NULL = None" and "table_set s = 0"
    and "static_table s \<in> {linux_syscall_table, freebsd_syscall_table, mac_osx_syscall_table}"
    and "0 \<le> fst (answer s (length (trace s)) ''sysctl'' [])"
  shows "\<exists>s'. setup_syscall_module stop_p m e s = Some (0, s') \<and> children_ok s' \<and> running_children s' = 0 \<and>
     0 < total_children s' \<and> sys_table s' \<noteq> NULL \<and> table_set s' = TRUE \<and> run_mode s' = m \<and>
     total_syscalls (static_table s') = total_syscalls (static_table s) \<and>
     (\<forall>p \<in> set (children s'). \<exists>c. child_at s' p = Some c \<and> fresh_ctx c) \<and>
     answer s' = answer s \<and> grant s' = grant s \<and> wf_os s'"
proof -
  obtain cores where cores: "get_core_count (total_children s) s = (0, cores, s\<lparr>trace := trace s @ [(''sysctl'', [])]\<rparr>)"
    "0 < cores" using core_count_ok [OF assms(6)] by blast
  let ?t = "s\<lparr>trace := trace s @ [(''sysctl'', [])], total_children := cores\<rparr>"
  have tt: "\<forall>k. grant ?t k" "wf_os ?t" "static_table ?t = static_table s" "child_at ?t = child_at s" "table_set ?t = 0"
    using assms(1,2,4) by (simp_all add: wf_os_def)
  obtain u es where u: "build_syscall_table ?t = Some (fresh s, u\<lparr>static_table := (static_table s)\<lparr>sys_entry := es\<rparr>\<rparr>)"
    "grown ?t u" "0 < fresh s" using build_table_grown [OF tt(1,2)] assms(5) by auto
  let ?u = "u\<lparr>static_table := (static_table s)\<lparr>sys_entry := es\<rparr>, sys_table := fresh s\<rparr>"
  have uu: "\<forall>k. grant ?u k" "wf_os ?u" "child_at ?u = child_at s" "total_children ?u = cores"
    using u(2) tt(1) by (simp_all add: grown_def wf_os_def sysfix_def)
  obtain v where v: "default_mem_alloc_shared 16 ?u = (fresh ?u, v)" "grown ?u v" "\<forall>k. grant v k" "wf_os v" "0 < fresh ?u"
    by (rule alloc_sharedE [OF uu(1,2), of 16]) simp_all
  let ?v = "v\<lparr>global_state := fresh ?u, running_children := 0\<rparr>"
  have vv: "\<forall>k. grant ?v k" "wf_os ?v" using v(3,4) by (simp_all add: wf_os_def)
  have nz: "ucast cores * 8 \<noteq> (0 :: u64)" by (rule array_size_nonzero [OF cores(2)])
  obtain w where w: "default_mem_alloc_shared (ucast cores * 8) ?v = (fresh ?v, w)" "grown ?v w" "\<forall>k. grant w k" "wf_os w"
    "0 < fresh ?v" by (rule alloc_sharedE [OF vv nz])
  let ?w = "w\<lparr>children := replicate (unat cores) NULL\<rparr>"
  have same: "statics v = statics ?u" "child_at v = child_at s" "statics w = statics ?v" "child_at w = child_at v"
    using grown_statics [OF v(2)] grown_statics [OF w(2)] uu(3) by simp_all
  have ww: "\<forall>k. grant ?w k" "wf_os ?w" using w(3,4) by (simp_all add: wf_os_def)
  obtain cs x where x: "children_loop (unat cores) 0 ?w = (True, x)" "children x = cs" "length cs = unat cores" "distinct cs"
    "\<forall>p \<in> set cs. fresh ?w \<le> p \<and> (\<exists>c. child_at x p = Some c \<and> fresh_ctx c)"
    "\<forall>p < fresh ?w. child_at x p = child_at ?w p" "statics x = statics ?w" "wf_os x"
    using children_loop_ok [OF ww, of 0 "unat cores"] by auto
  have pos: "0 < fresh ?w" using wf_os_pos [OF ww(2)] .
  have st: "total_children x = cores" "running_children x = 0" "sys_table x = fresh s" "total_syscalls (static_table x) = total_syscalls (static_table s)"
      "answer x = answer s" "grant x = grant s"
    using x(7) same uu(4) u(2) by (simp_all add: statics_def grown_def sysfix_def)
  let ?x = "x\<lparr>stop_ptr := stop_p, run_mode := m, epoch_global := e, table_set := TRUE\<rparr>"
  have "setup_syscall_module stop_p m e s = Some (0, ?x)"
    using cores tt u v w x same uu(4) by (simp add: setup_syscall_module_def get_syscall_table_def statics_def TRUE_def)
  moreover have "children_ok ?x"
    using x pos st(1) same assms(3) by (auto simp: children_ok_def)
  moreover have "wf_os ?x" using x(8) by (simp add: wf_os_def)
  ultimately show ?thesis using st cores(2) u(3) x(2,5) by auto
qed



section \<open>Argument sizes\<close>

lemma upd_child_at: "upd_child p f s = Some s' \<Longrightarrow> \<exists>c. child_at s p = Some c \<and> child_at s' = (child_at s)(p \<mapsto> f c)"
  by (auto simp: upd_child_def elim!: bind_SomeE)

text \<open>What a step of the loop does to the contexts: nothing but to the value array and the current argument
  of the one.\<close>

definition args_only :: "ptr \<Rightarrow> 'z syscall_state_scheme \<Rightarrow> 'z syscall_state_scheme \<Rightarrow> bool" where
  "args_only ctx s s' \<longleftrightarrow> (\<forall>p. p \<noteq> ctx \<longrightarrow> child_at s' p = child_at s p) \<and>
     (\<forall>c. child_at s ctx = Some c \<longrightarrow>
        (\<exists>k vs. child_at s' ctx = Some (c\<lparr>current_arg := k, arg_value_array := vs\<rparr>)))"

lemma args_only_refl: "child_at s' = child_at s \<Longrightarrow> args_only ctx s s'"
  unfolding args_only_def by (metis child_ctx.surjective child_ctx.update_convs(4,7))

lemma args_only_trans: "args_only ctx s t \<Longrightarrow> args_only ctx t u \<Longrightarrow> args_only ctx s u"
  unfolding args_only_def by fastforce

lemma generator_args_only: "call_generator g ctx p s = Some (r, q, s') \<Longrightarrow> args_only ctx s s'"
  by (rule args_only_refl) (auto dest: call_generator_sysfix simp: sysfix_def)

lemma args_only_sizes:
  "args_only ctx s s' \<Longrightarrow> child_at s ctx = Some c \<Longrightarrow>
     \<exists>c'. child_at s' ctx = Some c' \<and> arg_size_array c' = arg_size_array c \<and> arg_copy_array c' = arg_copy_array c"
  by (fastforce simp: args_only_def)

lemma last_arg_smaller: "unat (last_arg_of k) \<le> unat k"
proof (cases "k = 0")
  case False
  then have "1 \<le> k" by (simp add: word_le_nat_alt Suc_le_eq unat_gt_0)
  then show ?thesis using False by (simp add: last_arg_of_def unat_sub)
qed (simp add: last_arg_of_def)

lemma upd_args_only:
  assumes "upd_child ctx f s = Some s'" and "\<And>c. \<exists>k vs. f c = c\<lparr>current_arg := k, arg_value_array := vs\<rparr>"
  shows "args_only ctx s s'"
  using upd_child_at [OF assms(1)] assms(2) by (auto simp: args_only_def)

lemma memcpy_args_only: "memcpy d v n s = Some s' \<Longrightarrow> args_only ctx s s'"
  by (rule args_only_refl) (auto simp: memcpy_def store_bytes_def split: if_splits)

lemma print_args_only: "args_only ctx s (console_output t m s)"
  by (rule args_only_refl) (cases t; simp add: printing_defs)

lemma current_only: "\<exists>k vs. c\<lparr>current_arg := j\<rparr> = c\<lparr>current_arg := k, arg_value_array := vs\<rparr>"
  by (rule exI [of _ j], rule exI [of _ "arg_value_array c"]) (cases c; simp)

lemma values_only: "\<exists>k vs. c\<lparr>arg_value_array := ws\<rparr> = c\<lparr>current_arg := k, arg_value_array := vs\<rparr>"
  by (rule exI [of _ "current_arg c"], rule exI [of _ ws]) (cases c; simp)

lemma gen_args_loop_args_only:
  assumes "gen_args_loop ctx n i s = Some (r, s')"
  shows "args_only ctx s s'"
  using assms
proof (induction n arbitrary: i s)
  case 0
  then show ?case by (simp add: args_only_refl)
next
  case (Suc n)
  from Suc.prems obtain s1 c entry where 1: "upd_child ctx (\<lambda>c. c\<lparr>current_arg := word_of_nat i\<rparr>) s = Some s1"
      "child_at s1 ctx = Some c" "get_entry (syscall_number c) s1 = Some entry"
    by (auto elim!: bind_SomeE)
  have a1: "args_only ctx s s1" by (rule upd_args_only [OF 1(1)]) (rule current_only)
  show ?case
  proof (cases entry)
    case None
    with Suc.prems 1 show ?thesis using args_only_trans [OF a1 print_args_only] by auto
  next
    case (Some e)
    with Suc.prems 1 obtain g r2 p s2 s3 where 2: "call_generator g ctx (arg_value_array c ! i) s1 = Some (r2, p, s2)"
      "upd_child ctx (\<lambda>c. c\<lparr>arg_value_array := (arg_value_array c)[i := p]\<rparr>) s2 = Some s3"
      and g: "get_arg_array e ! i = Some g" "i < length (arg_value_array c)" "i < length (arg_copy_array c)"
        "i < length (arg_size_array c)" "i < length (get_arg_array e)"
      by (auto elim!: bind_SomeE split: if_splits)
    have "args_only ctx s2 s3" by (rule upd_args_only [OF 2(2)]) (rule values_only)
    with a1 generator_args_only [OF 2(1)] have a3: "args_only ctx s s3" by (blast intro: args_only_trans)
    show ?thesis
    proof (cases "r2 < 0")
      case True
      with Suc.prems 1 2 g Some show ?thesis using args_only_trans [OF a3 print_args_only] by auto
    next
      case False
      with Suc.prems 1 2 g Some obtain d v m s4 where "memcpy d v m s3 = Some s4"
        "gen_args_loop ctx n (i + 1) s4 = Some (r, s')" by (auto elim!: bind_SomeE)
      with a3 Suc.IH show ?thesis by (blast intro: args_only_trans memcpy_args_only)
    qed
  qed
qed

text \<open>C13. No argument ever has a size. From a context whose sizes are zero, as the set-up makes it, every
  length that is generated is zero, and the generation of the arguments keeps the sizes at zero, so that
  the copy of each argument, from which its resource is released later, is a copy of no bytes. The
  arrays of copies and of sizes and all other contexts stay as they are.\<close>

theorem sizes_stay_zero:
  fixes s :: "'z syscall_state_scheme"
  assumes "child_at s ctx = Some c" and "arg_size_array c = replicate 7 0" and "current_arg c < 7"
    and "grant s (asked s)" and "wf_os s"
  shows "(\<exists>s'. generate_length ctx a s = Some (0, fresh s, s') \<and> load64 (fresh s) s' = Some 0) \<and>
     (\<forall>r s'. generate_arguments ctx s = Some (r, s') \<longrightarrow>
        (\<forall>p. p \<noteq> ctx \<longrightarrow> child_at s' p = child_at s p) \<and>
        (\<exists>c'. child_at s' ctx = Some c' \<and> arg_size_array c' = replicate 7 0 \<and> arg_copy_array c' = arg_copy_array c \<and>
           (\<forall>i < 7. \<forall>p q. memcpy p q (arg_size_array c' ! i) s' = Some s')))"
proof
  let ?t = "s\<lparr>asked := asked s + 1, fresh := fresh s + 1, heap := (heap s)(fresh s \<mapsto> 8)\<rparr>"
  have lt: "unat (last_arg_of (current_arg c)) < 7" "\<not> ARG_LIMIT < last_arg_of (current_arg c)"
    using assms(3) last_arg_smaller [of "current_arg c"] by (simp_all add: ARG_LIMIT_def word_less_nat_alt)
  then have size0: "get_arg_size ctx (last_arg_of (current_arg c)) 0 ?t = Some (0, 0, ?t)"
    using assms(1,2) by (simp add: get_arg_size_def)
  have "room (fresh s) 8 ?t" by (simp add: room_def)
  then obtain s' where "store64 (fresh s) 0 ?t = Some s'" by (auto simp: store64_def store_bytes_def le_bytes_def)
  with load_store64 [OF this] size0 assms(1) show "\<exists>s'. generate_length ctx a s = Some (0, fresh s, s') \<and> load64 (fresh s) s' = Some 0"
    using alloc_then [OF assms(4) wf_os_pos [OF assms(5)], of 8]
    by (simp add: generate_length_def get_current_arg_def set_arg_size_def)
next
  show "\<forall>r s'. generate_arguments ctx s = Some (r, s') \<longrightarrow>
        (\<forall>p. p \<noteq> ctx \<longrightarrow> child_at s' p = child_at s p) \<and>
        (\<exists>c'. child_at s' ctx = Some c' \<and> arg_size_array c' = replicate 7 0 \<and> arg_copy_array c' = arg_copy_array c \<and>
           (\<forall>i < 7. \<forall>p q. memcpy p q (arg_size_array c' ! i) s' = Some s'))"
  proof (intro allI impI)
    fix r s'
    assume "generate_arguments ctx s = Some (r, s')"
    then have only: "args_only ctx s s'"
      using assms(1) by (auto simp: generate_arguments_def dest: gen_args_loop_args_only)
    from args_only_sizes [OF only assms(1)] assms(2) only show
      "(\<forall>p. p \<noteq> ctx \<longrightarrow> child_at s' p = child_at s p) \<and>
        (\<exists>c'. child_at s' ctx = Some c' \<and> arg_size_array c' = replicate 7 0 \<and> arg_copy_array c' = arg_copy_array c \<and>
           (\<forall>i < 7. \<forall>p q. memcpy p q (arg_size_array c' ! i) s' = Some s'))"
      by (auto simp: args_only_def memcpy_def)
  qed
qed

theorem sizes_stay_zero_witness:
  "\<exists>s'. generate_length 30 0 syscall0 = Some (0, 40, s') \<and> load64 40 s' = Some 0"
  using sizes_stay_zero [of syscall0 30 child0 0] syscall0_ready(2) by (simp add: child0_def)

end
