(* ===== verification/Child_Epoch.thy ===== *)
theory Child_Epoch
  imports Setup
begin

text \<open>
  The epoch sections of a child across the return from \<open>setjmp\<close>. The functions that release the
  resources of an argument are behind the pointers of the resource generator; what the child relies on
  is the locale \<open>child_services\<close>: they free at most the block they are given and leave the contexts of
  the threads and of the children alone. The functions of the resource module are such services.
\<close>

section \<open>What a service may change\<close>

definition core where
  "core s = (sysfix s, threads s, actives s, slots s, grant s, fresh s, heap s, regions s)"

definition keeps :: "ptr \<Rightarrow> 'z syscall_state_scheme \<Rightarrow> 'z syscall_state_scheme \<Rightarrow> bool" where
  "keeps p s s' \<longleftrightarrow> sysfix s' = sysfix s \<and> threads s' = threads s \<and> actives s' = actives s \<and> slots s' = slots s \<and>
     grant s' = grant s \<and> (wf_os s \<longrightarrow> wf_os s') \<and> fresh s \<le> fresh s' \<and>
     (\<forall>q < fresh s. heap s' q = heap s q \<or> q = p \<and> heap s' q = None)"

lemma keeps_trans:
  assumes "keeps p s t" and "keeps p t u"
  shows "keeps p s u"
proof -
  have "heap u q = heap s q \<or> q = p \<and> heap u q = None" if "q < fresh s" for q
  proof -
    have "q < fresh t" using that assms(1) by (simp add: keeps_def)
    then have "heap u q = heap t q \<or> q = p \<and> heap u q = None" using assms(2) by (simp add: keeps_def)
    moreover have "heap t q = heap s q \<or> q = p \<and> heap t q = None" using that assms(1) by (simp add: keeps_def)
    ultimately show ?thesis by auto
  qed
  with assms show ?thesis by (simp add: keeps_def)
qed

lemma core_keeps: "core s' = core s \<Longrightarrow> keeps p s s'"
  by (auto simp: core_def keeps_def intro: wf_os_cong [THEN iffD2])

lemma core_simps [simp]:
  "core (s\<lparr>bytes := e\<rparr>) = core s" "core (s\<lparr>console := f\<rparr>) = core s" "core (s\<lparr>trace := g\<rparr>) = core s"
  "core (s\<lparr>nexts := h\<rparr>) = core s" "core (s\<lparr>pools := i\<rparr>) = core s" "core (s\<lparr>files := j\<rparr>) = core s"
  "core (s\<lparr>dirs := k\<rparr>) = core s" "core (s\<lparr>fds := l\<rparr>) = core s"
  "core (printf m s) = core s" "core (console_output t m s) = core s"
  by (simp_all add: core_def printing_defs split: out_type.split)

lemma core_ext: "ext f a s = (r, s') \<Longrightarrow> core s' = core s" "ext2 f a s = (rr, s') \<Longrightarrow> core s' = core s"
  by (auto simp: ext_eq ext2_def)

lemma malloc_keeps: "malloc n s = (q, s') \<Longrightarrow> keeps p s s'"
  by (auto simp: keeps_def malloc_def sysfix_def wf_os_def less_Suc_eq split: if_splits)

lemma keeps_refl [simp]: "keeps p s s"
  by (simp add: keeps_def)

lemma object_keeps:
  "get_console_writter s = (q, s') \<Longrightarrow> keeps p s s'"
  "get_default_allocator s = (q, s') \<Longrightarrow> keeps p s s'"
  by (auto simp: get_console_writter_def get_default_allocator_def default_mem_alloc_def
      intro: malloc_keeps keeps_trans [OF malloc_keeps core_keeps] split: if_splits prod.splits)

lemma free_keeps: "default_mem_free p s = Some (q, s') \<Longrightarrow> keeps p s s'"
  by (auto simp: default_mem_free_def free_def keeps_def sysfix_def wf_os_def split: if_splits)

section \<open>The resource module\<close>

lemma core_pool_steps:
  "spinlock_lock q s = Some s' \<Longrightarrow> core s' = core s"
  "spinlock_unlock q s = Some s' \<Longrightarrow> core s' = core s"
  "allocated_list_remove q b s = Some s' \<Longrightarrow> core s' = core s"
  "free_list_insert_head q b s = Some s' \<Longrightarrow> core s' = core s"
  by (auto simp: spinlock_lock_def spinlock_unlock_def allocated_list_remove_def free_list_insert_head_def
      elim!: bind_SomeE split: if_splits)

lemma core_free_matching: "free_matching f pool s = Some s' \<Longrightarrow> core s' = core s"
  by (auto simp: free_matching_def mem_free_shared_block_def dest!: core_pool_steps elim!: bind_SomeE split: if_splits)

lemma core_stat_path: "stat_path p s = (r, s') \<Longrightarrow> core s' = core s"
  by (auto simp: stat_path_def dest!: core_ext split: if_splits prod.splits)

lemma core_delete_entries: "delete_entries dir walk s = (r, s') \<Longrightarrow> core s' = core s"
proof (induction walk arbitrary: s)
  case Nil
  then show ?case by (auto dest!: core_ext split: if_splits prod.splits)
next
  case (Cons a walk)
  then show ?case by (cases a) (fastforce dest!: core_ext core_stat_path split: if_splits prod.splits)
qed

lemma core_delete_directory: "delete_directory walk path s = (r, s') \<Longrightarrow> core s' = core s"
  by (auto simp: delete_directory_def delete_dir_contents_def dest!: core_ext core_stat_path core_delete_entries
      split: if_splits prod.splits option.splits)

lemma nocached_keeps:
  "free_desc_nocached p s = Some (r, s') \<Longrightarrow> keeps p s s'"
  "free_socket_nocached p s = Some (r, s') \<Longrightarrow> keeps p s s'"
  by (auto simp: free_desc_nocached_def free_socket_nocached_def dest!: core_ext core_keeps [where p = p]
      elim!: bind_SomeE split: prod.splits)

lemma path_free_keeps:
  assumes "(if p = NULL then Some (-1, p, s)
      else
        let (writter, s) = get_console_writter s in
        if writter = NULL then Some (-1, p, printf m s)
        else
          let (allocator, s) = get_default_allocator s in
          if allocator = NULL then Some (-1, p, console_output ERROR m' s) else k s) = Some (r, q, s')"
    and "\<And>u. k u = Some (r, q, s') \<Longrightarrow> keeps p u s'"
  shows "keeps p s s'"
proof (cases "p = NULL")
  case False
  obtain w t where t: "get_console_writter s = (w, t)" by (cases "get_console_writter s")
  obtain a u where u: "get_default_allocator t = (a, u)" by (cases "get_default_allocator t")
  have st: "keeps p s t" by (rule object_keeps(1) [OF t])
  with object_keeps(2) [OF u] have su: "keeps p s u" by (rule keeps_trans [rotated])
  consider "w = NULL" "s' = printf m t" | "a = NULL" "s' = console_output ERROR m' u" | "k u = Some (r, q, s')"
    using assms(1) False t u by (auto split: if_splits)
  then show ?thesis
  proof cases
    case 1
    then show ?thesis by (simp add: keeps_trans [OF st core_keeps])
  next
    case 2
    then show ?thesis by (simp add: keeps_trans [OF su core_keeps])
  next
    case 3
    then show ?thesis by (rule keeps_trans [OF su assms(2)])
  qed
qed (use assms(1) in auto)

lemma core_then_free:
  "core u = core s \<Longrightarrow> default_mem_free p u = Some (q, s') \<Longrightarrow> keeps p s s'"
  "core u = core s \<Longrightarrow> default_mem_free p (u\<lparr>files := f\<rparr>) = Some (q, s') \<Longrightarrow> keeps p s s'"
  by (rule keeps_trans [OF core_keeps free_keeps]; simp)+

lemma core_then_print: "core u = core s \<Longrightarrow> keeps p s (console_output k m u)"
  by (rule core_keeps) simp

lemma path_nocached_keeps:
  "free_filepath_nocached p s = Some (r, q, s') \<Longrightarrow> keeps p s s'"
  "free_dirpath_nocached p s = Some (r, q, s') \<Longrightarrow> keeps p s s'"
  unfolding free_filepath_nocached_def free_dirpath_nocached_def
  by (erule path_free_keeps; auto dest!: core_ext core_delete_directory elim!: bind_SomeE split: if_splits prod.splits
      intro: core_then_print core_then_free)+

lemma cached_keeps:
  "free_desc_cached p s = Some (r, s') \<Longrightarrow> keeps p s s'"
  "free_socket_cached p s = Some (r, s') \<Longrightarrow> keeps p s s'"
  "free_filepath_cached p s = Some (r, q, s') \<Longrightarrow> keeps p s s'"
  "free_dirpath_cached p s = Some (r, q, s') \<Longrightarrow> keeps p s s'"
  by (auto simp: free_desc_cached_def free_socket_cached_def free_filepath_cached_def free_dirpath_cached_def
      dest!: core_free_matching intro: core_keeps elim!: bind_SomeE)

lemma module_keeps:
  "free_desc p s = Some (r, s') \<Longrightarrow> keeps p s s'"
  "free_socket p s = Some (r, s') \<Longrightarrow> keeps p s s'"
  "free_filepath p s = Some (r, q, s') \<Longrightarrow> keeps p s s'"
  "free_dirpath p s = Some (r, q, s') \<Longrightarrow> keeps p s s'"
  by (auto simp: free_desc_def free_socket_def free_filepath_def free_dirpath_def
      intro: cached_keeps nocached_keeps path_nocached_keeps core_keeps
      split: if_splits option.splits rsrc_gen_type.splits)

section \<open>Services of a child\<close>

text \<open>An address that is no block of the heap and will never be one.\<close>

definition foreign :: "'z os_scheme \<Rightarrow> ptr \<Rightarrow> bool" where
  "foreign s p \<longleftrightarrow> heap s p = None \<and> p < fresh s"

text \<open>The thread has \<open>n\<close> open sections, and the copies of the arguments are foreign.\<close>

definition sound :: "ptr \<Rightarrow> nat \<Rightarrow> ptr \<Rightarrow> 'z syscall_state_scheme \<Rightarrow> bool" where
  "sound t n ctx s \<longleftrightarrow> epoch_ok t n s \<and>
     (\<exists>c. child_at s ctx = Some c \<and> (\<forall>p \<in> set (arg_copy_array c). foreign s p))"

lemma foreign_NULL: "wf_os s \<Longrightarrow> foreign s NULL"
  by (cases "heap s NULL") (auto simp: foreign_def wf_os_def)

lemma foreign_keeps: "keeps p s s' \<Longrightarrow> foreign s q \<Longrightarrow> foreign s' q"
  by (cases "q = p") (auto simp: keeps_def foreign_def)

lemma epoch_keeps:
  assumes "keeps p s s'" and "foreign s p" and "epoch_ok t n s"
  shows "epoch_ok t n s'"
  using assms(3)
proof (rule epoch_okE)
  fix ctx
  assume c: "threads s t = Some ctx" "wf_os s" "n \<le> 8" "section_count ctx = word_of_nat n" "buf_size ctx = 8"
    "heap s (section_arr ctx) = Some 64" "actives s (epoch_rec ctx) = Some (word_of_nat n)"
    "distinct (map (slots s (section_arr ctx)) [0..<n])"
    "\<forall>i<n. heap s (slots s (section_arr ctx) i) = Some 4"
  have same: "heap s' q = Some m" if "heap s q = Some m" for q m
  proof -
    have "q < fresh s" "q \<noteq> p" using that c(2) assms(2) by (auto simp: wf_os_def foreign_def)
    with assms(1) that show ?thesis by (auto simp: keeps_def)
  qed
  show ?thesis
    by (rule epoch_okI [of _ _ ctx]) (use c assms(1) same in \<open>auto simp: keeps_def\<close>)
qed

lemma keeps_child_at: "keeps p s s' \<Longrightarrow> child_at s' = child_at s"
  by (simp add: keeps_def sysfix_def)

lemma sound_keeps: "keeps p s s' \<Longrightarrow> foreign s p \<Longrightarrow> sound t n ctx s \<Longrightarrow> sound t n ctx s'"
  using epoch_keeps [of p s s' t n] foreign_keeps [of p s s'] keeps_child_at [of p s s'] by (auto simp: sound_def)

lemma sound_wf: "sound t n ctx s \<Longrightarrow> wf_os s"
  by (auto simp: sound_def epoch_ok_def)

lemma sound_core:
  fixes s s' :: "'z syscall_state_scheme"
  assumes "core s' = core s" and "sound t n ctx s"
  shows "sound t n ctx s'"
  by (rule sound_keeps [OF core_keeps [OF assms(1)] foreign_NULL [OF sound_wf [OF assms(2)]] assms(2)])

lemma sound_print [simp]: "sound t n ctx s \<Longrightarrow> sound t n ctx (console_output k m s)"
  by (rule sound_core) simp_all

lemma epoch_ok_child_at [simp]: "epoch_ok t n (s\<lparr>child_at := m\<rparr>) = epoch_ok t n s"
  by (cases "threads s t") (simp_all add: epoch_ok_def wf_os_def)

lemma sound_update:
  assumes "sound t n ctx s" and "upd_child ctx f s = Some s'"
    and "\<And>c. child_at s ctx = Some c \<Longrightarrow> \<forall>p \<in> set (arg_copy_array c). foreign s p \<Longrightarrow> \<forall>p \<in> set (arg_copy_array (f c)). foreign s p"
  shows "sound t n ctx s'"
proof -
  from assms(1) obtain c where c: "child_at s ctx = Some c" "\<forall>p \<in> set (arg_copy_array c). foreign s p" "epoch_ok t n s"
    by (auto simp: sound_def)
  with assms(2) have s': "s' = s\<lparr>child_at := (child_at s)(ctx \<mapsto> f c)\<rparr>" by (simp add: upd_child_def)
  have "foreign s' p = foreign s p" for p by (simp add: s' foreign_def)
  with assms(3) [OF c(1,2)] c(3) show ?thesis by (simp add: sound_def s')
qed

lemma sound_copy:
  assumes "sound t n ctx s" and "foreign s q"
    and "upd_child ctx (\<lambda>c. c\<lparr>arg_copy_array := (arg_copy_array c)[i := q]\<rparr>) s = Some s'"
  shows "sound t n ctx s'"
  using assms(1,3) by (rule sound_update) (use assms(2) in \<open>auto dest!: set_update_subset_insert [THEN subsetD]\<close>)

lemma munmap_keeps: "keeps p s (munmap q n s)"
  by (auto simp: munmap_def keeps_def sysfix_def wf_os_def)

locale child_services =
  fixes svc :: "'z syscall_state_scheme services"
  assumes desc_keeps: "svc_free_desc svc p s = Some (r, s') \<Longrightarrow> keeps p s s'"
    and socket_keeps: "svc_free_socket svc p s = Some (r, s') \<Longrightarrow> keeps p s s'"
    and dirpath_keeps: "svc_free_dirpath svc p s = Some (r, q, s') \<Longrightarrow> keeps p s s' \<and> (q = p \<or> q = NULL)"
    and filepath_keeps: "svc_free_filepath svc p s = Some (r, q, s') \<Longrightarrow> keeps p s s' \<and> (q = p \<or> q = NULL)"
begin

lemma free_arg_sound:
  assumes "free_arg svc ctx type i s = Some s'" and "sound t n ctx s"
  shows "sound t n ctx s'"
proof -
  from assms obtain c where c: "child_at s ctx = Some c" "\<forall>p \<in> set (arg_copy_array c). foreign s p"
      "i < length (arg_copy_array c)"
    by (auto simp: free_arg_def sound_def split: if_splits)
  then have fo: "foreign s (arg_copy_array c ! i)" by simp
  have print: "sound t n ctx (complain r m u)" if "sound t n ctx u" for r m u
    using that by (simp add: complain_def)
  have path: "sound t n ctx w" if "keeps (arg_copy_array c ! i) s u" "q = arg_copy_array c ! i \<or> q = NULL"
      "upd_child ctx (\<lambda>c. c\<lparr>arg_copy_array := (arg_copy_array c)[i := q]\<rparr>) u = Some w" for q u w
  proof -
    have u: "sound t n ctx u" by (rule sound_keeps [OF that(1) fo assms(2)])
    have "foreign u q" using that(2) foreign_keeps [OF that(1) fo] foreign_NULL [OF sound_wf [OF u]] by blast
    then show ?thesis by (rule sound_copy [OF u _ that(3)])
  qed
  have buf: "sound t n ctx w" if "default_mem_free_shared a b s = (q, u)"
      "upd_child ctx (\<lambda>c. c\<lparr>arg_value_array := (arg_value_array c)[i := q]\<rparr>) u = Some w" for a b q u w
  proof -
    have "keeps NULL s u" using that(1) munmap_keeps by (auto simp: default_mem_free_shared_def split: if_splits)
    then have "sound t n ctx u" using foreign_NULL [OF sound_wf [OF assms(2)]] assms(2) by (rule sound_keeps)
    then show ?thesis using that(2) by (rule sound_update) simp
  qed
  show ?thesis
    using assms c(1) fo
    by (cases type) (auto simp: free_arg_def split: if_splits prod.splits elim!: bind_SomeE
        intro!: print intro: sound_keeps [OF desc_keeps] sound_keeps [OF socket_keeps] path buf
        dest!: dirpath_keeps filepath_keeps)
qed

lemma free_args_loop_sound:
  assumes "free_args_loop svc ctx entry k i s = Some s'" and "sound t n ctx s"
  shows "sound t n ctx s'"
  using assms by (induction k arbitrary: i s) (auto elim!: bind_SomeE dest: free_arg_sound)

lemma free_old_arguments_sound:
  assumes "free_old_arguments svc ctx s = Some (r, s')" and "sound t n ctx s"
  shows "sound t n ctx s'"
  using assms by (auto simp: free_old_arguments_def elim!: bind_SomeE split: option.splits dest: free_args_loop_sound)

end

section \<open>The sections around the jump\<close>

lemma epoch_start_cases:
  fixes s :: "'z syscall_state_scheme"
  assumes "epoch_ok t n s" and "n < 8" and "epoch_start t s = Some (r, s')"
  shows "epoch_ok t (if grant s (asked s) then n + 1 else n) s'"
  using epoch_start_granted [OF assms(1,2)] epoch_start_refused [OF assms(1,2)] assms(3) by auto

lemma epoch_start_frame:
  fixes s :: "'z syscall_state_scheme"
  assumes "epoch_ok t n s" and "epoch_start t s = Some (r, s')"
  shows "sysfix s' = sysfix s" and "foreign s q \<Longrightarrow> foreign s' q" and "grant s' = grant s"
  using assms epoch_grow_none [OF assms(1)]
  by (auto simp: epoch_start_def default_mem_alloc_def malloc_def slot_write_def epoch_begin_def foreign_def sysfix_def
      printing_defs Let_def elim!: bind_SomeE split: if_splits)

lemma sound_start:
  fixes s :: "'z syscall_state_scheme"
  assumes "sound t n ctx s" and "n < 8" and "epoch_start t s = Some (r, s')"
  shows "sound t (if grant s (asked s) then n + 1 else n) ctx s'"
proof -
  have ok: "epoch_ok t n s" using assms(1) by (simp add: sound_def)
  have "child_at s' = child_at s" using epoch_start_frame(1) [OF ok assms(3)] by (simp add: sysfix_def)
  with assms(1) epoch_start_cases [OF ok assms(2,3)] epoch_start_frame(2) [OF ok assms(3)] show ?thesis
    by (auto simp: sound_def)
qed

lemma core_log_results: "log_results e r v s = (x, s') \<Longrightarrow> keeps p s s'"
  by (auto simp: log_results_def asprintf_def printf_def keeps_def sysfix_def wf_os_def
      split: if_splits option.splits prod.splits)

lemma report_results_sound:
  assumes "report_results svc ctx s = Some (r, s')" and "sound t n ctx s"
  shows "sound t n ctx s'"
proof -
  from assms(1) have "keeps NULL s s'" by (auto simp: report_results_def elim!: bind_SomeE intro: core_log_results)
  then show ?thesis using foreign_NULL [OF sound_wf [OF assms(2)]] assms(2) by (rule sound_keeps)
qed

lemma report_results_granted:
  assumes "child_at s ctx = Some c" and "svc_strsignal svc (sig_num c) \<noteq> None" and "grant s (asked s)"
  shows "\<exists>s'. report_results svc ctx s = Some (0, s') \<and> keeps NULL s s'"
proof -
  have "\<exists>s'. log_results e r (Some v) s = (0, s')" for e r v
    using assms(3) by (cases e) (simp_all add: log_results_def asprintf_def)
  with assms(2) obtain s' where
    run: "log_results (had_error c) (ret_value c) (svc_strsignal svc (sig_num c)) s = (0, s')" by fastforce
  with core_log_results [OF run] assms(1) show ?thesis by (simp add: report_results_def)
qed

lemma first_entry:
  fixes s :: "'z syscall_state_scheme"
  assumes "child_at s ctx = Some c" and "fresh_ctx c" and "epoch_ok t 1 s" and "\<forall>k. grant s k"
    and "sys_table s \<noteq> NULL" and "sys_entry (static_table s) \<noteq> []" and "svc_strsignal svc (sig_num c) \<noteq> None"
  shows "\<exists>s'. after_setjmp svc t ctx s = Some (Return (), s') \<and> epoch_ok t 0 s'"
proof -
  obtain s1 where 1: "epoch_start t s = Some (0, s1)" "epoch_ok t 2 s1"
    using epoch_start_granted [OF assms(3)] assms(4) by (auto simp: numeral_2_eq_2)
  have f1: "sysfix s1 = sysfix s" "grant s1 = grant s" using epoch_start_frame [OF assms(3) 1(1)] by simp_all
  then obtain s2 where 2: "report_results svc ctx s1 = Some (0, s2)" "keeps NULL s1 s2"
    using report_results_granted [of s1 ctx c svc] assms(1,4,7) by (auto simp: sysfix_def)
  then have f2: "sysfix s2 = sysfix s" using f1 by (simp add: keeps_def)
  then have "get_entry (syscall_number c) s2 = Some (Some (sys_entry (static_table s) ! 0))" "child_at s2 ctx = Some c"
    using assms(1,2,5,6) by (auto simp: get_entry_def sysfix_def fresh_ctx_def)
  then have 3: "free_old_arguments svc ctx s2 = Some (0, s2)"
    using assms(2) by (simp add: free_old_arguments_def fresh_ctx_def)
  have ok2: "epoch_ok t 2 s2"
    using epoch_keeps [OF 2(2) foreign_NULL 1(2)] 1(2) by (auto simp: epoch_ok_def)
  obtain s3 where 4: "epoch_stop t s2 = Some s3" "epoch_ok t 1 s3"
    using epoch_stop_ok [of t 1 s2] ok2 by (auto simp: numeral_2_eq_2)
  obtain s4 where 5: "epoch_stop t s3 = Some s4" "epoch_ok t 0 s4"
    using epoch_stop_ok [of t 0 s3] 4(2) by auto
  show ?thesis using assms(1,2) 1(1) 2(1) 3 4(1) 5 by (simp add: after_setjmp_def fresh_ctx_def)
qed

text \<open>From no open section, the two stops of the jump branch cannot both succeed.\<close>

lemma two_stops:
  fixes s :: "'z syscall_state_scheme"
  assumes "epoch_ok t n s" and "n \<le> 1"
  shows "do { s \<leftarrow> epoch_stop t s; epoch_stop t s } = None"
proof (cases "n = 0")
  case True
  with assms(1) epoch_stop_empty [of t s] show ?thesis by simp
next
  case False
  then have "n = Suc 0" using assms(2) by simp
  then obtain s' where "epoch_stop t s = Some s'" "epoch_ok t 0 s'"
    using assms(1) epoch_stop_ok [of t 0 s] by auto
  with epoch_stop_empty [of t s'] show ?thesis by simp
qed

context child_services
begin

lemma no_return_after_jump:
  assumes "sound t 0 ctx s" and "did_jump (the (child_at s ctx)) = NX_YES"
  shows "after_setjmp svc t ctx s \<noteq> Some (Return (), s')"
proof
  assume run: "after_setjmp svc t ctx s = Some (Return (), s')"
  from assms obtain c where c: "child_at s ctx = Some c" "did_jump c = NX_YES" by (auto simp: sound_def)
  with run obtain r1 s1 r2 s2 r3 s3 where steps: "epoch_start t s = Some (r1, s1)"
      "report_results svc ctx s1 = Some (r2, s2)" "free_old_arguments svc ctx s2 = Some (r3, s3)"
    and stops: "do { s \<leftarrow> epoch_stop t s3; epoch_stop t s } = Some s'"
    by (auto simp: after_setjmp_def exits_def elim!: bind_SomeE split: if_splits)
  let ?n = "if grant s (asked s) then 0 + 1 else 0 :: nat"
  have "sound t ?n ctx s1" by (rule sound_start [OF assms(1) _ steps(1)]) simp
  then have "sound t ?n ctx s2" by (rule report_results_sound [OF steps(2)])
  then have "sound t ?n ctx s3" by (rule free_old_arguments_sound [OF steps(3)])
  then have "do { s \<leftarrow> epoch_stop t s3; epoch_stop t s } = None"
    by (intro two_stops [of t ?n]) (auto simp: sound_def)
  with stops show False by simp
qed

end

section \<open>The resource module as services\<close>

lemma free_path_pointer:
  "free_filepath p s = Some (r, q, s') \<Longrightarrow> q = p \<or> q = NULL"
  "free_dirpath p s = Some (r, q, s') \<Longrightarrow> q = p \<or> q = NULL"
  by (auto simp: free_filepath_def free_dirpath_def free_filepath_cached_def free_dirpath_cached_def
      free_filepath_nocached_def free_dirpath_nocached_def default_mem_free_def
      elim!: bind_SomeE split: if_splits option.splits rsrc_gen_type.splits prod.splits)

text \<open>The resource module and the default random source; \<open>sigtext\<close> is what \<open>strsignal\<close> returns.\<close>

definition module_services :: "(int \<Rightarrow> string option) \<Rightarrow> 'z syscall_state_scheme services" where
  "module_services sigtext = \<lparr>svc_free_desc = free_desc, svc_free_socket = free_socket,
     svc_free_dirpath = free_dirpath, svc_free_filepath = free_filepath, svc_range = default_rand_range,
     svc_strsignal = sigtext\<rparr>"

interpretation ms: child_services "module_services sigtext"
  by unfold_locales (auto simp: module_services_def dest: module_keeps free_path_pointer)

text \<open>C6. The code after \<open>setjmp\<close> closes the right number of epoch sections on the first pass only. A new
  child reaches its loop, with no section open, when memory is granted. After a jump back from the signal
  handler, which leaves the test with no section open, the same code closes one section more than it
  opens: the child never gets back into its loop.\<close>

theorem setjmp_sections:
  fixes s :: "'z syscall_state_scheme"
  assumes "child_at s ctx = Some c" and "\<forall>k. grant s k" and "sys_table s \<noteq> NULL"
    and "sys_entry (static_table s) \<noteq> []" and "sigtext (sig_num c) \<noteq> None"
  shows "(fresh_ctx c \<and> epoch_ok t 1 s \<longrightarrow>
       (\<exists>s'. after_setjmp (module_services sigtext) t ctx s = Some (Return (), s') \<and> epoch_ok t 0 s')) \<and>
     (sound t 0 ctx s \<and> did_jump c = NX_YES \<longrightarrow>
       (\<forall>s'. after_setjmp (module_services sigtext) t ctx s \<noteq> Some (Return (), s')))"
  using first_entry [OF assms(1) _ _ assms(2,3,4), of t "module_services sigtext"]
    ms.no_return_after_jump [of t ctx s] assms(1,5) by (auto simp: module_services_def)

definition thread0 :: syscall_state where
  "thread0 = syscall0\<lparr>static_table := linux_syscall_table, fresh := 60, heap := [52 \<mapsto> 64], actives := [51 \<mapsto> 0],
     threads := [50 \<mapsto> \<lparr>epoch_rec = 51, section_arr = 52, section_count = 0, buf_size = 8\<rparr>]\<rparr>"

lemma thread0_sound: "sound 50 0 30 thread0"
proof -
  have "wf_os thread0" using syscall0_ready(2) by (auto simp: wf_os_def thread0_def split: if_splits)
  then show ?thesis by (simp add: sound_def epoch_ok_def foreign_def thread0_def child0_def)
qed

theorem setjmp_sections_witness:
  "\<forall>s'. after_setjmp (module_services (\<lambda>_. Some ''signal'')) 50 30 thread0 \<noteq> Some (Return (), s')"
  using setjmp_sections [of thread0 30 child0 "\<lambda>_. Some ''signal''" 50] thread0_sound
  by (simp add: thread0_def linux_syscall_table_def child0_def)

end
