(* ===== verification/Fleet.thy ===== *)
theory Fleet
  imports Child_Epoch
begin

text \<open>
  The processes of the system call fuzzer as a step relation: the main loop, which forks a child into the
  first empty slot while fewer than \<open>total_children\<close> are counted, the children, which enter and leave,
  and the handler of \<open>SIGCHLD\<close>. Each step is one access to shared memory, so all interleavings of
  \<open>create_child\<close>, \<open>exit_child\<close> and \<open>child_exit_handler\<close> are runs. A child can be killed at any time by a
  signal it does not handle. While it waits at the pipe the main loop takes no step. The pid of a new
  process is positive and neither that of an existing process nor one that a slot still holds.

  \<open>killed\<close> is not part of the program: it counts the children that were killed while they were counted
  in \<open>running_children\<close>.
\<close>

section \<open>Steps\<close>

text \<open>\<open>Claimed\<close>: the slot has the pid and the counter is not yet incremented. \<open>Leaving\<close>: the slot is empty
  and the counter not yet decremented. A zombie remembers whether it has exited or was killed.\<close>

datatype phase = Claimed nat | Alive nat | Leaving | Zombie bool

record fleet =
  slot_pids :: "int list"
  counter :: u32
  procs :: "int \<rightharpoonup> phase"
  waiting :: "int option"
  killed :: nat

definition first_slot :: "int \<Rightarrow> int list \<Rightarrow> nat option" where
  "first_slot pid ps = find (\<lambda>i. ps ! i = pid) [0..<length ps]"

definition clear_slot :: "int \<Rightarrow> int list \<Rightarrow> int list" where
  "clear_slot pid ps = (case first_slot pid ps of None \<Rightarrow> ps | Some i \<Rightarrow> ps[i := EMPTY])"

inductive fleet_step :: "nat \<Rightarrow> fleet \<Rightarrow> fleet \<Rightarrow> bool" for n where
  fork: "waiting f = None \<Longrightarrow> unat (counter f) < n \<Longrightarrow> first_slot EMPTY (slot_pids f) = Some i \<Longrightarrow>
     0 < pid \<Longrightarrow> procs f pid = None \<Longrightarrow> pid \<notin> set (slot_pids f) \<Longrightarrow>
     fleet_step n f (f\<lparr>slot_pids := (slot_pids f)[i := pid], procs := (procs f)(pid \<mapsto> Claimed i), waiting := Some pid\<rparr>)"
| count: "procs f pid = Some (Claimed i) \<Longrightarrow>
     fleet_step n f (f\<lparr>counter := counter f + 1, procs := (procs f)(pid \<mapsto> Alive i)\<rparr>)"
| notify: "procs f pid = Some (Alive i) \<Longrightarrow> waiting f = Some pid \<Longrightarrow> fleet_step n f (f\<lparr>waiting := None\<rparr>)"
| leave: "procs f pid = Some (Alive i) \<Longrightarrow>
     fleet_step n f (f\<lparr>slot_pids := (slot_pids f)[i := EMPTY], procs := (procs f)(pid \<mapsto> Leaving)\<rparr>)"
| uncount: "procs f pid = Some Leaving \<Longrightarrow>
     fleet_step n f (f\<lparr>counter := counter f - 1, procs := (procs f)(pid \<mapsto> Zombie True)\<rparr>)"
| kill_claimed: "procs f pid = Some (Claimed i) \<Longrightarrow> fleet_step n f (f\<lparr>procs := (procs f)(pid \<mapsto> Zombie False)\<rparr>)"
| kill_counted: "procs f pid = Some (Alive i) \<or> procs f pid = Some Leaving \<Longrightarrow>
     fleet_step n f (f\<lparr>procs := (procs f)(pid \<mapsto> Zombie False), killed := killed f + 1\<rparr>)"
| reap: "procs f pid = Some (Zombie b) \<Longrightarrow>
     fleet_step n f (f\<lparr>procs := (procs f)(pid := None),
       slot_pids := (if b then clear_slot pid (slot_pids f) else slot_pids f)\<rparr>)"

inductive_cases fleet_stepE: "fleet_step n f f'"

definition fleet_init :: "nat \<Rightarrow> fleet" where
  "fleet_init n = \<lparr>slot_pids = replicate n EMPTY, counter = 0, procs = Map.empty, waiting = None, killed = 0\<rparr>"

inductive fleet_reach :: "nat \<Rightarrow> fleet \<Rightarrow> bool" for n where
  init: "fleet_reach n (fleet_init n)"
| step: "fleet_reach n f \<Longrightarrow> fleet_step n f f' \<Longrightarrow> fleet_reach n f'"

section \<open>The invariant\<close>

definition counted :: "fleet \<Rightarrow> int set" where
  "counted f = {p. (\<exists>i. procs f p = Some (Alive i)) \<or> procs f p = Some Leaving}"

definition fleet_ok :: "nat \<Rightarrow> fleet \<Rightarrow> bool" where
  "fleet_ok n f \<longleftrightarrow> length (slot_pids f) = n \<and> finite (dom (procs f)) \<and>
     (\<forall>p \<in> dom (procs f). 0 < p) \<and>
     (\<forall>p i. procs f p = Some (Claimed i) \<or> procs f p = Some (Alive i) \<longrightarrow> i < n \<and> slot_pids f ! i = p) \<and>
     (\<forall>p. procs f p = Some Leaving \<or> procs f p = Some (Zombie True) \<longrightarrow> p \<notin> set (slot_pids f)) \<and>
     (\<forall>i j. i < n \<and> j < n \<and> slot_pids f ! i = slot_pids f ! j \<and> slot_pids f ! i \<noteq> EMPTY \<longrightarrow> i = j) \<and>
     (\<forall>p i. procs f p = Some (Claimed i) \<longrightarrow> waiting f = Some p) \<and>
     unat (counter f) = card (counted f) + killed f \<and>
     unat (counter f) + (if \<exists>p i. procs f p = Some (Claimed i) then 1 else 0) \<le> n"

lemma first_slot_Some: "first_slot p ps = Some i \<Longrightarrow> i < length ps \<and> ps ! i = p"
  by (auto simp: first_slot_def find_Some_iff)

lemma clear_slot_absent: "p \<notin> set ps \<Longrightarrow> clear_slot p ps = ps"
  by (auto simp: clear_slot_def split: option.split dest!: first_slot_Some)

lemma fleet_ok_init: "fleet_ok n (fleet_init n)"
  by (auto simp: fleet_ok_def fleet_init_def counted_def)

lemma counted_finite: "finite (dom (procs f)) \<Longrightarrow> finite (counted f)"
  by (rule finite_subset [of _ "dom (procs f)"]) (auto simp: counted_def)

lemma fleet_okD:
  assumes "fleet_ok n f"
  shows "length (slot_pids f) = n" and "finite (dom (procs f))" and "\<And>p x. procs f p = Some x \<Longrightarrow> 0 < p"
    and "\<And>p i. procs f p = Some (Claimed i) \<Longrightarrow> i < n \<and> slot_pids f ! i = p \<and> waiting f = Some p"
    and "\<And>p i. procs f p = Some (Alive i) \<Longrightarrow> i < n \<and> slot_pids f ! i = p"
    and "\<And>p. procs f p = Some Leaving \<Longrightarrow> p \<notin> set (slot_pids f)"
    and "\<And>p. procs f p = Some (Zombie True) \<Longrightarrow> p \<notin> set (slot_pids f)"
    and "\<And>i j. i < n \<Longrightarrow> j < n \<Longrightarrow> slot_pids f ! i = slot_pids f ! j \<Longrightarrow> slot_pids f ! i \<noteq> EMPTY \<Longrightarrow> i = j"
    and "unat (counter f) = card (counted f) + killed f" and "unat (counter f) \<le> n"
    and "\<And>p i. procs f p = Some (Claimed i) \<Longrightarrow> unat (counter f) < n"
  using assms unfolding fleet_ok_def by (auto split: if_splits)

lemma fleet_okI:
  assumes "length (slot_pids f) = n" and "finite (dom (procs f))" and "\<And>p x. procs f p = Some x \<Longrightarrow> 0 < p"
    and "\<And>p i. procs f p = Some (Claimed i) \<Longrightarrow> i < n \<and> slot_pids f ! i = p \<and> waiting f = Some p"
    and "\<And>p i. procs f p = Some (Alive i) \<Longrightarrow> i < n \<and> slot_pids f ! i = p"
    and "\<And>p. procs f p = Some Leaving \<Longrightarrow> p \<notin> set (slot_pids f)"
    and "\<And>p. procs f p = Some (Zombie True) \<Longrightarrow> p \<notin> set (slot_pids f)"
    and "\<And>i j. i < n \<Longrightarrow> j < n \<Longrightarrow> slot_pids f ! i = slot_pids f ! j \<Longrightarrow> slot_pids f ! i \<noteq> EMPTY \<Longrightarrow> i = j"
    and "unat (counter f) = card (counted f) + killed f" and "unat (counter f) \<le> n"
    and "\<And>p i. procs f p = Some (Claimed i) \<Longrightarrow> unat (counter f) < n"
  shows "fleet_ok n f"
  unfolding fleet_ok_def using assms by (auto simp: Suc_le_eq)

lemma fork_ok:
  assumes ok: "fleet_ok n f" and "waiting f = None" and lt: "unat (counter f) < n"
    and slot: "first_slot EMPTY (slot_pids f) = Some i" and pid: "0 < pid" "procs f pid = None" "pid \<notin> set (slot_pids f)"
  shows "fleet_ok n (f\<lparr>slot_pids := (slot_pids f)[i := pid], procs := (procs f)(pid \<mapsto> Claimed i), waiting := Some pid\<rparr>)"
proof -
  note D = fleet_okD [OF ok]
  have i: "i < n" "slot_pids f ! i = EMPTY" using first_slot_Some [OF slot] D(1) by simp_all
  have "counted (f\<lparr>slot_pids := (slot_pids f)[i := pid], procs := (procs f)(pid \<mapsto> Claimed i), waiting := Some pid\<rparr>) = counted f"
    using pid(2) by (auto simp: counted_def)
  moreover have "procs f p \<noteq> Some (Claimed j)" for p j using D(4) assms(2) by auto
  moreover have "procs f p \<noteq> Some (Alive i)" for p using D(5) [of p i] D(3) [of p] i(2) by (auto simp: EMPTY_def)
  moreover have "p \<notin> set ((slot_pids f)[i := pid])" if "p \<notin> set (slot_pids f)" "p \<noteq> pid" for p
    using that set_update_subset_insert [of "slot_pids f" i pid] by blast
  moreover have "slot_pids f ! j \<noteq> pid" if "j < n" for j using that pid(3) D(1) nth_mem by metis
  ultimately show ?thesis
    using D i pid lt by (intro fleet_okI) (auto simp: nth_list_update EMPTY_def split: if_splits)
qed

lemma count_ok:
  assumes ok: "fleet_ok n f" and n: "n < 2 ^ 32" and pid: "procs f pid = Some (Claimed i)"
  shows "fleet_ok n (f\<lparr>counter := counter f + 1, procs := (procs f)(pid \<mapsto> Alive i)\<rparr>)"
proof -
  note D = fleet_okD [OF ok]
  let ?f = "f\<lparr>counter := counter f + 1, procs := (procs f)(pid \<mapsto> Alive i)\<rparr>"
  have suc: "unat (counter f + 1) = unat (counter f) + 1" using D(11) [OF pid] n by (simp add: unat_plus1_u32)
  have ins: "counted ?f = insert pid (counted f)" "pid \<notin> counted f" using pid by (auto simp: counted_def)
  then have "card (counted ?f) = card (counted f) + 1" using counted_finite [OF D(2)] by simp
  moreover have one: "p = pid" if "procs f p = Some (Claimed j)" for p j using D(4) [OF that] D(4) [OF pid] by simp
  ultimately show ?thesis using D(1-10) D(3,4,11) [OF pid] suc
    by (intro fleet_okI) (auto split: if_splits dest: one)
qed

lemma leave_ok:
  assumes ok: "fleet_ok n f" and pid: "procs f pid = Some (Alive i)"
  shows "fleet_ok n (f\<lparr>slot_pids := (slot_pids f)[i := EMPTY], procs := (procs f)(pid \<mapsto> Leaving)\<rparr>)"
proof -
  note D = fleet_okD [OF ok]
  let ?f = "f\<lparr>slot_pids := (slot_pids f)[i := EMPTY], procs := (procs f)(pid \<mapsto> Leaving)\<rparr>"
  have i: "i < n" "slot_pids f ! i = pid" "pid \<noteq> EMPTY" using D(5) [OF pid] D(3) [OF pid] by (auto simp: EMPTY_def)
  have other: "j \<noteq> i" if "procs f p = Some (Alive j) \<or> procs f p = Some (Claimed j)" "p \<noteq> pid" for p j
    using that D(4,5) i(2) by blast
  have out: "p \<notin> set ((slot_pids f)[i := EMPTY])" if "procs f p = Some Leaving \<or> procs f p = Some (Zombie True)" for p
    using that D(3,6,7) [of p] set_update_subset_insert [of "slot_pids f" i EMPTY] by (auto simp: EMPTY_def)
  have gone: "pid \<notin> set ((slot_pids f)[i := EMPTY])"
    using i D(1,8) by (auto simp: in_set_conv_nth nth_list_update split: if_splits)
  have "counted ?f = counted f" using pid by (auto simp: counted_def)
  then show ?thesis using D D(3) [OF pid] i gone out
    by (intro fleet_okI) (auto simp: nth_list_update dest: other split: if_splits)
qed

lemma uncount_ok:
  assumes ok: "fleet_ok n f" and pid: "procs f pid = Some Leaving"
  shows "fleet_ok n (f\<lparr>counter := counter f - 1, procs := (procs f)(pid \<mapsto> Zombie True)\<rparr>)"
proof -
  note D = fleet_okD [OF ok]
  let ?f = "f\<lparr>counter := counter f - 1, procs := (procs f)(pid \<mapsto> Zombie True)\<rparr>"
  have del: "counted f = insert pid (counted ?f)" "pid \<notin> counted ?f" using pid by (auto simp: counted_def)
  have "finite (counted f)" by (rule counted_finite [OF D(2)])
  then have card: "card (counted f) = card (counted ?f) + 1" using del by (metis card_insert_disjoint finite_insert Suc_eq_plus1)
  with D(9) have "1 \<le> counter f" by (simp add: word_le_nat_alt)
  then have "unat (counter f - 1) = unat (counter f) - 1" by (simp add: unat_sub)
  then show ?thesis using D card D(3,6) [OF pid]
    by (intro fleet_okI) (auto split: if_splits dest: D(11))
qed

lemma kill_claimed_ok:
  assumes ok: "fleet_ok n f" and pid: "procs f pid = Some (Claimed i)"
  shows "fleet_ok n (f\<lparr>procs := (procs f)(pid \<mapsto> Zombie False)\<rparr>)"
proof -
  note D = fleet_okD [OF ok]
  have "counted (f\<lparr>procs := (procs f)(pid \<mapsto> Zombie False)\<rparr>) = counted f" using pid by (auto simp: counted_def)
  then show ?thesis using D D(3,11) [OF pid] by (intro fleet_okI) (auto split: if_splits)
qed

lemma kill_counted_ok:
  assumes ok: "fleet_ok n f" and pid: "procs f pid = Some (Alive i) \<or> procs f pid = Some Leaving"
  shows "fleet_ok n (f\<lparr>procs := (procs f)(pid \<mapsto> Zombie False), killed := killed f + 1\<rparr>)"
proof -
  note D = fleet_okD [OF ok]
  let ?f = "f\<lparr>procs := (procs f)(pid \<mapsto> Zombie False), killed := killed f + 1\<rparr>"
  have del: "counted f = insert pid (counted ?f)" "pid \<notin> counted ?f" using pid by (auto simp: counted_def)
  have "finite (counted f)" by (rule counted_finite [OF D(2)])
  then have card: "card (counted f) = card (counted ?f) + 1" using del by (metis card_insert_disjoint finite_insert Suc_eq_plus1)
  have "0 < pid" using D(3) pid by blast
  then show ?thesis using D card by (intro fleet_okI) (auto split: if_splits)
qed

lemma reap_ok:
  assumes ok: "fleet_ok n f" and pid: "procs f pid = Some (Zombie b)"
  shows "fleet_ok n (f\<lparr>procs := (procs f)(pid := None),
    slot_pids := (if b then clear_slot pid (slot_pids f) else slot_pids f)\<rparr>)"
proof -
  note D = fleet_okD [OF ok]
  have same: "(if b then clear_slot pid (slot_pids f) else slot_pids f) = slot_pids f"
    using D(7) [of pid] pid clear_slot_absent by auto
  have "counted (f\<lparr>procs := (procs f)(pid := None), slot_pids := slot_pids f\<rparr>) = counted f" using pid by (auto simp: counted_def)
  then show ?thesis unfolding same using D by (intro fleet_okI) (auto split: if_splits)
qed

lemma notify_ok:
  assumes ok: "fleet_ok n f" and pid: "procs f pid = Some (Alive i)" "waiting f = Some pid"
  shows "fleet_ok n (f\<lparr>waiting := None\<rparr>)"
proof -
  note D = fleet_okD [OF ok]
  have "procs f p \<noteq> Some (Claimed j)" for p j using D(4) [of p j] pid by auto
  moreover have "counted (f\<lparr>waiting := None\<rparr>) = counted f" by (simp add: counted_def)
  ultimately show ?thesis using D by (intro fleet_okI) auto
qed

lemma fleet_step_ok: "fleet_ok n f \<Longrightarrow> n < 2 ^ 32 \<Longrightarrow> fleet_step n f f' \<Longrightarrow> fleet_ok n f'"
  by (erule fleet_stepE; hypsubst;
      (rule fork_ok count_ok notify_ok leave_ok uncount_ok kill_claimed_ok kill_counted_ok [simplified] reap_ok; assumption))

lemma fleet_reach_ok: "fleet_reach n f \<Longrightarrow> n < 2 ^ 32 \<Longrightarrow> fleet_ok n f"
  by (induction rule: fleet_reach.induct) (auto intro: fleet_ok_init fleet_step_ok)

definition lost_slot :: "nat \<Rightarrow> nat \<Rightarrow> int \<Rightarrow> fleet \<Rightarrow> bool" where
  "lost_slot n i p f \<longleftrightarrow> i < n \<and> slot_pids f ! i = p \<and> p \<noteq> EMPTY \<and> (procs f p = None \<or> procs f p = Some (Zombie False))"

lemma lost_slot_step:
  assumes "fleet_ok n f" and "lost_slot n i p f" and "fleet_step n f f'"
  shows "lost_slot n i p f'"
proof -
  note D = fleet_okD [OF assms(1)]
  have mem: "p \<in> set (slot_pids f)" using assms(2) D(1) by (auto simp: lost_slot_def)
  show ?thesis using assms(3)
  proof cases
    case (fork j pid)
    then show ?thesis using assms(2) mem first_slot_Some [OF fork(4)] by (auto simp: lost_slot_def nth_list_update)
  next
    case (leave pid j)
    then show ?thesis using assms(2) D(1) D(5) [OF leave(2)] by (auto simp: lost_slot_def nth_list_update)
  next
    case (reap pid b)
    have "(if b then clear_slot pid (slot_pids f) else slot_pids f) = slot_pids f"
      using D(7) [of pid] reap(2) clear_slot_absent by auto
    then show ?thesis using assms(2) reap by (auto simp: lost_slot_def)
  qed (use assms(2) in \<open>auto simp: lost_slot_def\<close>)
qed

lemma lost_slot_steps:
  assumes "fleet_ok n f" and "n < 2 ^ 32" and "lost_slot n i p f" and "(fleet_step n)\<^sup>*\<^sup>* f f'"
  shows "lost_slot n i p f'"
proof -
  from assms(4) have "fleet_ok n f' \<and> lost_slot n i p f'"
    by (induction rule: rtranclp_induct) (use assms in \<open>auto intro: fleet_step_ok lost_slot_step\<close>)
  then show ?thesis ..
qed

lemma full_step:
  assumes "fleet_ok n f" and "n \<le> killed f" and "fleet_step n f f'"
  shows "dom (procs f') \<subseteq> dom (procs f) \<and> n \<le> killed f'"
  using assms(3) fleet_okD(9) [OF assms(1)] assms(2) by cases auto

lemma full_steps:
  assumes "fleet_ok n f" and "n < 2 ^ 32" and "n \<le> killed f" and "(fleet_step n)\<^sup>*\<^sup>* f f'"
  shows "dom (procs f') \<subseteq> dom (procs f)"
proof -
  from assms(4) have "fleet_ok n f' \<and> dom (procs f') \<subseteq> dom (procs f) \<and> n \<le> killed f'"
    by (induction rule: rtranclp_induct) (use assms full_step in \<open>blast intro: fleet_step_ok\<close>)+
  then show ?thesis by blast
qed

text \<open>C4. Whatever the interleaving of the main loop, the children and the signal handler: a child that runs
  has a slot of its own that holds its pid, so that the lookup by pid finds its context and no other;
  \<open>running_children\<close> is exactly the number of children that run or are about to leave plus the number of
  those that were killed, so it never wraps; and both together never exceed \<open>total_children\<close>.\<close>

theorem fleet_safe:
  assumes "fleet_reach n f" and "n < 2 ^ 32"
  shows "(\<forall>p i. procs f p = Some (Alive i) \<longrightarrow> first_slot p (slot_pids f) = Some i) \<and>
     (\<forall>p q i. procs f p = Some (Alive i) \<and> procs f q = Some (Alive i) \<longrightarrow> p = q) \<and>
     unat (counter f) = card (counted f) + killed f \<and>
     card {p. \<exists>i. procs f p = Some (Alive i)} + killed f \<le> n"
proof (intro conjI allI impI)
  note D = fleet_okD [OF fleet_reach_ok [OF assms]]
  show "unat (counter f) = card (counted f) + killed f" by (rule D(9))
  have "card {p. \<exists>i. procs f p = Some (Alive i)} \<le> card (counted f)"
    by (rule card_mono [OF counted_finite [OF D(2)]]) (auto simp: counted_def)
  then show "card {p. \<exists>i. procs f p = Some (Alive i)} + killed f \<le> n" using D(9,10) by simp
  show "p = q" if "procs f p = Some (Alive i) \<and> procs f q = Some (Alive i)" for p q i using that D(5) by blast
  fix p i
  assume alive: "procs f p = Some (Alive i)"
  have uniq: "j = i" if "j < n" "slot_pids f ! j = p" for j
    using D(8) [of j i] D(3,5) [OF alive] that by (auto simp: EMPTY_def)
  show "first_slot p (slot_pids f) = Some i"
  proof (cases "first_slot p (slot_pids f)")
    case None
    then show ?thesis using D(1) D(5) [OF alive] by (auto simp: first_slot_def find_None_iff)
  next
    case (Some j)
    with first_slot_Some [OF Some] uniq D(1) show ?thesis by auto
  qed
qed


text \<open>One slot, whose child 7 is killed and reaped.\<close>

lemma fleet_run:
  "fleet_reach 1 \<lparr>slot_pids = [7], counter = 1, procs = [7 \<mapsto> Alive 0], waiting = Some 7, killed = 0\<rparr>"
  "fleet_reach 1 \<lparr>slot_pids = [7], counter = 1, procs = [7 \<mapsto> Zombie False], waiting = Some 7, killed = 1\<rparr>"
proof -
  have slot: "first_slot EMPTY [EMPTY] = Some 0" by (simp add: first_slot_def)
  have 1: "fleet_reach 1 \<lparr>slot_pids = [7], counter = 0, procs = [7 \<mapsto> Claimed 0], waiting = Some 7, killed = 0\<rparr>"
    using fleet_reach.step [OF fleet_reach.init fork [of "fleet_init 1" 1 0 7]] slot
    by (simp add: fleet_init_def EMPTY_def)
  show 2: "fleet_reach 1 \<lparr>slot_pids = [7], counter = 1, procs = [7 \<mapsto> Alive 0], waiting = Some 7, killed = 0\<rparr>"
    using fleet_reach.step [OF 1 count [of _ 7 0]] by simp
  show "fleet_reach 1 \<lparr>slot_pids = [7], counter = 1, procs = [7 \<mapsto> Zombie False], waiting = Some 7, killed = 1\<rparr>"
    using fleet_reach.step [OF 2 kill_counted [of _ 7 0]] by simp
qed

theorem fleet_safe_witness: "first_slot 7 [7] = Some 0"
  using fleet_safe [OF fleet_run(1)] by simp


section \<open>The code behind the steps of a child that leaves\<close>

lemma sysfix_epoch_simps [simp]:
  "sysfix (s\<lparr>threads := a\<rparr>) = sysfix s" "sysfix (s\<lparr>actives := b\<rparr>) = sysfix s" "sysfix (s\<lparr>slots := c\<rparr>) = sysfix s"
  by (simp_all add: sysfix_def)

lemma sysfix_slot_write: "slot_write a i p s = Some s' \<Longrightarrow> sysfix s' = sysfix s"
  by (auto simp: slot_write_def split: if_splits)

lemma sysfix_reallocarray: "reallocarray p m n s = Some (q, s') \<Longrightarrow> sysfix s' = sysfix s"
  by (auto simp: reallocarray_def realloc_def dest!: sysfix_base split: if_splits prod.splits)

lemma sysfix_epoch_steps:
  "epoch_begin r s = Some s' \<Longrightarrow> sysfix s' = sysfix s"
  "epoch_end r s = Some s' \<Longrightarrow> sysfix s' = sysfix s"
  "epoch_grow t s = Some (b, s') \<Longrightarrow> sysfix s' = sysfix s"
  by (auto simp: epoch_begin_def epoch_end_def epoch_grow_def Let_def dest!: sysfix_reallocarray
      elim!: bind_SomeE split: if_splits)

lemma sysfix_epoch_start: "epoch_start t s = Some (r, s') \<Longrightarrow> sysfix s' = sysfix s"
  by (auto simp: epoch_start_def Let_def dest!: sysfix_epoch_steps sysfix_slot_write sysfix_mem
      elim!: bind_SomeE split: if_splits prod.splits)

lemma sysfix_stop_sections: "stop_sections ctx i n s = Some s' \<Longrightarrow> sysfix s' = sysfix s"
  by (induction n arbitrary: i s)
    (auto dest!: sysfix_epoch_steps sysfix_slot_write sysfix_mem elim!: bind_SomeE)

lemma sysfix_epoch_exit:
  "stop_all_sections t s = Some s' \<Longrightarrow> sysfix s' = sysfix s"
  "clean_thread t s = Some (q, s') \<Longrightarrow> sysfix s' = sysfix s"
  by (auto simp: stop_all_sections_def clean_thread_def dest!: sysfix_stop_sections sysfix_mem elim!: bind_SomeE)

lemma children_ok_cong: "sysfix s' = sysfix s \<Longrightarrow> children_ok s' = children_ok s"
  by (simp add: children_ok_def sysfix_def)

lemma get_child_spec:
  assumes "children_ok s"
  shows "get_child s =
     (let s' = s\<lparr>trace := trace s @ [(''getpid'', [])]\<rparr> in
      case first_slot (fst (answer s (length (trace s)) ''getpid'' [])) (map (pid_of s) (children s)) of
        None \<Rightarrow> Some (NULL, console_output ERROR ''Can't grab child number'' s')
      | Some k \<Rightarrow> Some (children s ! k, s'))"
proof -
  let ?pid = "fst (answer s (length (trace s)) ''getpid'' [])"
  let ?s = "s\<lparr>trace := trace s @ [(''getpid'', [])]\<rparr>"
  let ?find = "find (\<lambda>k. child_pid (the (child_at ?s (children ?s ! k))) = ?pid) [unat (0 :: u32)..<length (children ?s)]"
  have len: "length (children ?s) = unat (total_children ?s)"
    and at: "\<forall>p \<in> set (children ?s). child_at ?s p \<noteq> None"
    using assms by (simp_all add: children_ok_def)
  have slot: "?find = first_slot ?pid (map (pid_of s) (children s))"
    unfolding first_slot_def by (rule find_cong) (use at nth_mem in \<open>fastforce simp: pid_of_def\<close>)+
  have small: "unat (word_of_nat k :: u32) = k \<and> k < length (children s)" if "?find = Some k" for k
    using find_Some_first [OF that] len unat_u32_less [of "total_children ?s"] by (simp add: unat_of_nat take_bit_nat_eq_self)
  have run: "ext ''getpid'' [] s = (?pid, ?s)" by (simp add: ext_eq)
  show ?thesis
    using small slot find_child_spec [OF len at, of ?pid 0]
    by (cases ?find) (simp_all add: get_child_def get_child_index_number_def run)
qed

definition world where
  "world s = (trace s, answer s)"

lemma world_steps:
  "default_mem_alloc n s = (p, s') \<Longrightarrow> world s' = world s"
  "reallocarray p m n s = Some (q, s') \<Longrightarrow> world s' = world s"
  "slot_write a i p s = Some s' \<Longrightarrow> world s' = world s"
  "epoch_begin r s = Some s' \<Longrightarrow> world s' = world s"
  by (auto simp: world_def default_mem_alloc_def malloc_def reallocarray_def realloc_def slot_write_def epoch_begin_def
      elim!: bind_SomeE split: if_splits prod.splits)

lemma world_simps [simp]:
  "world (s\<lparr>threads := a\<rparr>) = world s" "world (s\<lparr>slots := b\<rparr>) = world s" "world (console_output k m s) = world s"
  by (simp_all add: world_def printing_defs split: out_type.split)

lemma world_grow: "epoch_grow t s = Some (b, s') \<Longrightarrow> world s' = world s"
  by (auto simp: epoch_grow_def Let_def dest!: world_steps elim!: bind_SomeE split: if_splits)

lemma epoch_start_trace: "epoch_start t s = Some (r, s') \<Longrightarrow> world s' = world s"
  by (auto simp: epoch_start_def Let_def dest!: world_steps world_grow elim!: bind_SomeE split: if_splits prod.splits)

text \<open>\<open>exit_child\<close> empties the first slot with the pid of the process, keeps all others, and takes one from the number
  of running children; the code is 0.\<close>

lemma exit_child_effect:
  fixes s :: "'z syscall_state_scheme"
  assumes "children_ok s" and "exit_child t s = Some (code, s')"
  shows "\<exists>i. first_slot (fst (answer s (length (trace s)) ''getpid'' [])) (map (pid_of s) (children s)) = Some i \<and>
     map (pid_of s') (children s') = (map (pid_of s) (children s))[i := EMPTY] \<and>
     running_children s' = running_children s - 1 \<and> code = 0"
proof -
  let ?slot = "first_slot (fst (answer s (length (trace s)) ''getpid'' [])) (map (pid_of s) (children s))"
  from assms(2) obtain r1 s1 child s2 s3 s4 q s5 s6 where steps:
      "epoch_start t s = Some (r1, s1)" "get_child s1 = Some (child, s2)"
      "stop_all_sections t s3 = Some s4" "clean_thread t s4 = Some (q, s5)" "set_child_pid child EMPTY s5 = Some s6"
      "s' = console_output STD ''Exiting'' (s6\<lparr>running_children := running_children s6 - 1\<rparr>)"
      "if child = NULL then s3 = console_output ERROR ''Can't get child context'' s2 else s3 = s2 \<and> code = 0"
    unfolding exit_child_def cleanup_kernel_probes_def by (auto elim!: bind_SomeE split: if_splits)
  note f1 = sysfix_epoch_start [OF steps(1)] epoch_start_trace [OF steps(1), unfolded world_def prod.inject]
  have ok1: "children_ok s1" using assms(1) children_ok_cong [OF f1(1)] by simp
  have same: "map (pid_of s1) (children s1) = map (pid_of s) (children s)" "children s1 = children s"
    using f1(1) by (simp_all add: sysfix_def pid_of_def)
  have "sysfix s2 = sysfix s1" using steps(2) get_child_spec [OF ok1] by (auto simp: Let_def split: option.splits)
  moreover have "sysfix s3 = sysfix s2" using steps(7) by (auto split: if_splits)
  ultimately have f5: "sysfix s5 = sysfix s" using f1(1) sysfix_epoch_exit(1) [OF steps(3)] sysfix_epoch_exit(2) [OF steps(4)] by simp
  have ne: "child \<noteq> NULL" by (rule notI) (use steps(5) f5 assms(1) in \<open>auto simp: set_child_pid_def upd_child_def children_ok_def sysfix_def\<close>)
  with steps(2) get_child_spec [OF ok1, unfolded same(1)] f1(2) same(2) obtain i where i: "?slot = Some i" "child = children s ! i"
    by (auto simp: Let_def split: option.splits)
  then have lt: "i < length (children s)" using first_slot_Some by fastforce
  have s6: "s6 = s5\<lparr>child_at := (child_at s)(child \<mapsto> (the (child_at s child))\<lparr>child_pid := EMPTY\<rparr>)\<rparr>"
    using steps(5) f5 by (auto simp: set_child_pid_def upd_child_def sysfix_def elim!: bind_SomeE)
  have "distinct (children s)" using assms(1) by (simp add: children_ok_def)
  then have "map (pid_of s') (children s') = (map (pid_of s) (children s))[i := EMPTY]"
    using f5 lt i(2) steps(6) s6
    by (intro nth_equalityI) (auto simp: pid_of_def sysfix_def nth_list_update nth_eq_iff_index_eq printing_defs)
  moreover have "running_children s' = running_children s - 1" using steps(6) s6 f5 by (simp add: sysfix_def printing_defs)
  ultimately show ?thesis using i(1) steps(7) ne by auto
qed

text \<open>A process with one context, its own, and no open section leaves.\<close>

lemma lone_exits:
  fixes s :: syscall_state
  assumes s: "heap s = [50 \<mapsto> 24, 51 \<mapsto> 64, 52 \<mapsto> 64]" "actives s = [51 \<mapsto> 0]" "fresh s = k" "52 < k"
      "threads s = [50 \<mapsto> \<lparr>epoch_rec = 51, section_arr = 52, section_count = 0, buf_size = 8\<rparr>]"
      "grant s = (\<lambda>_. True)" "children s = [30]" "total_children s = 1" "child_at s = [30 \<mapsto> c]"
      "child_pid c = fst (answer s (length (trace s)) ''getpid'' [])"
  shows "\<exists>code s'. exit_child 50 s = Some (code, s')"
proof -
  define s1 where "s1 = s\<lparr>asked := Suc (asked s), fresh := k + 1, heap := [50 \<mapsto> 24, 51 \<mapsto> 64, 52 \<mapsto> 64, k \<mapsto> 4],
     slots := (slots s)(52 := (slots s 52)(0 := k)), actives := [51 \<mapsto> 1],
     threads := [50 \<mapsto> \<lparr>epoch_rec = 51, section_arr = 52, section_count = 1, buf_size = 8\<rparr>]\<rparr>"
  have k: "k \<noteq> 50" "k \<noteq> 51" "k \<noteq> 52" "k \<noteq> 0" "50 \<noteq> k" "51 \<noteq> k" "52 \<noteq> k" using s(4) by auto
  have 1: "epoch_start 50 s = Some (0, s1)"
    using k by (simp add: s1_def epoch_start_def epoch_grow_def s default_mem_alloc_def malloc_def slot_write_def slot_valid_def
        epoch_begin_def Let_def)
  have "children_ok s1" by (simp add: children_ok_def s1_def s)
  then have 2: "get_child s1 = Some (30, s1\<lparr>trace := trace s @ [(''getpid'', [])]\<rparr>)"
    by (simp add: get_child_spec s1_def s first_slot_def pid_of_def)
  have s1: "heap s1 = [50 \<mapsto> 24, 51 \<mapsto> 64, 52 \<mapsto> 64, k \<mapsto> 4]" "actives s1 = [51 \<mapsto> 1]" "slots s1 52 0 = k" "child_at s1 = [30 \<mapsto> c]"
    "threads s1 = [50 \<mapsto> \<lparr>epoch_rec = 51, section_arr = 52, section_count = 1, buf_size = 8\<rparr>]"
    by (simp_all add: s1_def s)
  show ?thesis
    using k by (simp add: exit_child_def 1 2 s1 cleanup_kernel_probes_def stop_all_sections_def slot_read_def slot_valid_def epoch_end_def
        default_mem_free_def free_def slot_write_def clean_thread_def set_child_pid_def upd_child_def)
qed

end
