(* ===== verification/Spawn.thy ===== *)
theory Spawn
  imports Fleet
begin

text \<open>
  How \<open>create_child\<close> and \<open>exit_child\<close> of \<^verbatim>\<open>syscall.c\<close> implement the steps of the process model in \<^verbatim>\<open>Fleet\<close>. \<open>seen\<close> relates
  the shared memory to a fleet. In \<open>create_child\<close> the parent leaves the shared state as it is, and the child
  claims the first empty slot with its pid, is counted, and goes on from there; in \<open>exit_child\<close> it empties
  its slot and is no longer counted.
\<close>

definition pids :: "'z syscall_state_scheme \<Rightarrow> int list" where
  "pids s = map (pid_of s) (children s)"

text \<open>What the child does once it is entered and counted: the message to the parent, and its start.\<close>

definition entered ::
    "u64 \<Rightarrow> 'z syscall_state_scheme services \<Rightarrow> ptr \<Rightarrow> nat \<Rightarrow> int \<Rightarrow> 'z syscall_state_scheme \<Rightarrow>
     (int run \<times> 'z syscall_state_scheme) option" where
  "entered rsize svc thread i chan s =
     (let (ret, s) = ext ''write'' [chan, 1] s in
      if ret < 1 then exits ''Write: %s'' thread s
      else do { (code, s) \<leftarrow> start_child rsize svc (word_of_nat i) s; Some (Exited code, s) })"

text \<open>The fleet that processes see in the shared memory of \<open>s\<close>.\<close>

definition seen :: "'z syscall_state_scheme \<Rightarrow> fleet \<Rightarrow> bool" where
  "seen s f \<longleftrightarrow> slot_pids f = pids s \<and> counter f = running_children s"

lemma pids_cong:
  fixes s s' :: "'z syscall_state_scheme"
  shows "sysfix s' = sysfix s \<Longrightarrow> pids s' = pids s"
  by (simp add: pids_def pid_of_def sysfix_def)

lemma sysfix_epoch_stop:
  fixes s s' :: "'z syscall_state_scheme"
  shows "epoch_stop t s = Some s' \<Longrightarrow> sysfix s' = sysfix s"
  by (auto simp: epoch_stop_def Let_def dest!: sysfix_epoch_steps sysfix_slot_write sysfix_mem
      elim!: bind_SomeE split: if_splits prod.splits)

lemma answer_epoch:
  fixes s s' :: "'z syscall_state_scheme"
  shows "epoch_start t s = Some (r, s') \<Longrightarrow> answer s' = answer s" and "epoch_stop t s = Some s' \<Longrightarrow> answer s' = answer s"
  by (auto simp: world_def epoch_stop_def epoch_end_def default_mem_free_def free_def slot_write_def Let_def dest: epoch_start_trace
      elim!: bind_SomeE split: if_splits)

lemma first_slotI: "i < length ps \<Longrightarrow> ps ! i = p \<Longrightarrow> (\<And>j. j < i \<Longrightarrow> ps ! j \<noteq> p) \<Longrightarrow> first_slot p ps = Some i"
  unfolding first_slot_def find_Some_iff by (intro exI [of _ i]) auto

lemma set_child_pid_pids:
  fixes s s' :: "'z syscall_state_scheme"
  assumes "distinct (children s)" and "i < length (children s)" and "set_child_pid (children s ! i) p s = Some s'"
  shows "pids s' = (pids s)[i := p]" and "running_children s' = running_children s"
  using assms
  by (auto simp: set_child_pid_def upd_child_def pids_def pid_of_def nth_list_update nth_eq_iff_index_eq
      intro!: nth_equalityI elim!: bind_SomeE)

section \<open>The way out\<close>

text \<open>The three blocks of a thread context; a section has 4 bytes, an epoch record more.\<close>

definition whole :: "ptr \<Rightarrow> 'z epoch_scheme \<Rightarrow> bool" where
  "whole t s \<longleftrightarrow> (case threads s t of
     None \<Rightarrow> False
   | Some ctx \<Rightarrow> distinct [t, epoch_rec ctx, section_arr ctx] \<and> heap s t = Some 24 \<and>
       (\<exists>k. k \<noteq> 4 \<and> heap s (epoch_rec ctx) = Some k))"

lemma init_thread_whole:
  fixes s :: "'z epoch_scheme"
  assumes "wf_os s" and "rsize \<notin> {0, 4}" and "\<And>i. grant s i"
  shows "\<exists>t s'. init_thread rsize s = Some (t, s') \<and> epoch_ok t 0 s' \<and> whole t s'"
proof -
  obtain t s' where t: "init_thread rsize s = Some (t, s')" "epoch_ok t 0 s'"
    using init_thread_granted [OF assms(1), of rsize] assms(2,3) by auto
  moreover have "0 < fresh s" using assms(1) by (simp add: wf_os_def)
  with t(1) assms(2,3) have "whole t s'"
    by (auto simp: init_thread_def default_mem_alloc_def malloc_def epoch_register_def whole_def)
  ultimately show ?thesis by blast
qed

lemma epoch_start_whole:
  fixes s :: "'z epoch_scheme"
  assumes ok: "epoch_ok t n s" and "n < 8" and "whole t s"
  shows "\<exists>r m s'. epoch_start t s = Some (r, s') \<and> epoch_ok t m s' \<and> whole t s'"
proof -
  from ok obtain ctx where c: "threads s t = Some ctx" "wf_os s" "section_count ctx = word_of_nat n"
    "heap s (section_arr ctx) = Some 64" "actives s (epoch_rec ctx) = Some (word_of_nat n)" by (rule epoch_okE)
  have fresh: "heap s (fresh s) = None" "0 < fresh s" using wf_os_fresh [OF c(2)] c(2) by (simp_all add: wf_os_def)
  have "\<exists>r m s'. epoch_start t s = Some (r, s') \<and> epoch_ok t m s'"
    using epoch_start_granted [OF assms(1,2)] epoch_start_refused [OF assms(1,2)] by blast
  then obtain r m s' where run: "epoch_start t s = Some (r, s')" "epoch_ok t m s'" by blast
  moreover have "whole t s'"
    using run(1) assms(2,3) c fresh epoch_grow_none [OF ok]
    by (auto simp: whole_def epoch_start_def default_mem_alloc_def malloc_def slot_write_def epoch_begin_Some Let_def printing_defs
        split: if_splits)
  ultimately show ?thesis by blast
qed

lemma clean_thread_whole:
  fixes s :: "'z epoch_scheme"
  assumes "epoch_ok t n s" and "whole t s"
  shows "\<exists>q s'. clean_thread t s = Some (q, s')"
proof -
  from assms obtain ctx k where c: "threads s t = Some ctx" "wf_os s" "heap s (section_arr ctx) = Some 64"
      "actives s (epoch_rec ctx) = Some (word_of_nat n)" "distinct [t, epoch_rec ctx, section_arr ctx]" "heap s t = Some 24"
      "heap s (epoch_rec ctx) = Some k"
    by (auto simp: epoch_ok_def whole_def split: option.splits)
  then have "t \<noteq> 0" "epoch_rec ctx \<noteq> 0" "section_arr ctx \<noteq> 0" by (auto simp: wf_os_def)
  with c show ?thesis by (simp add: clean_thread_def default_mem_free_def free_def Let_def domIff)
qed

lemma stop_all_whole:
  fixes s :: "'z epoch_scheme"
  assumes "epoch_ok t n s" and "whole t s"
  shows "\<exists>s'. stop_all_sections t s = Some s' \<and> epoch_ok t 0 s' \<and> whole t s'"
proof -
  from assms(1) obtain ctx where c: "threads s t = Some ctx" "section_count ctx = word_of_nat n" "n \<le> 8"
      "\<forall>i<n. heap s (slots s (section_arr ctx) i) = Some 4" by (rule epoch_okE)
  from stop_all_sections_ok [OF assms(1)] c(1) obtain s' where s': "stop_all_sections t s = Some s'" "epoch_ok t 0 s'"
      "heap s' = heap s |` (- slots s (section_arr ctx) ` {0..<n})" by blast
  then have "threads s' t = Some (ctx\<lparr>section_count := 0\<rparr>)"
    using c(1) by (auto simp: stop_all_sections_def elim!: bind_SomeE)
  moreover have "heap s' p = Some k" if "heap s p = Some k" "k \<noteq> 4" for p k
    using that c(4) s'(3) by (auto simp: restrict_map_def)
  ultimately have "whole t s'" using assms(2) c(1) by (auto simp: whole_def)
  with s'(1,2) show ?thesis by blast
qed

text \<open>Whatever the allocation of the section in it says, \<open>exit_child\<close> gets to its end.\<close>

lemma exit_child_returns:
  fixes s :: "'z syscall_state_scheme"
  assumes "epoch_ok t n s" and "n < 8" and "whole t s" and "children_ok s"
    and "fst (answer s (length (trace s)) ''getpid'' []) \<in> set (pids s)"
  shows "\<exists>code s'. exit_child t s = Some (code, s')"
proof -
  obtain r m s1 where 1: "epoch_start t s = Some (r, s1)" "epoch_ok t m s1" "whole t s1"
    using epoch_start_whole [OF assms(1-3)] by blast
  have f1: "sysfix s1 = sysfix s" "world s1 = world s" using sysfix_epoch_start [OF 1(1)] epoch_start_trace [OF 1(1)] by simp_all
  then have ok1: "children_ok s1" and p1: "pids s1 = pids s" using assms(4) children_ok_cong pids_cong by blast+
  obtain i where slot: "first_slot (fst (answer s (length (trace s)) ''getpid'' [])) (pids s) = Some i"
    using assms(5) by (cases "first_slot (fst (answer s (length (trace s)) ''getpid'' [])) (pids s)")
      (auto simp: first_slot_def find_None_iff in_set_conv_nth)
  have i: "i < length (children s1)" using first_slot_Some [OF slot] p1 by (metis length_map pids_def)
  have w: "answer s1 = answer s" "trace s1 = trace s" using f1(2) by (simp_all add: world_def)
  have 2: "get_child s1 = Some (children s1 ! i, s1\<lparr>trace := trace s1 @ [(''getpid'', [])]\<rparr>)"
    by (simp add: get_child_spec [OF ok1] w pids_def [symmetric] p1 slot)
  let ?s2 = "s1\<lparr>trace := trace s1 @ [(''getpid'', [])]\<rparr>"
  obtain c where c: "children s1 ! i \<noteq> NULL" "child_at s1 (children s1 ! i) = Some c"
    using ok1 i nth_mem [OF i] unfolding children_ok_def by (metis option.exhaust)
  have "epoch_ok t m ?s2" "whole t ?s2"
    using 1(2,3) by (auto simp: epoch_ok_def wf_os_def whole_def split: option.splits)
  then obtain s3 where 3: "stop_all_sections t ?s2 = Some s3" "epoch_ok t 0 s3" "whole t s3" using stop_all_whole by blast
  then obtain q s4 where 4: "clean_thread t s3 = Some (q, s4)" using clean_thread_whole by blast
  have "sysfix s4 = sysfix s1" using sysfix_epoch_exit(1) [OF 3(1)] sysfix_epoch_exit(2) [OF 4] by simp
  then have "child_at s4 = child_at s1" by (simp add: sysfix_def)
  with 1(1) 2 c 3(1) 4 show ?thesis
    by (simp add: exit_child_def cleanup_kernel_probes_def set_child_pid_def upd_child_def)
qed

section \<open>Entering\<close>

text \<open>The loop from index \<open>i\<close>, all slots before it being taken.\<close>

lemma create_from_enters:
  fixes s s' :: "'z syscall_state_scheme"
  assumes "children_ok s" and "create_from rsize svc t (length (children s)) i s = Some (r, s')"
    and "\<And>j. j < i \<Longrightarrow> pids s ! j \<noteq> EMPTY"
  shows "(\<exists>k. r = Return k \<and> sysfix s' = sysfix s) \<or>
     (\<exists>j k me chan u v code. r = Exited code \<and> first_slot EMPTY (pids s) = Some j \<and> sysfix u = sysfix s \<and>
        me = fst (answer s k ''getpid'' []) \<and> set_child_pid (children s ! j) me u = Some v \<and>
        entered rsize svc t j chan (v\<lparr>running_children := running_children v + 1\<rparr>) = Some (Exited code, s'))"
  using assms
proof (induction "length (children s) - i" arbitrary: i s rule: less_induct)
  case less
  show ?case
  proof (cases "i < length (children s)")
    case False
    then show ?thesis using less.prems(2) by (subst (asm) create_from.simps) auto
  next
    case True
    obtain q s1 where 1: "epoch_start t s = Some (q, s1)"
      using less.prems(2) True by (subst (asm) create_from.simps) (auto elim!: bind_SomeE)
    have f1: "sysfix s1 = sysfix s" by (rule sysfix_epoch_start [OF 1])
    then have same: "children s1 = children s" "child_at s1 = child_at s" by (simp_all add: sysfix_def)
    show ?thesis
    proof (cases "q = -1")
      case True
      then show ?thesis using less.prems(2) 1 f1 \<open>i < _\<close> by (subst (asm) create_from.simps) auto
    next
      case False
      obtain c s2 where c: "child_at s (children s ! i) = Some c" and 2: "epoch_stop t s1 = Some s2"
        using less.prems(2) True False 1 by (subst (asm) create_from.simps) (auto simp: same elim!: bind_SomeE)
      have f2: "sysfix s2 = sysfix s" using sysfix_epoch_stop [OF 2] f1 by simp
      have pid: "pids s ! i = child_pid c" using True c by (simp add: pids_def pid_of_def)
      show ?thesis
      proof (cases "child_pid c = EMPTY")
        case taken: False
        have *: "children s2 = children s" "pids s2 = pids s" "answer s2 = answer s"
          using f2 pids_cong [OF f2] answer_epoch(1) [OF 1] answer_epoch(2) [OF 2] by (simp_all add: sysfix_def)
        have "create_from rsize svc t (length (children s2)) (i + 1) s2 = Some (r, s')"
          using less.prems(2) True False 1 2 c taken unfolding * by (subst (asm) create_from.simps) (simp add: same)
        moreover have "pids s2 ! j \<noteq> EMPTY" if "j < i + 1" for j
          using that taken pid less.prems(3) unfolding * by (cases "j = i") auto
        moreover have "children_ok s2" using less.prems(1) children_ok_cong [OF f2] by simp
        ultimately show ?thesis using less.hyps [of s2 "i + 1"] True f2 unfolding * by simp
      next
        case empty: True
        have slot: "first_slot EMPTY (pids s) = Some i"
          by (rule first_slotI) (use True pid empty less.prems(3) in \<open>auto simp: pids_def\<close>)
        obtain a chan s3 where 3: "ext2 ''pipe'' [] s2 = ((a, chan), s3)" by (metis prod.exhaust)
        obtain pid s4 where 4: "ext ''fork'' [] s3 = (pid, s4)" by fastforce
        obtain me s5 where 5: "ext ''getpid'' [] s4 = (me, s5)" by fastforce
        have f5: "sysfix s3 = sysfix s" "sysfix s4 = sysfix s" "sysfix s5 = sysfix s" "children s5 = children s"
          using sysfix_base(3) [OF 5] sysfix_base(3) [OF 4] sysfix_base(4) [OF 3] f2 by (simp_all add: sysfix_def)
        note body = less.prems(2) [unfolded create_from.simps [of rsize svc t _ i s]]
        show ?thesis
        proof (cases "\<not> a < 0 \<and> pid = 0")
          case child: True
          then obtain v where v: "set_child_pid (children s ! i) me s5 = Some v"
              and "entered rsize svc t i chan (v\<lparr>running_children := running_children v + 1\<rparr>) = Some (r, s')"
            using body True False empty 1 2 c by (auto simp: same 3 4 5 f5 entered_def Let_def elim!: bind_SomeE)
          moreover from this(2) obtain code where "r = Exited code"
            by (auto simp: entered_def exits_def elim!: bind_SomeE split: prod.splits if_splits)
          moreover have "me = fst (answer s (length (trace s4)) ''getpid'' [])"
            using 3 4 5 answer_epoch(1) [OF 1] answer_epoch(2) [OF 2] by (auto simp: ext_eq ext2_def)
          ultimately show ?thesis using slot f5(3) by blast
        next
          case parent: False
          then show ?thesis using body True False empty 1 2 c f5
            by (auto simp: same 3 4 dest!: sysfix_base(3) split: prod.splits if_splits)
        qed
      qed
    qed
  qed
qed


definition thread1 :: syscall_state where
  "thread1 = thread0\<lparr>heap := [50 \<mapsto> 24, 51 \<mapsto> 64, 52 \<mapsto> 64], child_at := [30 \<mapsto> child0\<lparr>child_pid := 1\<rparr>]\<rparr>"

lemma thread1_whole: "epoch_ok 50 0 thread1" "whole 50 thread1"
proof -
  have "wf_os thread0" using thread0_sound by (simp add: sound_def epoch_ok_def)
  then show "epoch_ok 50 0 thread1" "whole 50 thread1"
    by (auto simp: epoch_ok_def whole_def wf_os_def thread1_def thread0_def split: if_splits)
qed

text \<open>A state with one empty context, in which every call returns 0 but \<open>getpid\<close>: the process that runs is a new
  child, and it cannot reach its parent.\<close>

definition spawn0 :: syscall_state where
  "spawn0 = thread1\<lparr>child_at := [30 \<mapsto> child0\<lparr>child_pid := EMPTY\<rparr>],
     answer := (\<lambda>_ f _. (if f = ''getpid'' then 7 else 0, 0))\<rparr>"

lemma spawn0_runs: "\<exists>code s'. create_child 64 svc 50 spawn0 = Some (Exited code, s')"
proof -
  have s: "heap spawn0 = [50 \<mapsto> 24, 51 \<mapsto> 64, 52 \<mapsto> 64]" "actives spawn0 = [51 \<mapsto> 0]" "fresh spawn0 = 60"
      "threads spawn0 = [50 \<mapsto> \<lparr>epoch_rec = 51, section_arr = 52, section_count = 0, buf_size = 8\<rparr>]"
      "grant spawn0 = (\<lambda>_. True)" "children spawn0 = [30]" "total_children spawn0 = 1"
      "child_at spawn0 = [30 \<mapsto> child0\<lparr>child_pid := EMPTY\<rparr>]" "answer spawn0 = (\<lambda>_ f _. (if f = ''getpid'' then 7 else 0, 0))"
    by (simp_all add: spawn0_def thread1_def thread0_def)
  obtain s1 where 1: "epoch_start 50 spawn0 = Some (0, s1)" and s1: "slots s1 52 0 = 60" "actives s1 = [51 \<mapsto> 1]"
      "heap s1 = [50 \<mapsto> 24, 51 \<mapsto> 64, 52 \<mapsto> 64, 60 \<mapsto> 4]" "fresh s1 = 61" "grant s1 = (\<lambda>_. True)" "answer s1 = answer spawn0"
      "threads s1 = [50 \<mapsto> \<lparr>epoch_rec = 51, section_arr = 52, section_count = 1, buf_size = 8\<rparr>]"
    by (simp add: epoch_start_def epoch_grow_def s default_mem_alloc_def malloc_def slot_write_def slot_valid_def epoch_begin_def Let_def)
  obtain s2 where 2: "epoch_stop 50 s1 = Some s2" and s2: "heap s2 = [50 \<mapsto> 24, 51 \<mapsto> 64, 52 \<mapsto> 64]" "actives s2 = [51 \<mapsto> 0]"
      "fresh s2 = 61" "threads s2 = [50 \<mapsto> \<lparr>epoch_rec = 51, section_arr = 52, section_count = 0, buf_size = 8\<rparr>]" "grant s2 = (\<lambda>_. True)"
      "answer s2 = answer spawn0"
    using s1 by (simp add: epoch_stop_def slot_read_def slot_valid_def slot_write_def epoch_end_def default_mem_free_def free_def Let_def)
  have f: "children s1 = [30]" "child_at s1 = child_at spawn0" "children s2 = [30]" "child_at s2 = child_at spawn0" "total_children s2 = 1"
    using sysfix_epoch_start [OF 1] sysfix_epoch_stop [OF 2] by (simp_all add: sysfix_def s)
  let ?c = "child0\<lparr>child_pid := 7\<rparr>"
  let ?s3 = "s2\<lparr>child_at := [30 \<mapsto> ?c], running_children := running_children s2 + 1,
     trace := trace s2 @ [(''pipe'', []), (''fork'', []), (''getpid'', []), (''write'', [0, 1])]\<rparr>"
  obtain code s' where "exit_child 50 (console_output ERROR ''Write: %s'' ?s3) = Some (code, s')"
    using lone_exits [of "console_output ERROR ''Write: %s'' ?s3" 61 ?c] s2 f s(9) by (auto simp: printing_defs)
  then have "exits ''Write: %s'' 50 ?s3 = Some (Exited code :: int run, s')" by (simp add: exits_def)
  then show ?thesis
    by (simp add: create_child_def s create_from.simps [of _ _ _ "Suc 0" 0] 1 2 f ext_eq ext2_def s2 set_child_pid_def upd_child_def)
qed


section \<open>Leaving\<close>

text \<open>C11. \<open>exit_child\<close> does to the shared state what the process model says of a leaving child. Called by a child with fewer than
  eight sections open, it always ends, even where memory is refused: it empties the first slot with the pid
  of the process, keeps all others, and takes one from the number of running children, and the code is 0. Where
  the model has the process alive in that slot these are the steps \<open>leave\<close> and \<open>uncount\<close>, after which the process is
  a zombie that has exited.\<close>

theorem exit_child_leaves:
  fixes s :: "'z syscall_state_scheme"
  assumes "children_ok s" and "epoch_ok t d s" and "d < 8" and "whole t s" and "seen s f"
    and "me = fst (answer s (length (trace s)) ''getpid'' [])" and "me \<in> set (pids s)"
  shows "\<exists>i s'. exit_child t s = Some (0, s') \<and> first_slot me (pids s) = Some i \<and>
     pids s' = (pids s)[i := EMPTY] \<and> running_children s' = running_children s - 1 \<and>
     (procs f me = Some (Alive i) \<longrightarrow>
      (\<exists>f1 f2. fleet_step n f f1 \<and> fleet_step n f1 f2 \<and> seen s' f2 \<and> procs f2 me = Some (Zombie True)))"
proof -
  obtain code s' where run: "exit_child t s = Some (code, s')"
    using exit_child_returns [OF assms(2-4,1)] assms(6,7) by auto
  obtain i where i: "first_slot me (pids s) = Some i" "pids s' = (pids s)[i := EMPTY]"
      "running_children s' = running_children s - 1" "code = 0"
    using exit_child_effect [OF assms(1) run] by (auto simp: assms(6) pids_def)
  let ?f1 = "f\<lparr>slot_pids := (slot_pids f)[i := EMPTY], procs := (procs f)(me \<mapsto> Leaving)\<rparr>"
  let ?f2 = "?f1\<lparr>counter := counter ?f1 - 1, procs := (procs ?f1)(me \<mapsto> Zombie True)\<rparr>"
  have "fleet_step n f ?f1" if "procs f me = Some (Alive i)" using that by (rule fleet_step.leave)
  moreover have "fleet_step n ?f1 ?f2" by (rule fleet_step.uncount) simp
  moreover have "seen s' ?f2" using i assms(5) by (simp add: seen_def)
  ultimately show ?thesis using i run by fastforce
qed

theorem exit_child_leaves_witness:
  "\<exists>s' f2. exit_child 50 thread1 = Some (0, s') \<and> pids s' = [EMPTY] \<and> seen s' f2 \<and> procs f2 1 = Some (Zombie True)"
proof -
  let ?f = "\<lparr>slot_pids = [1], counter = running_children thread1, procs = [1 \<mapsto> Alive 0], waiting = None, killed = 0\<rparr>"
  have s: "children_ok thread1" "pids thread1 = [1]" "answer thread1 = bn_answer"
    by (simp_all add: children_ok_def pids_def pid_of_def thread1_def thread0_def)
  have "seen thread1 ?f" by (simp add: seen_def s)
  from exit_child_leaves [OF s(1) thread1_whole(1) _ thread1_whole(2) this refl, of 1]
  show ?thesis by (auto simp: s bn_answer_def first_slot_def)
qed

section \<open>Reaping\<close>

lemma find_absent: "p \<notin> f ` set xs \<Longrightarrow> find (\<lambda>x. f x = p) xs = None"
  by (auto simp: find_None_iff)

text \<open>C14. A child empties its own slot before it exits, so that the handler of \<open>SIGCHLD\<close> never finds the context of a
  child that has exited. On shared memory that the process model describes, where \<open>waitpid\<close> reports as exited only what
  has exited in the model, the handler always ends, changes no slot, and returns with the first exited child it
  reaps: the exited children behind it stay zombies.\<close>

theorem exit_handler_stops:
  fixes s :: "'z syscall_state_scheme"
  assumes "children_ok s" and "seen s f" and "fleet_ok n f"
    and "\<And>k. 0 < fst (w k) \<Longrightarrow> WIFEXITED (snd (w k)) \<Longrightarrow> procs f (fst (w k)) = Some (Zombie True)"
    and "\<And>k. answer s (length (trace s) + k) ''waitpid'' [-1, WNOHANG] = w k"
    and "\<And>j. j < k \<Longrightarrow> 0 < fst (w j) \<and> \<not> WIFEXITED (snd (w j))"
    and "fst (w k) \<le> 0 \<or> WIFEXITED (snd (w k))"
  shows "child_exit_handler s = Some (s\<lparr>trace := trace s @ replicate (Suc k) (''waitpid'', [-1, WNOHANG])\<rparr>)"
  using assms
proof (induction k arbitrary: s w)
  case (Suc k)
  let ?s = "s\<lparr>trace := trace s @ [(''waitpid'', [-1, WNOHANG])]\<rparr>"
  have "0 < fst (w 0) \<and> \<not> WIFEXITED (snd (w 0))" using Suc.prems(6) [of 0] by simp
  then have "child_exit_handler s = child_exit_handler ?s"
    using Suc.prems(5) [of 0] by (cases "w 0") (simp add: child_exit_handler.simps [of s] ext2_def)
  also have "\<dots> = Some (?s\<lparr>trace := trace ?s @ replicate (Suc k) (''waitpid'', [-1, WNOHANG])\<rparr>)"
  proof (rule Suc.IH [of _ "\<lambda>j. w (Suc j)"])
    show "children_ok ?s" using Suc.prems(1) by (simp add: children_ok_def)
    show "seen ?s f" using Suc.prems(2) by (simp add: seen_def pids_def pid_of_def)
    show "answer ?s (length (trace ?s) + j) ''waitpid'' [-1, WNOHANG] = w (Suc j)" for j using Suc.prems(5) [of "Suc j"] by simp
    show "0 < fst (w (Suc j)) \<and> \<not> WIFEXITED (snd (w (Suc j)))" if "j < k" for j using Suc.prems(6) [of "Suc j"] that by simp
  qed (use Suc.prems(3,4,7) in auto)
  finally show ?case by simp
next
  case 0
  let ?s = "s\<lparr>trace := trace s @ [(''waitpid'', [-1, WNOHANG])]\<rparr>"
  have ok: "children_ok ?s" and pids: "pids ?s = pids s"
    using "0.prems"(1) by (simp_all add: children_ok_def pids_def pid_of_def)
  have "get_child_ctx_from_pid (fst (w 0)) ?s = Some NULL" if "0 < fst (w 0)"
  proof -
    have "fst (w 0) \<notin> set (pids s)"
      using fleet_okD(7) [OF "0.prems"(3)] "0.prems"(2) "0.prems"(4,7) that by (fastforce simp: seen_def)
    then have "find (\<lambda>p. pid_of ?s p = fst (w 0)) (children ?s) = None"
      unfolding pids [symmetric] by (intro find_absent) (simp add: pids_def)
    then show ?thesis by (simp only: ctx_from_pid [OF ok] option.case)
  qed
  then show ?case using "0.prems"(5) [of 0] "0.prems"(7)
    by (cases "w 0") (auto simp: child_exit_handler.simps [of s] ext2_def)
qed

text \<open>A killed child and then a child that has exited are reported: the handler asks twice.\<close>

theorem exit_handler_stops_witness:
  "child_exit_handler (spawn0\<lparr>answer := (\<lambda>k f a. if k = length (trace spawn0) then (9, 9) else (8, 0))\<rparr>) =
     Some (spawn0\<lparr>answer := (\<lambda>k f a. if k = length (trace spawn0) then (9, 9) else (8, 0)),
       trace := trace spawn0 @ [(''waitpid'', [-1, WNOHANG]), (''waitpid'', [-1, WNOHANG])]\<rparr>)"
proof -
  let ?s = "spawn0\<lparr>answer := (\<lambda>k f a. if k = length (trace spawn0) then (9, 9) else (8, 0))\<rparr>"
  let ?f = "\<lparr>slot_pids = [EMPTY], counter = 0, procs = [8 \<mapsto> Zombie True, 9 \<mapsto> Zombie False], waiting = None, killed = 0\<rparr>"
  let ?w = "\<lambda>k :: nat. if k = 0 then (9, 9) else (8, 0) :: int \<times> int"
  have s: "children_ok ?s" "seen ?s ?f"
    by (simp_all add: children_ok_def seen_def pids_def pid_of_def spawn0_def thread1_def thread0_def)
  have f: "fleet_ok 1 ?f" by (auto simp: fleet_ok_def counted_def EMPTY_def)
  have "child_exit_handler ?s = Some (?s\<lparr>trace := trace ?s @ replicate (Suc 1) (''waitpid'', [-1, WNOHANG])\<rparr>)"
    by (rule exit_handler_stops [OF s f, where w = ?w]) (auto simp: WIFEXITED_def split: if_splits)
  then show ?thesis by simp
qed

end
