(* ===== verification/Supervisor.thy ===== *)
theory Supervisor
  imports Spawn
begin

text \<open>
  The main process of the system call fuzzer: \<open>create_child\<close> and the main loop of \<^verbatim>\<open>syscall.c\<close> as the process sees
  them that calls them, that is where \<open>fork\<close> does not return 0. \<open>carries\<close> collects what its steps keep.
\<close>

declare create_from.simps [simp del]

definition carries :: "ptr \<Rightarrow> 'z syscall_state_scheme \<Rightarrow> 'z syscall_state_scheme \<Rightarrow> bool" where
  "carries t s s' \<longleftrightarrow> sysfix s' = sysfix s \<and> answer s' = answer s \<and> length (trace s) \<le> length (trace s') \<and>
     (epoch_ok t 0 s \<longrightarrow> epoch_ok t 0 s') \<and> (plenty s \<longrightarrow> plenty s')"

lemma carries_refl [simp, intro]: "carries t s s"
  by (simp add: carries_def)

lemma carries_trans [trans]: "carries t s u \<Longrightarrow> carries t u v \<Longrightarrow> carries t s v"
  by (auto simp: carries_def)

lemma epoch_ok_steps [simp]:
  "epoch_ok t n (s\<lparr>trace := a\<rparr>) = epoch_ok t n s" "epoch_ok t n (console_output k m s) = epoch_ok t n s"
  "plenty (s\<lparr>trace := a\<rparr>) = plenty s" "plenty (console_output k m s) = plenty s"
  by (auto simp: epoch_ok_def wf_os_def plenty_def printing_defs split: option.splits out_type.splits)

lemma carries_steps:
  fixes s s' :: "'z syscall_state_scheme"
  shows "ext f a s = (r, s') \<Longrightarrow> carries t s s'" and "ext2 f a s = (q, s') \<Longrightarrow> carries t s s'"
    and "carries t s (console_output k m s)"
proof -
  show "ext f a s = (r, s') \<Longrightarrow> carries t s s'" "ext2 f a s = (q, s') \<Longrightarrow> carries t s s'"
    by (auto simp: carries_def ext_eq ext2_def)
  show "carries t s (console_output k m s)"
    using world_simps(3) [of k m s] by (simp add: carries_def world_def)
qed

lemma carries_print [simp]: "carries t s (console_output k m u) = carries t s u"
  using world_simps(3) [of k m u] by (simp add: carries_def world_def)

lemma world_epoch_stop:
  fixes s s' :: "'z syscall_state_scheme"
  shows "epoch_stop t s = Some s' \<Longrightarrow> world s' = world s"
  by (auto simp: world_def epoch_stop_def epoch_end_def default_mem_free_def free_def slot_write_def Let_def
      elim!: bind_SomeE split: if_splits)

text \<open>A section that is opened and closed at once.\<close>

lemma section_carries:
  fixes s :: "'z syscall_state_scheme"
  assumes "epoch_ok t 0 s" and "plenty s"
  obtains s1 s2 where "epoch_start t s = Some (0, s1)" and "epoch_stop t s1 = Some s2"
    and "sysfix s1 = sysfix s" and "carries t s s2"
proof -
  obtain s1 where 1: "epoch_start t s = Some (0, s1)" "epoch_ok t 1 s1" "plenty s1"
    using ep.enter_ok [OF assms] by auto
  then obtain s2 where 2: "epoch_stop t s1 = Some s2" "epoch_ok t 0 s2" "plenty s2"
    using ep.leave_ok [of t 0 s1] by auto
  have "carries t s s2"
    using sysfix_epoch_start [OF 1(1)] sysfix_epoch_stop [OF 2(1)] epoch_start_trace [OF 1(1)] world_epoch_stop [OF 2(1)] 2(2,3)
    by (simp add: carries_def world_def)
  then show ?thesis using that 1(1) 2(1) sysfix_epoch_start [OF 1(1)] by blast
qed

lemma create_from_parent:
  fixes s :: "'z syscall_state_scheme"
  assumes "children_ok s" and "epoch_ok t 0 s" and "plenty s" and "\<And>k. fst (answer s k ''fork'' []) \<noteq> 0"
  shows "\<exists>r s'. create_from rsize svc t (length (children s)) i s = Some (Return r, s') \<and> carries t s s'"
  using assms
proof (induction "length (children s) - i" arbitrary: i s rule: less_induct)
  case less
  show ?case
  proof (cases "i < length (children s)")
    case False
    then show ?thesis by (subst create_from.simps) auto
  next
    case True
    obtain s1 s2 where 1: "epoch_start t s = Some (0, s1)" and 2: "epoch_stop t s1 = Some s2"
        and f1: "sysfix s1 = sysfix s" and c2: "carries t s s2"
      by (rule section_carries [OF less.prems(2,3)])
    have same: "children s1 = children s" "child_at s1 = child_at s" "children s2 = children s"
      using f1 c2 by (simp_all add: sysfix_def carries_def)
    obtain c where c: "child_at s (children s ! i) = Some c"
      using less.prems(1) True nth_mem unfolding children_ok_def by blast
    show ?thesis
    proof (cases "child_pid c = EMPTY")
      case False
      have dec: "length (children s2) - (i + 1) < length (children s) - i" using True same(3) by simp
      have "children_ok s2" "epoch_ok t 0 s2" "plenty s2" "fst (answer s2 k ''fork'' []) \<noteq> 0" for k
        using c2 less.prems children_ok_cong by (auto simp: carries_def)
      then obtain r s' where "create_from rsize svc t (length (children s2)) (i + 1) s2 = Some (Return r, s')" "carries t s2 s'"
        using less.hyps [OF dec] by blast
      then show ?thesis
        using True False 1 2 c same carries_trans [OF c2] by (subst create_from.simps) auto
    next
      case empty: True
      obtain a chan s3 where 3: "ext2 ''pipe'' [] s2 = ((a, chan), s3)" by (metis prod.exhaust)
      obtain pid s4 where 4: "ext ''fork'' [] s3 = (pid, s4)" by fastforce
      obtain n s5 where 5: "ext ''read'' [chan, 1] s4 = (n, s5)" by fastforce
      obtain m s6 where 6: "ext ''close'' [chan] s5 = (m, s6)" by fastforce
      obtain l s7 where 7: "ext ''close'' [chan] s6 = (l, s7)" by fastforce
      have c3: "carries t s s3" by (rule carries_trans [OF c2 carries_steps(2) [OF 3]])
      have c4: "carries t s s4" by (rule carries_trans [OF c3 carries_steps(1) [OF 4]])
      have c5: "carries t s s5" by (rule carries_trans [OF c4 carries_steps(1) [OF 5]])
      have c6: "carries t s s6" by (rule carries_trans [OF c5 carries_steps(1) [OF 6]])
      have c7: "carries t s s7" by (rule carries_trans [OF c6 carries_steps(1) [OF 7]])
      have "pid \<noteq> 0" using 4 c3 less.prems(4) by (auto simp: ext_eq carries_def)
      then show ?thesis
        using True empty 1 2 c c7 carries_trans [OF c3 carries_steps(3)] carries_trans [OF c4 carries_steps(3)]
          carries_trans [OF c5 carries_steps(3)]
        by (subst create_from.simps) (auto simp: same 3 4 5 6 7)
    qed
  qed
qed

lemma main_loop_parent:
  fixes s :: "'z syscall_state_scheme"
  assumes "children_ok s" and "epoch_ok t 0 s" and "plenty s" and "\<And>k. fst (answer s k ''fork'' []) \<noteq> 0"
    and "\<And>k. n \<le> k \<Longrightarrow> fst (answer s k ''stop'' []) \<noteq> FALSE"
  shows "\<exists>s'. main_loop rsize svc t s = Some (Return (), s') \<and> carries t s s'"
  using assms
proof (induction "n - length (trace s)" arbitrary: s rule: less_induct)
  case less
  obtain st s1 where 1: "load_stop s = (st, s1)" by fastforce
  have c1: "carries t s s1" using carries_steps(1) 1 by (simp add: load_stop_def)
  show ?case
  proof (cases "st = FALSE")
    case False
    then show ?thesis
      using 1 carries_trans [OF c1 carries_steps(3)] by (subst main_loop.simps) auto
  next
    case True
    obtain ru s2 where 2: "ext ''running_children'' [] s1 = (ru, s2)" by fastforce
    have c2: "carries t s s2" by (rule carries_trans [OF c1 carries_steps(1) [OF 2]])
    have long: "length (trace s) < length (trace s2)" using 1 2 by (auto simp: load_stop_def ext_eq)
    have "length (trace s) < n" using True 1 less.prems(5) by (auto simp: load_stop_def ext_eq not_le [symmetric])
    then have dec: "n - length (trace u) < n - length (trace s)" if "carries t s2 u" for u
      using that long by (auto simp: carries_def intro: diff_less_mono2)
    have ok: "children_ok u" "epoch_ok t 0 u" "plenty u" "\<And>k. fst (answer u k ''fork'' []) \<noteq> 0"
        "\<And>k. n \<le> k \<Longrightarrow> fst (answer u k ''stop'' []) \<noteq> FALSE" if "carries t s u" for u
      using that less.prems children_ok_cong by (auto simp: carries_def)
    have go: "\<exists>s'. main_loop rsize svc t u = Some (Return (), s') \<and> carries t s s'" if u: "carries t s2 u" for u
      using less.hyps [OF dec [OF u] ok [OF carries_trans [OF c2 u]]] carries_trans [OF carries_trans [OF c2 u]] by blast
    show ?thesis
    proof (cases "ru < uint (total_children s2)")
      case False
      then show ?thesis using go [OF carries_refl] True 1 2 by (subst main_loop.simps) simp
    next
      case run: True
      have "length (children s2) = unat (total_children s2)" using ok(1) [OF c2] by (simp add: children_ok_def)
      then obtain r s3 where 3: "create_child rsize svc t s2 = Some (Return r, s3)" and c3: "carries t s2 s3"
        using create_from_parent [OF ok(1-4) [OF c2], of rsize svc 0] by (auto simp: create_child_def)
      show ?thesis
        using go [OF c3] carries_trans [OF c2 carries_trans [OF c3 carries_steps(3)]] True run 1 2 3
        by (subst main_loop.simps) auto
    qed
  qed
qed

lemma sysfix_init_thread:
  fixes s s' :: "'z syscall_state_scheme"
  shows "init_thread rsize s = Some (p, s') \<Longrightarrow> sysfix s' = sysfix s"
  by (auto simp: init_thread_def epoch_register_def Let_def dest!: sysfix_mem elim!: bind_SomeE split: if_splits prod.splits)

text \<open>The loop with the installation of the handlers before it.\<close>

lemma main_loop_returns:
  fixes s :: "'z syscall_state_scheme"
  assumes "children_ok s" and "epoch_ok t 0 s" and "plenty s" and "\<And>k. fst (answer s k ''fork'' []) \<noteq> 0"
    and "\<And>k. n \<le> k \<Longrightarrow> fst (answer s k ''stop'' []) \<noteq> FALSE"
  shows "\<exists>s'. start_main_syscall_loop rsize svc t s = Some (Return (), s') \<and> sysfix s' = sysfix s \<and> epoch_ok t 0 s'"
proof -
  let ?s = "console_output STD ''Starting fuzzer'' s"
  obtain r u where u: "setup_signal_handler ?s = (r, u)" by fastforce
  have "carries t ?s u"
    using u by (auto simp: setup_signal_handler_def setup_ctrlc_handler_def intro: carries_trans
        dest!: carries_steps(1) [where t = t] split: prod.splits if_splits)
  then have cu: "carries t s u" by (rule carries_trans [OF carries_steps(3)])
  have "\<exists>s'. main_loop rsize svc t u = Some (Return (), s') \<and> carries t u s'"
    by (rule main_loop_parent [of u t n]) (use cu assms children_ok_cong in \<open>auto simp: carries_def\<close>)
  then have "\<exists>s'. start_main_syscall_loop rsize svc t s = Some (Return (), s') \<and> carries t s s'"
    using u carries_trans [OF cu] carries_steps(3) [of t u] by (cases "r < 0") (auto simp: start_main_syscall_loop_def)
  then show ?thesis using assms(2) by (auto simp: carries_def)
qed



end
