(* ===== verification/Lifecycle.thy ===== *)
theory Lifecycle
  imports Supervisor
begin

text \<open>
  The life of a child process as one function call: from \<open>create_child\<close>, in which it starts, through the loop to
  \<open>exit_child\<close>. \<open>book\<close> is the shared bookkeeping of the children, which nothing in between touches: the slots with
  their pids and the number of running children. The locale \<open>child_life\<close> says what the child relies on of its services.
\<close>

definition book where
  "book s = (total_children s, children s, map_option child_pid \<circ> child_at s, running_children s, answer s)"

lemma book_simps [simp]:
  "book (s\<lparr>test_counter := a\<rparr>) = book s" "book (console_output k m s) = book s" "book (printf m s) = book s"
  "book (snd (ext f as s)) = book s"
  by (simp_all add: book_def printing_defs ext_eq split: out_type.split)

lemma book_sysfix:
  fixes s s' :: "'z syscall_state_scheme"
  shows "sysfix s' = sysfix s \<Longrightarrow> book s' = book s"
  by (simp add: book_def sysfix_def)

lemma book_upd:
  fixes s s' :: "'z syscall_state_scheme"
  shows "upd_child p f s = Some s' \<Longrightarrow> (\<And>c. child_pid (f c) = child_pid c) \<Longrightarrow> book s' = book s"
  by (auto simp: upd_child_def book_def elim!: bind_SomeE)

lemma book_context:
  fixes s s' :: "'z syscall_state_scheme"
  shows "set_had_error p a s = Some s' \<Longrightarrow> book s' = book s" and "set_ret_value p b s = Some s' \<Longrightarrow> book s' = book s"
    and "set_did_jump p a s = Some s' \<Longrightarrow> book s' = book s" and "set_sig_num p b s = Some s' \<Longrightarrow> book s' = book s"
  by (auto simp: set_had_error_def set_ret_value_def set_did_jump_def set_sig_num_def elim: book_upd)

lemma book_pid: "book s' = book s \<Longrightarrow> pid_of s' p = pid_of s p"
  unfolding book_def pid_of_def by (auto simp: fun_eq_iff map_option_case dest!: spec [of _ p] split: option.splits)

lemma book_pids:
  fixes s s' :: "'z syscall_state_scheme"
  shows "book s' = book s \<Longrightarrow> pids s' = pids s"
  using book_pid [of s' s] by (auto simp: pids_def book_def)

lemma book_ok:
  fixes s s' :: "'z syscall_state_scheme"
  assumes "book s' = book s"
  shows "children_ok s' = children_ok s"
proof -
  have "child_at s' p = None \<longleftrightarrow> child_at s p = None" for p
    using assms by (auto simp: book_def fun_eq_iff dest!: spec [of _ p])
  then show ?thesis using assms by (auto simp: children_ok_def book_def)
qed

section \<open>What a round keeps\<close>

lemma sysfix_cleanup_buf: "cleanup_buf p s = Some s' \<Longrightarrow> sysfix s' = sysfix s"
  by (auto simp: cleanup_buf_def dest: sysfix_base split: if_splits)

lemma sysfix_log:
  fixes s s' :: "'z syscall_state_scheme"
  shows "log_arguments n name vals ctxs s = Some (r, s') \<Longrightarrow> sysfix s' = sysfix s"
    and "log_results e v x s = (r, s') \<Longrightarrow> sysfix s' = sysfix s"
  by (auto simp: log_arguments_def log_results_def asprintf_def dest!: sysfix_mem sysfix_cleanup_buf sysfix_base
      elim!: bind_SomeE split: if_splits prod.splits option.splits)

lemma sysfix_call_test:
  fixes s s' :: "'z syscall_state_scheme"
  assumes "call_test f symbol vals s = Some (r, s')"
  shows "sysfix s' = sysfix s"
proof -
  obtain how where "call_test f symbol vals s = kernel_call how symbol vals s"
    by (cases f) (auto simp: test_defs)
  with assms show ?thesis by (auto simp: kernel_call_def dest: sysfix_base elim!: bind_SomeE)
qed

lemma book_child_signal:
  fixes s s' :: "'z syscall_state_scheme"
  shows "child_signal_handler me sig p s = Some s' \<Longrightarrow> book s' = book s"
  by (auto simp: child_signal_handler_def jump_def dest!: book_context elim!: bind_SomeE split: if_splits)

lemma book_gen_args:
  fixes s s' :: "'z syscall_state_scheme"
  shows "gen_args_loop ctx n i s = Some (r, s') \<Longrightarrow> book s' = book s"
proof (induction n arbitrary: i s)
  case (Suc n)
  then show ?case
    by (auto simp: memcpy_def dest!: Suc.IH book_upd book_sysfix [OF call_generator_sysfix] book_sysfix [OF sysfix_base(5)]
        elim!: bind_SomeE split: option.splits if_splits prod.splits)
qed simp

lemma book_test_syscall:
  fixes s s' :: "'z syscall_state_scheme"
  shows "test_syscall ctx s = Some (r, s') \<Longrightarrow> book s' = book s \<and> (\<forall>code. r \<noteq> Exited code)"
  by (auto simp: test_syscall_def Let_def dest!: book_upd book_child_signal book_sysfix [OF sysfix_call_test] book_sysfix [OF sysfix_base(4)]
      elim!: bind_SomeE split: option.splits if_splits prod.splits)

section \<open>Leaving\<close>

text \<open>\<open>at_home me s\<close>: the contexts are in order and the pid of this process is \<open>me\<close>. \<open>gone\<close>: the process has left.\<close>

definition at_home :: "int \<Rightarrow> 'z syscall_state_scheme \<Rightarrow> bool" where
  "at_home me s \<longleftrightarrow> children_ok s \<and> (\<forall>k. fst (answer s k ''getpid'' []) = me)"

definition gone :: "int \<Rightarrow> 'z syscall_state_scheme \<Rightarrow> int \<Rightarrow> 'z syscall_state_scheme \<Rightarrow> bool" where
  "gone me s code s' \<longleftrightarrow> code = 0 \<and> me \<in> set (pids s) \<and> pids s' = clear_slot me (pids s) \<and>
     running_children s' = running_children s - 1"

definition lives :: "int \<Rightarrow> 'z syscall_state_scheme \<Rightarrow> 'a run \<Rightarrow> 'z syscall_state_scheme \<Rightarrow> bool" where
  "lives me s r s' \<longleftrightarrow> (case r of Exited code \<Rightarrow> gone me s code s' | _ \<Rightarrow> book s' = book s)"

lemma lives_simps [simp]:
  "lives me s (Exited code) s' = gone me s code s'" "lives me s (Return x) s' = (book s' = book s)"
  "lives me s Jumped s' = (book s' = book s)"
  by (simp_all add: lives_def)

lemma at_home_book:
  fixes s s' :: "'z syscall_state_scheme"
  shows "book s' = book s \<Longrightarrow> at_home me s' = at_home me s"
  using book_ok [of s' s] by (auto simp: at_home_def book_def)

lemma gone_book:
  fixes s s' u :: "'z syscall_state_scheme"
  shows "book u = book s \<Longrightarrow> gone me u code s' = gone me s code s'"
  using book_pids [of u s] by (simp add: gone_def book_def)

lemma exit_child_gone:
  fixes s s' :: "'z syscall_state_scheme"
  assumes "exit_child t s = Some (code, s')" and "at_home me s"
  shows "gone me s code s'"
proof -
  obtain i where "first_slot me (pids s) = Some i" "pids s' = (pids s)[i := EMPTY]"
      "running_children s' = running_children s - 1" "code = 0"
    using exit_child_effect [OF _ assms(1)] assms(2) by (auto simp: at_home_def pids_def)
  then show ?thesis using first_slot_Some nth_mem by (fastforce simp: gone_def clear_slot_def)
qed

lemma exits_gone:
  fixes s s' :: "'z syscall_state_scheme"
  shows "exits m t s = Some (r, s') \<Longrightarrow> at_home me s \<Longrightarrow> lives me s r s'"
  using at_home_book [of "console_output ERROR m s" s] gone_book [of "console_output ERROR m s" s]
  by (auto simp: exits_def dest!: exit_child_gone [where me = me] elim!: bind_SomeE)

text \<open>Steps that keep the book, and then a rest that lives.\<close>

lemma lives_book:
  fixes s u s' :: "'z syscall_state_scheme"
  shows "book u = book s \<Longrightarrow> lives me u r s' = lives me s r s'"
  using gone_book [of u s] by (simp add: lives_def split: run.split)

lemma exits_lives:
  fixes s u s' :: "'z syscall_state_scheme"
  assumes "exits m t u = Some (r, s')" and "book u = book s" and "at_home me s"
  shows "lives me s r s'"
  using exits_gone [OF assms(1), of me] assms(3) at_home_book [OF assms(2)] lives_book [OF assms(2), of me r s'] by simp

lemma exit_child_lives:
  fixes s u s' :: "'z syscall_state_scheme"
  assumes "exit_child t u = Some (code, s')" and "book u = book s" and "at_home me s"
  shows "gone me s code s'"
  using exit_child_gone [OF assms(1), of me] assms(3) at_home_book [OF assms(2)] gone_book [OF assms(2)] by simp

section \<open>The loop of a child\<close>

lemma keeps_book:
  fixes s s' :: "'z syscall_state_scheme"
  shows "keeps p s s' \<Longrightarrow> book s' = book s"
  by (auto simp: keeps_def intro: book_sysfix)

lemma book_free_shared:
  fixes s s' :: "'z syscall_state_scheme"
  shows "default_mem_free_shared p n s = (q, s') \<Longrightarrow> book s' = book s"
  using keeps_book [OF munmap_keeps] by (auto simp: default_mem_free_shared_def split: if_splits)

lemma sysfix_get_child:
  fixes s s' :: "'z syscall_state_scheme"
  shows "get_child s = Some (p, s') \<Longrightarrow> sysfix s' = sysfix s"
  by (auto simp: get_child_def get_child_index_number_def dest!: sysfix_base(3) elim!: bind_SomeE split: if_splits option.splits prod.splits)

lemma sysfix_wait_for_stop:
  fixes s s' :: "'z syscall_state_scheme"
  assumes "wait_for_stop s = Some s'"
  shows "sysfix s' = sysfix s"
  by (rule wait_for_stop.raw_induct [OF _ assms])
    (auto simp: load_stop_def dest!: sysfix_base(3) split: if_splits prod.splits)

lemma sysfix_child_handler:
  fixes s :: "'z syscall_state_scheme"
  shows "sysfix (snd (setup_child_signal_handler s)) = sysfix s"
  by (auto simp: setup_child_signal_handler_def setup_ctrlc_handler_def ext_eq)

lemmas book_start = sysfix_get_child [THEN book_sysfix] sysfix_wait_for_stop [THEN book_sysfix]
  sysfix_epoch_start [THEN book_sysfix] sysfix_epoch_stop [THEN book_sysfix]

lemma init_syscall_child_lives:
  fixes s s' :: "'z syscall_state_scheme"
  assumes "init_syscall_child i t s = Some (r, s')" and "at_home me s"
  shows "lives me s r s'"
  using assms(1) book_sysfix [OF sysfix_child_handler [of s]]
  by (auto simp: init_syscall_child_def inject_kernel_probes_def Let_def dest!: book_start elim!: bind_SomeE split: if_splits)
    (erule exits_lives [OF _ _ assms(2)], assumption)+

locale child_life = child_services svc for svc :: "'z syscall_state_scheme services" +
  assumes range_keeps: "svc_range svc n old s = (r, m, s') \<Longrightarrow> sysfix s' = sysfix s"
begin

lemma book_free_arg: "free_arg svc ctx type i s = Some s' \<Longrightarrow> book s' = book s"
  by (cases type)
    (auto simp: free_arg_def complain_def dest!: book_upd book_free_shared keeps_book [OF desc_keeps] keeps_book [OF socket_keeps]
      dirpath_keeps [THEN conjunct1, THEN keeps_book] filepath_keeps [THEN conjunct1, THEN keeps_book]
      elim!: bind_SomeE split: if_splits prod.splits)

lemma book_free_old: "free_old_arguments svc ctx s = Some (r, s') \<Longrightarrow> book s' = book s"
proof -
  have "free_args_loop svc ctx entry k i s = Some s' \<Longrightarrow> book s' = book s" for entry k i s s'
    by (induction k arbitrary: i s) (auto dest!: book_free_arg elim!: bind_SomeE)
  then show "free_old_arguments svc ctx s = Some (r, s') \<Longrightarrow> book s' = book s"
    by (auto simp: free_old_arguments_def elim!: bind_SomeE split: option.splits)
qed

lemma book_pick: "pick_syscall (svc_range svc) child s = Some (r, s') \<Longrightarrow> book s' = book s"
  by (auto simp: pick_syscall_def Let_def dest!: book_upd range_keeps [THEN book_sysfix] elim!: bind_SomeE split: if_splits prod.splits)

lemma book_report: "report_results svc child s = Some (r, s') \<Longrightarrow> book s' = book s"
  by (auto simp: report_results_def dest!: sysfix_log(2) book_sysfix elim!: bind_SomeE)

lemmas book_parts = book_pick book_report book_free_old book_gen_args sysfix_log(1) [THEN book_sysfix]
  sysfix_epoch_start [THEN book_sysfix] sysfix_epoch_stop [THEN book_sysfix]

lemma test_case_lives:
  assumes "generate_test_case svc child t s = Some (r, s')" and "at_home me s"
  shows "lives me s r s'"
  using assms(1)
  by (auto simp: generate_test_case_def generate_arguments_def dest!: book_parts elim!: bind_SomeE
      split: if_splits option.splits) (erule exits_lives [OF _ _ assms(2)], assumption)+

lemma after_setjmp_lives:
  assumes "after_setjmp svc t child s = Some (r, s')" and "at_home me s"
  shows "lives me s r s'"
  using assms(1)
  by (auto simp: after_setjmp_def dest!: book_parts elim!: bind_SomeE split: if_splits)
    (erule exits_lives [OF _ _ assms(2)], assumption)+

lemma child_round_lives:
  assumes "child_round svc t child s = Some (r, s')" and "at_home me s"
  shows "lives me s r s'"
proof -
  from assms(1) obtain q s1 x s2 where 1: "epoch_start t s = Some (q, s1)" "generate_test_case svc child t s1 = Some (x, s2)"
    by (auto simp: child_round_def elim!: bind_SomeE)
  have b1: "book s1 = book s" using book_sysfix [OF sysfix_epoch_start [OF 1(1)]] .
  have x: "lives me s x s2" using test_case_lives [OF 1(2), of me] assms(2) at_home_book [OF b1] lives_book [OF b1, of me x s2] by simp
  show ?thesis
  proof (cases x)
    case (Return k)
    with x have "book s2 = book s" by simp
    then show ?thesis
      using assms(1) 1 Return
      by (auto simp: child_round_def dest!: book_test_syscall book_parts elim!: bind_SomeE split: if_splits run.splits)
        (erule exits_lives [OF _ _ assms(2)], assumption)+
  qed (use assms(1) 1 x in \<open>auto simp: child_round_def\<close>)
qed

lemma child_loop_gone:
  assumes "child_loop svc jumped t child s = Some (code, s')" and "at_home me s"
  shows "gone me s code s'"
proof -
  have "v = svc \<longrightarrow> at_home me s \<longrightarrow> gone me s (fst w) (snd w)" if "child_loop v jumped t child s = Some w" for v jumped t child s w
  proof (rule child_loop.raw_induct [OF _ that], intro impI)
    fix rec v jumped t child s w
    assume IH: "\<And>v jumped t child s w. rec v jumped t child s = Some w \<Longrightarrow> v = svc \<longrightarrow> at_home me s \<longrightarrow> gone me s (fst w) (snd w)"
      and run: "(if jumped
        then do { (r, s) \<leftarrow> after_setjmp v t child s;
                  case r of
                    Exited code \<Rightarrow> Some (code, s)
                  | Jumped \<Rightarrow> rec v True t child s
                  | Return _ \<Rightarrow> rec v False t child s }
        else let (stop, s) = load_stop s in
             if stop \<noteq> TRUE
             then do { (r, s) \<leftarrow> child_round v t child s;
                       case r of
                         Exited code \<Rightarrow> Some (code, s)
                       | Jumped \<Rightarrow> rec v True t child s
                       | Return _ \<Rightarrow> rec v False t child s }
             else exit_child t s) = Some w"
      and home: "v = svc" "at_home me s"
    have again: "gone me s (fst w) (snd w)" if "rec svc j t child u = Some w" "book u = book s" for j u
      using IH [OF that(1)] home(2) at_home_book [OF that(2)] gone_book [OF that(2)] by simp
    have step: "gone me s (fst w) (snd w)" if "lives me s r u"
        "(case r of Exited code \<Rightarrow> Some (code, u) | Jumped \<Rightarrow> rec svc True t child u | Return _ \<Rightarrow> rec svc False t child u) = Some w"
      for r :: "unit run" and u
      using that again by (cases r) auto
    obtain st s1 where 1: "load_stop s = (st, s1)" by fastforce
    have b1: "book s1 = book s" using book_sysfix [OF sysfix_base(3) [OF 1 [unfolded load_stop_def]]] .
    show "gone me s (fst w) (snd w)"
    proof (cases jumped)
      case True
      then obtain r u where "after_setjmp svc t child s = Some (r, u)" using run home by (auto elim!: bind_SomeE)
      then show ?thesis using step [OF after_setjmp_lives] run home True by auto
    next
      case loop: False
      show ?thesis
      proof (cases "st = TRUE")
        case True
        then show ?thesis using run loop 1 exit_child_lives [OF _ b1 home(2)] by (cases w) auto
      next
        case False
        then obtain r u where r: "child_round svc t child s1 = Some (r, u)" using run home loop 1 by (auto elim!: bind_SomeE)
        have "lives me s r u"
          using child_round_lives [OF r, of me] home(2) at_home_book [OF b1] lives_book [OF b1, of me r u] by simp
        then show ?thesis using step run home loop False 1 r by auto
      qed
    qed
  qed
  from this [OF assms(1)] assms(2) show ?thesis by simp
qed

lemma start_child_loop_gone:
  assumes "start_child_loop svc t s = Some (code, s')" and "at_home me s"
  shows "gone me s code s'"
proof -
  note leave = exit_child_lives [OF _ _ assms(2)]
  have loop: "gone me s code s'" if "child_loop svc True t c u = Some (code, s')" "book u = book s" for c u
    using child_loop_gone [OF that(1), of me] at_home_book [OF that(2)] gone_book [OF that(2)] assms(2) by simp
  from assms(1) consider u where "exit_child t u = Some (code, s')" "book u = book s"
    | c u where "child_loop svc True t c u = Some (code, s')" "book u = book s"
    by (auto simp: start_child_loop_def start_syscall_child_def start_smart_syscall_child_def dest!: book_start
        elim!: bind_SomeE split: if_splits)
  then show ?thesis by cases (auto intro: leave loop)
qed

lemma start_child_gone:
  assumes "start_child rsize svc i s = Some (code, s')" and "at_home me s"
  shows "gone me s code s'"
proof -
  from assms(1) obtain t s1 where 1: "init_thread rsize s = Some (t, s1)" by (auto simp: start_child_def elim!: bind_SomeE)
  have b1: "book s1 = book s" by (rule book_sysfix [OF sysfix_init_thread [OF 1]])
  then have home: "at_home me s1" using assms(2) at_home_book by blast
  show ?thesis
  proof (cases "t = NULL")
    case True
    then show ?thesis
      using assms(1) 1 exit_child_lives [OF _ _ assms(2), of t "console_output ERROR ''Thread initialization failed'' s1"] b1
      by (simp add: start_child_def)
  next
    case False
    with assms(1) 1 obtain r s2 where 2: "init_syscall_child i t s1 = Some (r, s2)" by (auto simp: start_child_def elim!: bind_SomeE)
    have r: "lives me s r s2" using init_syscall_child_lives [OF 2 home] lives_book [OF b1, of me r s2] by simp
    show ?thesis
    proof (cases r)
      case (Return x)
      with r have b2: "book s2 = book s" by simp
      from Return assms(1) 1 2 False have "start_child_loop svc t s2 = Some (code, s')" by (simp add: start_child_def)
      from start_child_loop_gone [OF this, of me] show ?thesis
        using at_home_book [OF b2] gone_book [OF b2] assms(2) by simp
    qed (use assms(1) 1 2 False r in \<open>auto simp: start_child_def\<close>)
  qed
qed

lemma entered_gone:
  assumes "entered rsize svc t i chan s = Some (Exited code, s')" and "at_home me s"
  shows "gone me s code s'"
proof -
  obtain ret u where u: "ext ''write'' [chan, 1] s = (ret, u)" by fastforce
  have b: "book u = book s" by (rule book_sysfix [OF sysfix_base(3) [OF u]])
  from assms(1) u consider "exits ''Write: %s'' t u = Some (Exited code :: int run, s')"
    | "start_child rsize svc (word_of_nat i) u = Some (code, s')"
    by (auto simp: entered_def elim!: bind_SomeE split: if_splits)
  then show ?thesis
  proof cases
    case 1
    then show ?thesis using exits_lives [OF _ b assms(2)] by fastforce
  next
    case 2
    from start_child_gone [OF this, of me] show ?thesis using at_home_book [OF b] gone_book [OF b] assms(2) by simp
  qed
qed

end

interpretation ml: child_life "module_services sigtext"
  by unfold_locales (auto simp: module_services_def dest: default_range_frame)

section \<open>The whole life\<close>

lemma clear_claimed: "first_slot EMPTY ps = Some i \<Longrightarrow> me \<notin> set ps \<Longrightarrow> clear_slot me (ps[i := me]) = ps"
proof -
  assume slot: "first_slot EMPTY ps = Some i" and me: "me \<notin> set ps"
  have i: "i < length ps" "ps ! i = EMPTY" using first_slot_Some [OF slot] by simp_all
  have "first_slot me (ps[i := me]) = Some i"
    by (rule first_slotI) (use i me in \<open>auto simp: nth_list_update dest: nth_mem\<close>)
  then show ?thesis using i by (metis clear_slot_def list_update_id list_update_overwrite option.case(2))
qed

text \<open>C5. The life of a child. A process that \<open>create_child\<close> makes and that ends at all ends with code 0, and it leaves the
  slots and the number of running children as its parent found them, whatever system calls it has tested and
  whatever signals, errors of the kernel and refused allocations it has met on its way, with the services of the program. Its pid is that of
  a new process: no slot holds it.\<close>

theorem child_leaves_no_trace:
  fixes s s' :: "'z syscall_state_scheme"
  assumes "children_ok s" and "\<And>k. fst (answer s k ''getpid'' []) = me" and "me \<notin> set (pids s)"
    and "create_child rsize (module_services sigtext) t s = Some (Exited code, s')"
  shows "code = 0 \<and> pids s' = pids s \<and> running_children s' = running_children s"
proof -
  have len: "unat (total_children s) = length (children s)" "distinct (children s)"
    using assms(1) by (simp_all add: children_ok_def)
  from create_from_enters [OF assms(1) assms(4) [unfolded create_child_def len(1)]] assms(2)
  obtain i chan u v where slot: "first_slot EMPTY (pids s) = Some i" and fu: "sysfix u = sysfix s"
      and v: "set_child_pid (children s ! i) me u = Some v"
      and run: "entered rsize (module_services sigtext) t i chan (v\<lparr>running_children := running_children v + 1\<rparr>) = Some (Exited code, s')"
    by auto
  let ?v = "v\<lparr>running_children := running_children v + 1\<rparr>"
  have u: "children u = children s" "pids u = pids s" "running_children u = running_children s" "answer u = answer s"
    using fu pids_cong [OF fu] by (simp_all add: sysfix_def)
  have i: "i < length (children u)" using first_slot_Some [OF slot] by (simp add: u pids_def)
  have pv: "pids v = (pids s)[i := me]" "running_children v = running_children s"
    using set_child_pid_pids [of u i me v] len(2) v i u by simp_all
  have "pids ?v = pids v" by (simp add: pids_def pid_of_def)
  then have p: "pids ?v = (pids s)[i := me]" using pv by simp
  have "children_ok u" using assms(1) children_ok_cong [OF fu] by simp
  then have "at_home me ?v"
    using v u assms(2) by (auto simp: at_home_def children_ok_def set_child_pid_def upd_child_def intro!: gr0I elim!: bind_SomeE)
  from ml.entered_gone [OF run this] show ?thesis
    using clear_claimed [OF slot assms(3)] pv p by (simp add: gone_def)
qed

theorem child_leaves_no_trace_witness:
  "\<exists>s'. create_child 64 (module_services (\<lambda>_. None)) 50 spawn0 = Some (Exited 0, s') \<and> pids s' = [EMPTY]"
proof -
  have s: "children_ok spawn0" "pids spawn0 = [EMPTY]" "answer spawn0 = (\<lambda>_ f _. (if f = ''getpid'' then 7 else 0, 0))"
    by (simp_all add: children_ok_def pids_def pid_of_def spawn0_def thread1_def thread0_def)
  obtain code s' where run: "create_child 64 (module_services (\<lambda>_. None)) 50 spawn0 = Some (Exited code, s')" using spawn0_runs by blast
  have "code = 0 \<and> pids s' = pids spawn0 \<and> running_children s' = running_children spawn0"
    by (rule child_leaves_no_trace [OF s(1) _ _ run, of 7]) (simp_all add: s EMPTY_def)
  then show ?thesis using run s(2) by simp
qed

end
