(* ===== verification/Runtime.thy ===== *)
theory Runtime
  imports Random_Source
begin

text \<open>
  Model of \<^verbatim>\<open>src/src/runtime\<close>: the parsing of the command line in \<^verbatim>\<open>nextgen.c\<close>, the fuzzer objects and
  \<open>main\<close>. \<open>getopt_long\<close> is the one of the GNU C library: the list of what its calls return, up to the
  \<open>-1\<close>; its own messages are not recorded. The configuration is allocated and not initialised: its
  contents at the start are the argument \<open>junk\<close>. \<open>stat\<close> delivers the mode as a number.
\<close>

datatype fuzz_mode = MODE_FILE | MODE_SYSCALL | MODE_NETWORK

record fuzzer_config =
  exec_path :: "string option"
  input_path :: "string option"
  output_path :: "string option"
  args :: "string option"
  smart_mode :: int
  cfg_method :: crypto_method
  cfg_mode :: fuzz_mode

section \<open>Options\<close>

record longopt =
  opt_name :: string
  has_arg :: bool
  opt_val :: char

definition longopts :: "longopt list" where
  "longopts = map (\<lambda>(n, a, v). \<lparr>opt_name = n, has_arg = a, opt_val = v\<rparr>)
     [(''in'', True, CHR ''i''), (''out'', True, CHR ''o''), (''exec'', True, CHR ''e''),
      (''crypto'', True, CHR ''c''), (''port'', True, CHR ''p''), (''address'', True, CHR ''a''),
      (''protocol'', True, CHR ''c''), (''args'', True, CHR ''x''), (''file'', False, CHR ''f''),
      (''network'', False, CHR ''n''), (''syscall'', False, CHR ''s''), (''help'', False, CHR ''h''),
      (''dumb'', False, CHR ''d''), (''verbose'', False, CHR ''v'')]"

definition optstring :: string where
  "optstring = ''p:e:''"

text \<open>A long option is given by its name or by a prefix that no other option shares.\<close>

definition find_long :: "string \<Rightarrow> longopt option" where
  "find_long name =
     (case find (\<lambda>l. opt_name l = name) longopts of
        Some l \<Rightarrow> Some l
      | None \<Rightarrow> (case filter (\<lambda>l. take (length name) (opt_name l) = name) longopts of
                  [l] \<Rightarrow> Some l
                | _ \<Rightarrow> None))"

text \<open>What a long option returns, given the text after its equals sign and the following arguments: the
  value with its argument, and the arguments that are left. \<open>?\<close> is the error value.\<close>

definition long_result ::
    "longopt option \<Rightarrow> string option \<Rightarrow> string list \<Rightarrow> (char \<times> string option) \<times> string list" where
  "long_result lo given rest =
     (case lo of
        None \<Rightarrow> ((CHR ''?'', None), rest)
      | Some l \<Rightarrow>
          if has_arg l
          then (case given of
                  Some v \<Rightarrow> ((opt_val l, Some v), rest)
                | None \<Rightarrow> (case rest of
                            [] \<Rightarrow> ((CHR ''?'', None), [])
                          | v # rest \<Rightarrow> ((opt_val l, Some v), rest)))
          else if given = None then ((opt_val l, None), rest) else ((CHR ''?'', None), rest))"

text \<open>The short options \<open>p\<close> and \<open>e\<close> take an argument; every other letter is an error.\<close>

fun short_results :: "string \<Rightarrow> string list \<Rightarrow> (char \<times> string option) list \<times> string list" where
  "short_results [] rest = ([], rest)"
| "short_results (c # cs) rest =
     (if c = CHR ''p'' \<or> c = CHR ''e''
      then if cs \<noteq> [] then ([(c, Some cs)], rest)
           else (case rest of [] \<Rightarrow> ([(CHR ''?'', None)], []) | v # rest \<Rightarrow> ([(c, Some v)], rest))
      else let (rs, rest) = short_results cs rest in ((CHR ''?'', None) # rs, rest))"

lemma short_results_length: "length (snd (short_results cs rest)) \<le> length rest"
  by (induction cs rest rule: short_results.induct) (auto split: list.splits prod.splits)

lemma long_result_length: "length (snd (long_result lo given rest)) \<le> length rest"
  by (auto simp: long_result_def split: option.splits list.splits)

function getopt_long :: "string list \<Rightarrow> (char \<times> string option) list" where
  "getopt_long [] = []"
| "getopt_long (a # rest) =
     (if a = ''--'' then []
      else if take 2 a = ''--''
      then let name = takeWhile (\<lambda>c. c \<noteq> CHR ''='') (drop 2 a);
               given = (case dropWhile (\<lambda>c. c \<noteq> CHR ''='') (drop 2 a) of [] \<Rightarrow> None | _ # v \<Rightarrow> Some v);
               r = long_result (find_long name) given rest in
           fst r # getopt_long (snd r)
      else if take 1 a = ''-'' \<and> a \<noteq> ''-''
      then let r = short_results (drop 1 a) rest in fst r @ getopt_long (snd r)
      else getopt_long rest)"
  by pat_completeness auto

termination
  by (relation "measure length")
    (auto simp: less_Suc_eq_le short_results_length long_result_length Let_def)

section \<open>Setting the fields\<close>

definition stat_mode :: "string \<Rightarrow> 'z utils_scheme \<Rightarrow> int \<times> int \<times> 'z utils_scheme" where
  "stat_mode p s = (let (rtrn, s) = stat_path p s; (m, s) = ext ''st_mode'' [] s in (rtrn, m, s))"

text \<open>\<open>S_IFDIR\<close> is bit 14 and \<open>S_IXUSR\<close> bit 6. \<open>None\<close> is a null pointer.\<close>

definition set_input_path ::
    "fuzzer_config option \<Rightarrow> string option \<Rightarrow> 'z utils_scheme \<Rightarrow> int \<times> fuzzer_config option \<times> 'z utils_scheme" where
  "set_input_path config path s =
     (case config of
        None \<Rightarrow> (-1, config, nx_output ERROR ''Parser context is not allocated'' s)
      | Some c \<Rightarrow>
          (case path of
             None \<Rightarrow> (-1, config, nx_output ERROR ''Path supplied is NULL'' s)
           | Some p \<Rightarrow>
               let (rtrn, m, s) = stat_mode p s in
               if rtrn < 0 then (-1, config, nx_output ERROR ''Can't get stats: %s'' s)
               else if bit m 14 then (0, Some (c\<lparr>input_path := path\<rparr>), s)
               else (-1, config, nx_output ERROR ''Input path is not a directory'' s)))"

definition set_output_path ::
    "fuzzer_config option \<Rightarrow> string option \<Rightarrow> 'z utils_scheme \<Rightarrow> int \<times> fuzzer_config option \<times> 'z utils_scheme" where
  "set_output_path config path s =
     (case config of
        None \<Rightarrow> (-1, config, nx_output ERROR ''Parser context is not allocated'' s)
      | Some c \<Rightarrow>
          (case path of
             None \<Rightarrow> (-1, config, nx_output ERROR ''Path supplied is NULL'' s)
           | Some p \<Rightarrow>
               let (rtrn, m, s) = stat_mode p s in
               if rtrn \<noteq> -1 then (-1, config, nx_output ERROR ''Path already exist'' s)
               else (0, Some (c\<lparr>output_path := path\<rparr>), s)))"

definition set_exec_path ::
    "fuzzer_config option \<Rightarrow> string option \<Rightarrow> 'z utils_scheme \<Rightarrow> int \<times> fuzzer_config option \<times> 'z utils_scheme" where
  "set_exec_path config path s =
     (case config of
        None \<Rightarrow> (-1, config, nx_output ERROR ''Parser context is not allocated'' s)
      | Some c \<Rightarrow>
          (case path of
             None \<Rightarrow> (-1, config, nx_output ERROR ''Path supplied is NULL'' s)
           | Some p \<Rightarrow>
               let (rtrn, m, s) = stat_mode p s in
               if rtrn < 0 then (-1, config, nx_output ERROR ''Can't get stats: %s'' s)
               else if bit m 6 then (0, Some (c\<lparr>exec_path := path\<rparr>), s)
               else (-1, config, nx_output ERROR ''Exec path is not a excutable'' s)))"

text \<open>Every value of the two enumerations is legitimate; the error branches are for other numbers.\<close>

definition set_fuzz_mode :: "fuzzer_config \<Rightarrow> fuzz_mode \<Rightarrow> int \<times> fuzzer_config" where
  "set_fuzz_mode config m = (0, config\<lparr>cfg_mode := m\<rparr>)"

definition set_crypto_method :: "fuzzer_config \<Rightarrow> crypto_method \<Rightarrow> int \<times> fuzzer_config" where
  "set_crypto_method config meth = (0, config\<lparr>cfg_method := meth\<rparr>)"

section \<open>The command line\<close>

definition display_help_banner :: "'z os_scheme \<Rightarrow> 'z os_scheme" where
  "display_help_banner s =
     fold (nx_output STD)
       [''Nextgen is a Genetic File, Syscall, and Network Fuzzer.'',
        ''To use the file fuzzer in smart mode run the command below.'',
        ''sudo ./nextgen --file --in /path/to/in/directory --out /path/to/out/directory --exec /path/to/target/exec .'',
        ''To use the syscall fuzzer in smart mode run.'',
        ''sudo ./nextgen --syscall --out /path/to/out/directory'',
        ''To use dumb mode just pass --dumb with any of the above commands.''] (set_verbosity 1 s)"

definition sizeof_fuzzer_config :: u64 where
  "sizeof_fuzzer_config = 48"

definition init_fuzzer_config :: "'z os_scheme \<Rightarrow> ptr \<times> 'z os_scheme" where
  "init_fuzzer_config s =
     (let (config, s) = default_mem_alloc sizeof_fuzzer_config s in
      if config = NULL then (NULL, console_output ERROR ''Failed to allocate fuzzer config'' s) else (config, s))"

text \<open>The flags of the parser.\<close>

record flags =
  iFlag :: bool
  oFlag :: bool
  fFlag :: bool
  nFlag :: bool
  eFlag :: bool
  pFlag :: bool
  aFlag :: bool
  tFlag :: bool
  sFlag :: bool

definition no_flags :: flags where
  "no_flags = \<lparr>iFlag = False, oFlag = False, fFlag = False, nFlag = False, eFlag = False, pFlag = False,
     aFlag = False, tFlag = False, sFlag = False\<rparr>"

text \<open>One option. The first component is false where the function goes on to free the configuration and
  return \<open>NULL\<close>.\<close>

type_synonym 's parsed = "bool \<times> flags \<times> fuzzer_config \<times> 's"

definition set_path ::
    "(fuzzer_config option \<Rightarrow> string option \<Rightarrow> 'z utils_scheme \<Rightarrow> int \<times> fuzzer_config option \<times> 'z utils_scheme) \<Rightarrow>
     string \<Rightarrow> (flags \<Rightarrow> flags) \<Rightarrow> string option \<Rightarrow> flags \<Rightarrow> fuzzer_config \<Rightarrow> 'z utils_scheme \<Rightarrow> 'z utils_scheme parsed" where
  "set_path f msg upd arg fl c s =
     (let (rtrn, c', s) = f (Some c) arg s in
      if rtrn < 0 then (False, fl, c, console_output ERROR msg s) else (True, upd fl, the c', s))"

definition parse_option ::
    "char \<Rightarrow> string option \<Rightarrow> flags \<Rightarrow> fuzzer_config \<Rightarrow> 'z utils_scheme \<Rightarrow> 'z utils_scheme parsed" where
  "parse_option ch arg fl c s =
     (if ch = CHR ''h'' then (False, fl, c, display_help_banner s)
      else if ch = CHR ''p'' then (True, fl\<lparr>pFlag := True\<rparr>, c, s)
      else if ch = CHR ''a'' then (True, fl\<lparr>aFlag := True\<rparr>, c, s)
      else if ch = CHR ''t'' then (True, fl\<lparr>tFlag := True\<rparr>, c, s)
      else if ch = CHR ''e'' then set_path set_exec_path ''Can't set exec path'' (eFlag_update (\<lambda>_. True)) arg fl c s
      else if ch = CHR ''i'' then set_path set_input_path ''Can't set input path'' (iFlag_update (\<lambda>_. True)) arg fl c s
      else if ch = CHR ''o'' then set_path set_output_path ''Can't set output path'' (oFlag_update (\<lambda>_. True)) arg fl c s
      else if ch = CHR ''f''
      then let (rtrn, c) = set_fuzz_mode c MODE_FILE; fl = fl\<lparr>fFlag := True\<rparr> in
           if rtrn < 0 then (False, fl, c, console_output ERROR ''Can't set fuzz mode'' s) else (True, fl, c, s)
      else if ch = CHR ''n''
      then let (rtrn, c) = set_fuzz_mode c MODE_NETWORK; fl = fl\<lparr>nFlag := True\<rparr> in
           if rtrn < 0 then (False, fl, c, console_output ERROR ''Can't set fuzz mode'' s) else (True, fl, c, s)
      else if ch = CHR ''s''
      then let (rtrn, c) = set_fuzz_mode c MODE_SYSCALL; fl = fl\<lparr>sFlag := True\<rparr> in
           if rtrn < 0 then (False, fl, c, console_output ERROR ''Can't set fuzz mode'' s) else (True, fl, c, s)
      else if ch = CHR ''c''
      then let (rtrn, c) = set_crypto_method c NO_CRYPTO in
           if rtrn < 0 then (False, fl, c, console_output ERROR ''Can't set crypto method'' s) else (True, fl, c, s)
      else if ch = CHR ''d'' then (True, fl, c\<lparr>smart_mode := 0\<rparr>, s)
      else if ch = CHR ''v'' then (True, fl, c, set_verbosity 1 s)
      else if ch = CHR ''x''
      then let (rtrn, a, s) = asprintf (case arg of Some t \<Rightarrow> t | None \<Rightarrow> ''(null)'') s in
           if rtrn < 0 then (False, fl, c\<lparr>args := a\<rparr>, console_output ERROR ''asprintf: %s'' s)
           else (True, fl, c\<lparr>args := a\<rparr>, s)
      else (False, fl, c, display_help_banner s))"

fun parse_options ::
    "(char \<times> string option) list \<Rightarrow> flags \<Rightarrow> fuzzer_config \<Rightarrow> 'z utils_scheme \<Rightarrow> 'z utils_scheme parsed" where
  "parse_options [] fl c s = (True, fl, c, s)"
| "parse_options ((ch, arg) # opts) fl c s =
     (let (ok, fl, c, s) = parse_option ch arg fl c s in
      if ok then parse_options opts fl c s else (False, fl, c, s))"

text \<open>The tests after the loop: the message of the first that fails.\<close>

definition check_flags :: "flags \<Rightarrow> 'z os_scheme \<Rightarrow> bool \<times> 'z os_scheme" where
  "check_flags fl s =
     (if \<not> fFlag fl \<and> \<not> nFlag fl \<and> \<not> sFlag fl then (False, display_help_banner s)
      else if fFlag fl \<and> (\<not> iFlag fl \<or> \<not> oFlag fl \<or> \<not> eFlag fl)
      then (False, console_output STD ''Pass --exec , --in and --out for file mode'' s)
      else if nFlag fl \<and> (\<not> aFlag fl \<or> \<not> tFlag fl \<or> \<not> oFlag fl)
      then (False, console_output STD ''Pass --address , --port, --protocol, and --out for network mode'' s)
      else if sFlag fl \<and> \<not> oFlag fl then (False, console_output STD ''Pass --out for syscall mode'' s)
      else (True, s))"

text \<open>\<open>argv\<close> includes the name of the program. The result is the pointer and the configuration behind it.\<close>

definition parse_cmd_line ::
    "fuzzer_config \<Rightarrow> string list \<Rightarrow> 'z utils_scheme \<Rightarrow> (ptr \<times> fuzzer_config \<times> 'z utils_scheme) option" where
  "parse_cmd_line junk argv s =
     (if length argv = 1 then Some (NULL, junk, display_help_banner s)
      else
        let (config, s) = init_fuzzer_config s in
        if config = NULL then Some (NULL, junk, console_output ERROR ''Can't init parser context'' s)
        else
          let (rtrn, c) = set_crypto_method (junk\<lparr>smart_mode := 1\<rparr>) CRYPTO in
          if rtrn < 0 then Some (NULL, c, console_output ERROR ''Can't set crypto method'' s)
          else
            let (ok, fl, c, s) = parse_options (getopt_long (drop 1 argv)) no_flags c s;
                (ok, s) = (if ok then check_flags fl s else (False, s)) in
            if ok then Some (config, c, s)
            else do { (_, s) \<leftarrow> default_mem_free config s; Some (NULL, c, s) })"

definition nextgen_main :: "fuzzer_config \<Rightarrow> string list \<Rightarrow> 'z utils_scheme \<Rightarrow> (int \<times> 'z utils_scheme) option" where
  "nextgen_main junk argv s =
     (let (writter, s) = get_console_writter s in
      if writter = NULL then Some (-1, printf ''Failed to get console writter'' s)
      else
        let (allocator, s) = get_default_allocator s in
        if allocator = NULL then Some (-1, console_output ERROR ''Failed to get memory allocator'' s)
        else do { (config, c, s) \<leftarrow> parse_cmd_line junk argv s;
                  if config = NULL then Some (-1, s) else Some (0, s) })"

section \<open>Fuzzer objects\<close>

definition get_fuzzer :: "fuzzer_config \<Rightarrow> ptr" where
  "get_fuzzer config = NULL"

definition stop_syscall_fuzzer :: int where "stop_syscall_fuzzer = 0"

definition start_syscall_fuzzer :: int where "start_syscall_fuzzer = 0"

text \<open>The state is that of the random numbers; \<open>seed\<close> is the function behind \<open>random->seed\<close>.\<close>

definition setup_syscall_fuzzer ::
    "('z utils_scheme \<Rightarrow> (int \<times> 'z utils_scheme) option) \<Rightarrow> 'z utils_scheme \<Rightarrow> (int \<times> 'z utils_scheme) option" where
  "setup_syscall_fuzzer seed s =
     do { (rtrn, s) \<leftarrow> seed s;
          if rtrn < 0 then Some (-1, console_output ERROR ''Failed to seed random number generator'' s)
          else Some (0, s) }"

text \<open>The object and the functions stored in it; its size is that of three pointers.\<close>

record 's fuzzer_instance =
  fuzzer_stop :: int
  fuzzer_setup :: "('s \<Rightarrow> (int \<times> 's) option) \<Rightarrow> 's \<Rightarrow> (int \<times> 's) option"
  fuzzer_start :: int

definition get_syscall_fuzzer ::
    "'z utils_scheme \<Rightarrow> ptr \<times> 'z utils_scheme fuzzer_instance option \<times> 'z utils_scheme" where
  "get_syscall_fuzzer s =
     (let (fuzzer, s) = default_mem_alloc 24 s in
      if fuzzer = NULL then (NULL, None, console_output ERROR ''Failed to allocate syscall fuzzer: %s'' s)
      else (fuzzer, Some \<lparr>fuzzer_stop = stop_syscall_fuzzer, fuzzer_setup = setup_syscall_fuzzer,
              fuzzer_start = start_syscall_fuzzer\<rparr>, s))"

section \<open>What the parser accepts\<close>

text \<open>The values of the table: \<open>t\<close> is none of them.\<close>

definition option_values :: "char set" where
  "option_values = {CHR ''i'', CHR ''o'', CHR ''e'', CHR ''c'', CHR ''p'', CHR ''a'', CHR ''x'', CHR ''f'', CHR ''n'',
     CHR ''s'', CHR ''h'', CHR ''d'', CHR ''v'', CHR ''?''}"

lemma find_long_value:
  assumes "find_long name = Some l"
  shows "opt_val l \<in> option_values"
proof -
  have "l \<in> set longopts" if "filter P longopts = [l]" for P using that by (metis filter_is_subset list.set_intros(1) subsetD)
  with assms have "l \<in> set longopts"
    by (auto simp: find_long_def find_Some_iff split: option.splits list.splits)
  then show ?thesis by (auto simp: longopts_def option_values_def)
qed

lemma long_result_value: "fst (fst (long_result (find_long name) given rest)) \<in> option_values"
  using find_long_value [of name]
  by (auto simp: long_result_def option_values_def split: option.splits list.splits)

lemma short_results_value: "x \<in> set (fst (short_results cs rest)) \<Longrightarrow> fst x \<in> option_values"
  by (induction cs rest rule: short_results.induct) (auto simp: option_values_def split: list.splits prod.splits if_splits)

lemma getopt_value: "x \<in> set (getopt_long argv) \<Longrightarrow> fst x \<in> option_values"
proof (induction argv rule: length_induct)
  case (1 argv)
  show ?case
  proof (cases argv)
    case (Cons a rest)
    have IH: "fst x \<in> option_values" if "length ys \<le> length rest" "x \<in> set (getopt_long ys)" for ys
      using 1(1) [rule_format, of ys] that Cons by simp
    show ?thesis
      using 1(2) long_result_value short_results_value [of x] IH [OF long_result_length] IH [OF short_results_length] IH [of rest]
      by (auto simp: Cons Let_def split: if_splits)
  qed (use 1 in simp)
qed

definition mode_of :: "char \<Rightarrow> fuzz_mode \<Rightarrow> fuzz_mode" where
  "mode_of ch m = (if ch = CHR ''f'' then MODE_FILE else if ch = CHR ''n'' then MODE_NETWORK
     else if ch = CHR ''s'' then MODE_SYSCALL else m)"

definition out_of :: "char \<times> string option \<Rightarrow> string option \<Rightarrow> string option" where
  "out_of x p = (if fst x = CHR ''o'' then snd x else p)"

lemma banner_frame [simp]:
  "heap (display_help_banner s) = heap s" "fresh (display_help_banner s) = fresh s" "regions (display_help_banner s) = regions s"
  by (simp_all add: display_help_banner_def printing_defs set_verbosity_def)

lemma stat_mode_frame: "stat_mode p s = (r, m, s') \<Longrightarrow> heap s' = heap s"
  by (auto simp: stat_mode_def stat_path_def ext_eq split: prod.splits if_splits)

lemma set_paths:
  "set_exec_path (Some c) arg s = (r, c', s') \<Longrightarrow> heap s' = heap s \<and> (\<not> r < 0 \<longrightarrow> c' = Some (c\<lparr>exec_path := arg\<rparr>))"
  "set_input_path (Some c) arg s = (r, c', s') \<Longrightarrow> heap s' = heap s \<and> (\<not> r < 0 \<longrightarrow> c' = Some (c\<lparr>input_path := arg\<rparr>))"
  "set_output_path (Some c) arg s = (r, c', s') \<Longrightarrow> heap s' = heap s \<and> (\<not> r < 0 \<longrightarrow> c' = Some (c\<lparr>output_path := arg\<rparr>))"
  by (auto simp: set_exec_path_def set_input_path_def set_output_path_def printing_defs dest: stat_mode_frame
      split: option.splits prod.splits if_splits)

lemma parse_option_frame: "parse_option ch arg fl c s = (ok, fl', c', s') \<Longrightarrow> heap s' = heap s"
  by (auto simp: parse_option_def set_path_def set_fuzz_mode_def set_crypto_method_def asprintf_def printing_defs
      set_verbosity_def dest!: set_paths split: if_splits prod.splits)

lemma parse_option_ok:
  assumes "parse_option ch arg fl c s = (True, fl', c', s')"
  shows "ch \<notin> {CHR ''h'', CHR ''?''}" and "iFlag fl' = (iFlag fl \<or> ch = CHR ''i'')" and "oFlag fl' = (oFlag fl \<or> ch = CHR ''o'')"
    and "fFlag fl' = (fFlag fl \<or> ch = CHR ''f'')" and "nFlag fl' = (nFlag fl \<or> ch = CHR ''n'')"
    and "eFlag fl' = (eFlag fl \<or> ch = CHR ''e'')" and "tFlag fl' = (tFlag fl \<or> ch = CHR ''t'')"
    and "sFlag fl' = (sFlag fl \<or> ch = CHR ''s'')" and "cfg_mode c' = mode_of ch (cfg_mode c)"
    and "cfg_method c' = (if ch = CHR ''c'' then NO_CRYPTO else cfg_method c)"
    and "smart_mode c' = (if ch = CHR ''d'' then 0 else smart_mode c)" and "output_path c' = out_of (ch, arg) (output_path c)"
  using assms
  by (auto simp: parse_option_def set_path_def set_fuzz_mode_def set_crypto_method_def mode_of_def out_of_def
      dest!: set_paths split: if_splits prod.splits)

lemma parse_options_frame: "parse_options opts fl c s = (ok, fl', c', s') \<Longrightarrow> heap s' = heap s"
  by (induction opts fl c s rule: parse_options.induct)
    (auto dest: parse_option_frame split: prod.splits if_splits)

text \<open>A projection that every accepted option changes by \<open>g\<close> is folded over the options.\<close>

lemma parse_options_fold:
  fixes s s' :: "'z utils_scheme"
  assumes "\<And>ch arg fl c (s :: 'z utils_scheme) fl' c' s'. parse_option ch arg fl c s = (True, fl', c', s') \<Longrightarrow> P fl' c' = g (ch, arg) (P fl c)"
    and "parse_options opts fl c s = (True, fl', c', s')"
  shows "P fl' c' = fold g opts (P fl c)"
  using assms(2)
proof (induction opts arbitrary: fl c s)
  case (Cons x opts)
  obtain fl1 c1 s1 where "parse_option (fst x) (snd x) fl c s = (True, fl1, c1, s1)"
      and rest: "parse_options opts fl1 c1 s1 = (True, fl', c', s')"
    using Cons.prems by (cases x) (auto split: prod.splits if_splits)
  from assms(1) [OF this(1)] Cons.IH [OF rest] show ?case by simp
qed simp

lemma fold_flag: "fold (\<lambda>x b. b \<or> fst x = k) opts b \<longleftrightarrow> b \<or> k \<in> fst ` set opts"
  by (induction opts arbitrary: b) auto

lemma fold_choice: "fold (\<lambda>x v. if fst x = k then d else v) opts v = (if k \<in> fst ` set opts then d else v)"
  by (induction opts arbitrary: v) auto

lemma fold_mode: "fold (\<lambda>x. mode_of (fst x)) opts m = fold mode_of (map fst opts) m"
  by (simp add: fold_map comp_def)

lemma fold_refused: "fold (\<lambda>x b. b \<and> fst x \<notin> A) opts b \<longleftrightarrow> b \<and> fst ` set opts \<inter> A = {}"
  by (induction opts arbitrary: b) auto

lemma parse_options_flags:
  assumes "parse_options opts fl c s = (True, fl', c', s')"
  shows "fst ` set opts \<inter> {CHR ''h'', CHR ''?''} = {}"
    and "iFlag fl' \<longleftrightarrow> iFlag fl \<or> CHR ''i'' \<in> fst ` set opts" and "oFlag fl' \<longleftrightarrow> oFlag fl \<or> CHR ''o'' \<in> fst ` set opts"
    and "fFlag fl' \<longleftrightarrow> fFlag fl \<or> CHR ''f'' \<in> fst ` set opts" and "nFlag fl' \<longleftrightarrow> nFlag fl \<or> CHR ''n'' \<in> fst ` set opts"
    and "eFlag fl' \<longleftrightarrow> eFlag fl \<or> CHR ''e'' \<in> fst ` set opts" and "tFlag fl' \<longleftrightarrow> tFlag fl \<or> CHR ''t'' \<in> fst ` set opts"
    and "sFlag fl' \<longleftrightarrow> sFlag fl \<or> CHR ''s'' \<in> fst ` set opts"
proof -
  note f = parse_options_fold [OF _ assms, where g = "\<lambda>x b. b \<or> fst x = k" for k, unfolded fold_flag fst_conv]
  note ok = parse_option_ok
  have "True = fold (\<lambda>x b. b \<and> fst x \<notin> {CHR ''h'', CHR ''?''}) opts True"
    by (rule parse_options_fold [OF _ assms, where P = "\<lambda>_ _. True"]) (use ok(1) in force)
  then show "fst ` set opts \<inter> {CHR ''h'', CHR ''?''} = {}" unfolding fold_refused by blast
  show "iFlag fl' \<longleftrightarrow> iFlag fl \<or> CHR ''i'' \<in> fst ` set opts" using ok(2) by (rule f)
  show "oFlag fl' \<longleftrightarrow> oFlag fl \<or> CHR ''o'' \<in> fst ` set opts" using ok(3) by (rule f)
  show "fFlag fl' \<longleftrightarrow> fFlag fl \<or> CHR ''f'' \<in> fst ` set opts" using ok(4) by (rule f)
  show "nFlag fl' \<longleftrightarrow> nFlag fl \<or> CHR ''n'' \<in> fst ` set opts" using ok(5) by (rule f)
  show "eFlag fl' \<longleftrightarrow> eFlag fl \<or> CHR ''e'' \<in> fst ` set opts" using ok(6) by (rule f)
  show "tFlag fl' \<longleftrightarrow> tFlag fl \<or> CHR ''t'' \<in> fst ` set opts" using ok(7) by (rule f)
  show "sFlag fl' \<longleftrightarrow> sFlag fl \<or> CHR ''s'' \<in> fst ` set opts" using ok(8) by (rule f)
qed

lemma parse_options_config:
  assumes "parse_options opts fl c s = (True, fl', c', s')"
  shows "cfg_mode c' = fold mode_of (map fst opts) (cfg_mode c)"
    and "cfg_method c' = (if CHR ''c'' \<in> fst ` set opts then NO_CRYPTO else cfg_method c)"
    and "smart_mode c' = (if CHR ''d'' \<in> fst ` set opts then 0 else smart_mode c)"
    and "output_path c' = fold out_of opts (output_path c)"
proof -
  note f = parse_options_fold [OF _ assms]
  show "cfg_mode c' = fold mode_of (map fst opts) (cfg_mode c)"
    unfolding fold_mode [symmetric] by (rule f) (drule parse_option_ok(9), simp)
  show "cfg_method c' = (if CHR ''c'' \<in> fst ` set opts then NO_CRYPTO else cfg_method c)"
    unfolding fold_choice [symmetric] by (rule f) (drule parse_option_ok(10), simp)
  show "smart_mode c' = (if CHR ''d'' \<in> fst ` set opts then 0 else smart_mode c)"
    unfolding fold_choice [symmetric] by (rule f) (drule parse_option_ok(11), simp)
  show "output_path c' = fold out_of opts (output_path c)" by (rule f) (rule parse_option_ok(12))
qed

lemma check_flags_ok:
  "check_flags fl s = (ok, s') \<Longrightarrow> heap s' = heap s \<and>
     (ok \<longrightarrow> (fFlag fl \<or> nFlag fl \<or> sFlag fl) \<and> (fFlag fl \<longrightarrow> iFlag fl \<and> oFlag fl \<and> eFlag fl) \<and>
        (nFlag fl \<longrightarrow> tFlag fl) \<and> (sFlag fl \<longrightarrow> oFlag fl))"
  by (auto simp: check_flags_def printing_defs split: if_splits)


text \<open>The program called with \<^verbatim>\<open>--syscall --out o\<close>.\<close>

definition junk0 :: fuzzer_config where
  "junk0 = \<lparr>exec_path = None, input_path = None, output_path = None, args = None, smart_mode = 0,
     cfg_method = NO_CRYPTO, cfg_mode = MODE_FILE\<rparr>"

lemma getopt_example:
  "getopt_long (drop 1 [''nextgen'', ''--syscall'', ''--out'', ''o'']) = [(CHR ''s'', None), (CHR ''o'', Some ''o'')]"
  by (simp add: find_long_def longopts_def long_result_def)


end
