(* ===== verification/File.thy ===== *)
theory File
  imports Mutate Log Syscall
begin

text \<open>
  Model of \<^verbatim>\<open>src/src/file\<close>: the file fuzzer. The contexts of the input files are values; their array
  has one slot for each counted file, \<open>None\<close> until it is written, and an access outside it is
  undefined. The input file is mapped shared and for writing, so that what a mutator writes into the
  buffer is what the file holds. \<open>run_test_case\<close> is the one of the platform; on Linux it does
  nothing, on FreeBSD it runs the target in a child process.
\<close>

datatype file_type = BINARY | TEXT

record file_ctx =
  fc_path :: string
  fc_extension :: string
  fc_size :: u64

record file_state = utils +
  path_to_exec :: "string option"
  start_offset :: u64
  file_array :: "file_ctx option list option"
  file_count :: u32
  input_dir :: string
  file_setup :: int

section \<open>Small operations\<close>

text \<open>The stop variable belongs to the caller of the set-up: a load of it is answered by the environment, and
  the store of the handler is a call that leaves the program.\<close>

definition file_ctrlc_handler :: "'z os_scheme \<Rightarrow> 'z os_scheme" where
  "file_ctrlc_handler s = snd (ext ''store_stop'' [TRUE] s)"

text \<open>The three calls of \<open>signal\<close>, with the numbers of the signals and whether the handler is installed.\<close>

definition file_setup_signal_handler :: "'z os_scheme \<Rightarrow> 'z os_scheme" where
  "file_setup_signal_handler s =
     snd (ext ''signal'' [2, 1] (snd (ext ''signal'' [17, 0] (snd (ext ''signal'' [8, 0] s)))))"

definition get_exec_path ::
    "string option \<Rightarrow> 'z file_state_scheme \<Rightarrow> int \<times> string option \<times> 'z file_state_scheme" where
  "get_exec_path exec s =
     (if file_setup s \<noteq> 1 then (-1, exec, console_output ERROR ''Setup the file module first'' s)
      else (0, path_to_exec s, s))"

definition set_start_addr :: "u64 \<Rightarrow> 'z file_state_scheme \<Rightarrow> 'z file_state_scheme" where
  "set_start_addr addr s = s\<lparr>start_offset := addr\<rparr>"

definition get_start_addr :: "'z file_state_scheme \<Rightarrow> u64" where
  "get_start_addr s = start_offset s"

definition set_end_offset :: "u64 \<Rightarrow> int" where
  "set_end_offset offset = 0"

definition start_file_smart_loop :: "'s \<Rightarrow> 's" where
  "start_file_smart_loop s = s"

section \<open>The input files\<close>

text \<open>The path is never null here. The fields of the context are indeterminate until they are set; a
  context is delivered only when all are. Where the function fails after the allocation, the context
  stays allocated.\<close>

definition init_file_ctx :: "string \<Rightarrow> 'z utils_scheme \<Rightarrow> file_ctx option \<times> 'z utils_scheme" where
  "init_file_ctx path s =
     (let (file, s) = mem_alloc 32 s in
      if file = NULL then (None, console_output ERROR ''Can't allocate file context'' s)
      else
        let (rtrn, extension, s) = get_extension path None s in
        if rtrn < 0 then (None, console_output ERROR ''Can't get file extension'' s)
        else
          let (rtrn, p, s) = asprintf path s in
          if rtrn < 0 then (None, console_output ERROR ''Can't create path string'' s)
          else
            let (fd, s) = open_rd path s in
            if fd < 0 then (None, close_fd fd (console_output ERROR ''Can't open file'' s))
            else
              let (rtrn, fsize, s) = get_file_size fd 0 s in
              if rtrn < 0 then (None, close_fd fd (console_output ERROR ''Can't get file size'' s))
              else (Some \<lparr>fc_path = show_name p, fc_extension = show_name extension, fc_size = fsize\<rparr>, close_fd fd s))"

text \<open>The walk of \<open>init_file_array\<close>: the entries that are left, the index and the array. A write behind the
  array is undefined; the result is the array, or \<open>None\<close> for the null pointer.\<close>

fun file_array_loop ::
    "string list \<Rightarrow> nat \<Rightarrow> file_ctx option list \<Rightarrow> 'z file_state_scheme \<Rightarrow>
     (file_ctx option list option \<times> 'z file_state_scheme) option" where
  "file_array_loop [] k arr s =
     (if k = 0 then Some (None, console_output ERROR ''Input dir is empty'' s) else Some (Some arr, s))"
| "file_array_loop (entry # es) k arr s =
     (if entry \<noteq> [] \<and> hd entry = CHR ''.'' then file_array_loop es k arr s
      else
        let path = input_dir s @ ''/'' @ entry; (rtrn, file_path, s) = asprintf path s in
        if rtrn < 0 then Some (None, snd (ext ''closedir'' [] s))
        else
          let (rtrn, s) = stat_path path s in
          if rtrn < 0 then Some (None, console_output ERROR ''Can't get file stats: %s'' s)
          else if is_file s path
          then let (ctx, s) = init_file_ctx path s in
               if \<not> k < length arr then None
               else if ctx = None then Some (None, console_output ERROR ''Can't init file context'' s)
               else file_array_loop es (k + 1) (arr[k := ctx]) s
          else file_array_loop es k arr s)"

definition init_file_array ::
    "string \<Rightarrow> u32 \<Rightarrow> 'z file_state_scheme \<Rightarrow> (file_ctx option list option \<times> 'z file_state_scheme) option" where
  "init_file_array dir n s =
     (let (array, s) = mem_alloc (ucast n * 8) s in
      if array = NULL then Some (None, console_output ERROR ''Can't create file index: %s'' s)
      else
        let (directory, s) = ext ''opendir'' [] s in
        case dirs s dir of
          None \<Rightarrow> Some (None, console_output ERROR ''Can't open dir: %s'' s)
        | Some es \<Rightarrow> if directory = 0 then Some (None, console_output ERROR ''Can't open dir: %s'' s)
                    else file_array_loop es 0 (replicate (unat n) None) s)"

definition initial_fuzz_run :: "'z file_state_scheme \<Rightarrow> int" where
  "initial_fuzz_run s = 0"

definition setup_file_module ::
    "string option \<Rightarrow> string \<Rightarrow> 'z file_state_scheme \<Rightarrow> (int \<times> 'z file_state_scheme) option" where
  "setup_file_module exec_path input s =
     (let s = s\<lparr>path_to_exec := exec_path, input_dir := input\<rparr>;
          (rtrn, cnt, s) = count_files_directory (file_count s) input s;
          s = s\<lparr>file_count := cnt\<rparr> in
      if rtrn < 0 then Some (-1, console_output ERROR ''Can't count files in the in directory.'' s)
      else do {
        (arr, s) \<leftarrow> init_file_array input (file_count s) s;
        let s = s\<lparr>file_array := arr\<rparr>;
        if arr = None then Some (-1, console_output ERROR ''Can't init file array'' s)
        else Some (0, s\<lparr>file_setup := 1\<rparr>) })"

section \<open>Running the target\<close>

definition run_test_case_linux :: "string option \<Rightarrow> string \<Rightarrow> string \<Rightarrow> 's \<Rightarrow> (int run \<times> 's) option" where
  "run_test_case_linux exec_path file_path file_extension s = Some (Return 0, s)"

text \<open>The thread that kills the target. It is started and joined by \<open>run_test_case\<close>; what it does to the
  target is part of the status that \<open>waitpid\<close> delivers.\<close>

definition kill_test_proc :: "int \<Rightarrow> 'z os_scheme \<Rightarrow> 'z os_scheme" where
  "kill_test_proc pid s =
     (let (rtrn, s) = ext ''kill'' [pid, 9] (snd (ext ''sleep'' [1] s)) in
      if rtrn < 0 then nx_output ERROR ''Can't kill child process: %s'' s else s)"

definition handle_crash :: "string \<Rightarrow> string \<Rightarrow> 'z utils_scheme \<Rightarrow> (int \<times> 'z utils_scheme) option" where
  "handle_crash file_path file_extension s =
     do { (rtrn, name, s) \<leftarrow> generate_name (Some file_extension) FILE_NAME None s;
          if rtrn < 0 then Some (-1, nx_output ERROR ''Can't create out path: %s'' s)
          else
            let (rtrn, path, s) = asprintf (file_path @ ''/crash_dir/'' @ show_name name) s in
            if rtrn < 0 then Some (-1, nx_output ERROR ''Can't create out path: %s'' s)
            else do {
              p \<leftarrow> path;
              (rtrn, s) \<leftarrow> copy_file_to file_path p s;
              if rtrn < 0 then Some (-1, nx_output ERROR ''Can't copy file to crash directory'' s)
              else Some (0, s) } }"

text \<open>A status: the low seven bits are the signal, 0 for an exit and 127 for a stopped process; 19 is a
  process that was continued.\<close>

definition WTERMSIG :: "int \<Rightarrow> int" where
  "WTERMSIG st = st mod 128"

definition WIFSIGNALED :: "int \<Rightarrow> bool" where
  "WIFSIGNALED st \<longleftrightarrow> WTERMSIG st \<noteq> 127 \<and> WTERMSIG st \<noteq> 0 \<and> st \<noteq> 19"

definition run_test_case_freebsd ::
    "string option \<Rightarrow> string \<Rightarrow> string \<Rightarrow> 'z utils_scheme \<Rightarrow> (int run \<times> 'z utils_scheme) option" where
  "run_test_case_freebsd exec_path file_path file_extension s =
     (let (pid, s) = ext ''fork'' [] s in
      if pid = 0
      then let (rtrn, s) = ext ''seteuid'' [501] s in
           if rtrn < 0 then Some (Exited (-1), nx_output ERROR ''Can't seteuid'' s)
           else let (rtrn, s) = ext ''execv'' [] s in
                if rtrn < 0 then Some (Exited (-1), nx_output ERROR ''Can't execute target program: %s'' s)
                else Some (Exited 0, s)
      else if pid > 0
      then let (rtrn, s) = ext ''pthread_create'' [] s in
           if rtrn < 0 then Some (Return (-1), nx_output ERROR ''Can't create kill thread'' s)
           else do {
             let ((_, status), s) = ext2 ''waitpid'' [pid, 0] s;
             s \<leftarrow> (if WIFSIGNALED status \<and> (WTERMSIG status = 11 \<or> WTERMSIG status = 10)
                   then do { (_, s) \<leftarrow> handle_crash file_path file_extension s; Some s } else Some s);
             Some (Return 0, snd (ext ''pthread_join'' [] s)) }
      else Some (Return (-1), nx_output ERROR ''Can't create child process: %s'' s))"

section \<open>The main loop\<close>

text \<open>The descriptor is the variable of the caller, 0 until it is opened.\<close>

definition get_file ::
    "'z file_state_scheme rangef \<Rightarrow> 'z file_state_scheme \<Rightarrow>
     (int \<times> int \<times> string option \<times> 'z file_state_scheme) option" where
  "get_file rg s =
     (let (rtrn, offset, s) = rg (file_count s - 1) 0 s in
      if rtrn < 0 then Some (-1, 0, None, console_output ERROR ''Can't pick random number'' s)
      else do {
        arr \<leftarrow> file_array s;
        ctx \<leftarrow> (if unat offset < length arr then arr ! unat offset else None);
        let (file, s) = open_rd (fc_path ctx) s;
        if file < 0 then Some (-1, file, None, console_output ERROR ''Can't open file: %s'' s)
        else
          let (rtrn, extension, s) = asprintf (fc_extension ctx) s in
          if rtrn < 0 then Some (-1, file, extension, console_output ERROR ''Can't create extension string: %s'' s)
          else Some (0, file, extension, s) })"

text \<open>A mutator works on the bytes of the mapping, which are those of the file.\<close>

definition mutate_mapped ::
    "'z utils_scheme rangef \<Rightarrow> file_buf \<Rightarrow> string \<Rightarrow> u64 \<Rightarrow> 'z utils_scheme \<Rightarrow> (int \<times> 'z utils_scheme) option" where
  "mutate_mapped rg buf extension fsize s =
     (case buf of
        Heap_buf p \<Rightarrow> None
      | Mapped p path \<Rightarrow> do {
          bs \<leftarrow> buf_bytes buf (unat fsize) s;
          (rtrn, bs, s) \<leftarrow> mutate_file rg bs extension fsize s;
          c \<leftarrow> files s path;
          Some (rtrn, s\<lparr>files := (files s)(path \<mapsto> bs @ drop (unat fsize) c)\<rparr>) })"

definition unlink_file :: "string \<Rightarrow> 'z utils_scheme \<Rightarrow> int \<times> 'z utils_scheme" where
  "unlink_file path s =
     (let (rtrn, s) = ext ''unlink'' [] s in
      if rtrn < 0 \<or> files s path = None then (-1, s) else (0, s\<lparr>files := (files s)(path := None)\<rparr>))"

text \<open>One round of the loop: \<open>Return True\<close> goes on, \<open>Return False\<close> leaves the function. The descriptor is
  closed where the round is left.\<close>

type_synonym 's test_runner = "string option \<Rightarrow> string \<Rightarrow> string \<Rightarrow> 's \<Rightarrow> (int run \<times> 's) option"

definition leave :: "int \<Rightarrow> string \<Rightarrow> 'z os_scheme \<Rightarrow> (bool run \<times> 'z os_scheme) option" where
  "leave file m s = Some (Return False, close_fd file (console_output ERROR m s))"

definition test_and_clean ::
    "'z file_state_scheme test_runner \<Rightarrow> int \<Rightarrow> file_buf \<Rightarrow> u64 \<Rightarrow> string \<Rightarrow> string \<Rightarrow> 'z file_state_scheme \<Rightarrow>
     (bool run \<times> 'z file_state_scheme) option" where
  "test_and_clean run_case file buf fsize file_path extension s =
     (if log_file file_path extension < 0 then leave file ''Can't log file generated'' s
      else do {
        (r, s) \<leftarrow> run_case (path_to_exec s) file_path extension s;
        case r of
          Exited code \<Rightarrow> Some (Exited code, s)
        | Jumped \<Rightarrow> Some (Jumped, s)
        | Return rtrn \<Rightarrow>
            if rtrn < 0 then leave file ''Can't test exec with file'' s
            else
              let s = (case buf of Mapped p _ \<Rightarrow> snd (mem_free_shared p fsize s) | Heap_buf p \<Rightarrow> snd (mem_free_shared p fsize s));
                  (rtrn, s) = unlink_file file_path s in
              if rtrn < 0 then leave file ''Can't remove test case'' s
              else Some (Return True, close_fd file s) })"

definition file_round ::
    "'z file_state_scheme rangef \<Rightarrow> 'z file_state_scheme test_runner \<Rightarrow> 'z file_state_scheme \<Rightarrow>
     (bool run \<times> 'z file_state_scheme) option" where
  "file_round rg run_case s =
     do { (rtrn, file, extension, s) \<leftarrow> get_file rg s;
          if rtrn < 0 then leave file ''Can't get file'' s
          else
            let (rtrn, buf, fsize, s) = map_file_in file None 0 s in
            if rtrn < 0 then leave file ''Can't read file to memory'' s
            else do {
              buf \<leftarrow> buf;
              ex \<leftarrow> extension;
              (rtrn, s) \<leftarrow> mutate_mapped rg buf ex fsize s;
              if rtrn < 0 then leave file ''Can't mutate file'' s
              else do {
                (rtrn, file_name, s) \<leftarrow> generate_name extension FILE_NAME None s;
                if rtrn < 0 then leave file ''Can't generate random file name'' s
                else
                  let (rtrn, file_path, s) = asprintf (''/tmp/'' @ show_name file_name) s in
                  if rtrn < 0 then leave file ''Can't create out path'' s
                  else do {
                    fp \<leftarrow> file_path;
                    (rtrn, s) \<leftarrow> map_file_out fp buf fsize s;
                    if rtrn < 0 then leave file ''Can't write file to disk'' s
                    else test_and_clean run_case file buf fsize fp ex s } } } }"

partial_function (option) file_loop ::
    "'z file_state_scheme rangef \<Rightarrow> 'z file_state_scheme test_runner \<Rightarrow> 'z file_state_scheme \<Rightarrow>
     (unit run \<times> 'z file_state_scheme) option" where
  "file_loop rg run_case s =
     (let (stop, s) = load_stop s in
      if stop = FALSE
      then do { (r, s) \<leftarrow> file_round rg run_case s;
                case r of
                  Exited code \<Rightarrow> Some (Exited code, s)
                | Jumped \<Rightarrow> Some (Jumped, s)
                | Return go \<Rightarrow> if go then file_loop rg run_case s else Some (Return (), s) }
      else Some (Return (), console_output STD ''Exiting main loop'' s))"

definition start_main_file_loop ::
    "'z file_state_scheme rangef \<Rightarrow> 'z file_state_scheme test_runner \<Rightarrow> 'z file_state_scheme \<Rightarrow>
     (unit run \<times> 'z file_state_scheme) option" where
  "start_main_file_loop rg run_case s =
     file_loop rg run_case (file_setup_signal_handler (console_output STD ''Starting fuzzer'' s))"

section \<open>The set-up delivers the files that it counted\<close>

text \<open>The context of a file, and the regular files of a directory whose names do not start with a dot.\<close>

definition ctx_of :: "'z utils_scheme \<Rightarrow> string \<Rightarrow> file_ctx" where
  "ctx_of s path = \<lparr>fc_path = path, fc_extension = tl (the (strrchr path (CHR ''.''))) @ [newline],
     fc_size = word_of_nat (length (the (files s path)))\<rparr>"

definition inputs :: "'z utils_scheme \<Rightarrow> string \<Rightarrow> string list \<Rightarrow> string list" where
  "inputs s dir es = map (\<lambda>e. dir @ ''/'' @ e) (filter (countable s dir) es)"

text \<open>The part of the state that the walk leaves alone.\<close>

definition kept where
  "kept s = (files s, dirs s, input_dir s, path_to_exec s, file_count s, file_array s)"

lemma kept_simps [simp]:
  "kept (printf m s) = kept s" "kept (console_output k m s) = kept s" "kept (nx_output k m s) = kept s"
  "kept (snd (ext f a s)) = kept s" "kept (close_fd fd s) = kept s" "kept (munmap p n s) = kept s"
  by (simp_all add: kept_def printing_defs ext_eq close_fd_def munmap_def split: out_type.splits)

lemma kept_cong: "kept t = kept s \<Longrightarrow> files t = files s \<and> dirs t = dirs s \<and> input_dir t = input_dir s"
  by (simp add: kept_def)

lemma kept_calls:
  fixes s s' :: "'z file_state_scheme"
  shows "mem_alloc n s = (p, s') \<Longrightarrow> kept s' = kept s" "asprintf t s = (r, x, s') \<Longrightarrow> kept s' = kept s"
    "stat_path t s = (r, s') \<Longrightarrow> kept s' = kept s" "ext f a s = (r, s') \<Longrightarrow> kept s' = kept s"
    "open_rd t s = (r, s') \<Longrightarrow> kept s' = kept s" "get_file_size r z s = (k, w, s') \<Longrightarrow> kept s' = kept s"
    "get_extension t x s = (k, y, s') \<Longrightarrow> kept s' = kept s"
  by (auto simp: kept_def mem_alloc_def malloc_def asprintf_def stat_path_def ext_eq open_rd_def get_file_size_def
      get_extension_def printing_defs split: if_splits option.splits prod.splits)

lemma init_file_ctx_cases:
  fixes s :: "'z file_state_scheme"
  assumes "init_file_ctx path s = (c, s')"
  shows "kept s' = kept s \<and> (c = None \<or> c = Some (ctx_of s path))"
proof -
  obtain p s1 where 1: "mem_alloc 32 s = (p, s1)" by fastforce
  obtain r2 e s2 where 2: "get_extension path None s1 = (r2, e, s2)" by (metis prod_cases3)
  obtain r3 q s3 where 3: "asprintf path s2 = (r3, q, s3)" by (metis prod_cases3)
  obtain fd s4 where 4: "open_rd path s3 = (fd, s4)" by fastforce
  obtain r5 z s5 where 5: "get_file_size fd 0 s4 = (r5, z, s5)" by (metis prod_cases3)
  note k = kept_calls(1) [OF 1] kept_calls(7) [OF 2] kept_calls(2) [OF 3] kept_calls(5) [OF 4] kept_calls(6) [OF 5]
  have e: "\<not> r2 < 0 \<Longrightarrow> e = Some (tl (the (strrchr path (CHR ''.''))) @ [newline])"
    using 2 by (auto simp: get_extension_def asprintf_def split: option.splits if_splits)
  have q: "\<not> r3 < 0 \<Longrightarrow> q = Some path" using 3 by (auto simp: asprintf_def split: if_splits)
  have z: "\<not> fd < 0 \<Longrightarrow> \<not> r5 < 0 \<Longrightarrow> z = word_of_nat (length (the (files s path)))"
    using 4 5 get_file_size_cases [OF 5] kept_cong [OF k(4)] kept_cong [OF k(3)] kept_cong [OF k(2)] kept_cong [OF k(1)]
    by (auto simp: open_rd_def ext_eq split: if_splits)
  show ?thesis using assms 1 2 3 4 5 k e q z
    by (auto simp: init_file_ctx_def ctx_of_def show_name_def split: if_splits)
qed

lemma inputs_Nil [simp]: "inputs s dir [] = []"
  by (simp add: inputs_def)

lemma inputs_Cons:
  "inputs s dir (e # es) = (if (e \<noteq> [] \<and> hd e = CHR ''.'') \<or> \<not> is_file s (dir @ ''/'' @ e) then inputs s dir es
     else (dir @ ''/'' @ e) # inputs s dir es)"
  by (auto simp: inputs_def countable_def)

lemma ctx_of_cong: "files t = files s \<Longrightarrow> ctx_of t = ctx_of s"
  by (auto simp: ctx_of_def fun_eq_iff)

lemma is_file_cong: "files t = files s \<Longrightarrow> is_file t = is_file s"
  by (simp add: is_file_def fun_eq_iff)

lemma inputs_cong:
  assumes "files t = files s"
  shows "inputs t = inputs s"
proof -
  have "countable t = countable s" using is_file_cong [OF assms] by (simp add: countable_def fun_eq_iff)
  then show ?thesis by (intro ext) (simp add: inputs_def)
qed

text \<open>The array after the walk: the contexts from position \<open>k\<close> on.\<close>

definition filled :: "nat \<Rightarrow> file_ctx list \<Rightarrow> file_ctx option list \<Rightarrow> file_ctx option list" where
  "filled k cs arr = take k arr @ map Some cs @ drop (k + length cs) arr"

lemma filled_Nil [simp]: "filled k [] arr = arr"
  by (simp add: filled_def)

lemma filled_upd: "k < length arr \<Longrightarrow> filled (k + 1) cs (arr[k := Some c]) = filled k (c # cs) arr"
  by (simp add: filled_def take_Suc_conv_app_nth)

lemma filled_all: "filled 0 cs (replicate (length cs) None) = map Some cs"
  by (simp add: filled_def)

lemma file_array_loop_ok:
  fixes s :: "'z file_state_scheme"
  assumes "k + length (inputs s (input_dir s) es) \<le> length arr"
  shows "\<exists>a s'. file_array_loop es k arr s = Some (a, s') \<and> kept s' = kept s \<and>
     (a = None \<or> a = Some (filled k (map (ctx_of s) (inputs s (input_dir s) es)) arr) \<and> 0 < k + length (inputs s (input_dir s) es))"
  using assms
proof (induction es arbitrary: k arr s)
  case (Cons e es)
  let ?p = "input_dir s @ ''/'' @ e"
  obtain r1 fp s1 where 1: "asprintf ?p s = (r1, fp, s1)" by (metis prod_cases3)
  obtain r2 s2 where 2: "stat_path ?p s1 = (r2, s2)" by fastforce
  obtain c s3 where 3: "init_file_ctx ?p s2 = (c, s3)" by fastforce
  note k1 = kept_calls(2) [OF 1] and k2 = kept_calls(3) [OF 2] and k3 = init_file_ctx_cases [OF 3]
  have f: "kept s2 = kept s" "kept s3 = kept s" "files s2 = files s" "input_dir s2 = input_dir s" "files s3 = files s"
      "input_dir s3 = input_dir s" "input_dir s1 = input_dir s"
    using k1 k2 k3 by (auto simp: kept_def)
  have same: "ctx_of s2 = ctx_of s" "ctx_of s3 = ctx_of s" "inputs s2 = inputs s" "inputs s3 = inputs s" "is_file s2 = is_file s"
    using f by (metis ctx_of_cong inputs_cong is_file_cong)+
  consider (hidden) "e \<noteq> [] \<and> hd e = CHR ''.''" | (failed) "\<not> (e \<noteq> [] \<and> hd e = CHR ''.'')" "r1 < 0 \<or> r2 < 0"
    | (other) "\<not> (e \<noteq> [] \<and> hd e = CHR ''.'')" "\<not> r1 < 0" "\<not> r2 < 0" "\<not> is_file s ?p"
    | (regular) "\<not> (e \<noteq> [] \<and> hd e = CHR ''.'')" "\<not> r1 < 0" "\<not> r2 < 0" "is_file s ?p" by blast
  then show ?case
  proof cases
    case hidden
    with Cons.IH [of k s arr] Cons.prems show ?thesis by (simp add: inputs_Cons)
  next
    case failed
    with 1 2 k1 f(1) show ?thesis by (auto simp: Let_def)
  next
    case other
    with Cons.IH [of k s2 arr] Cons.prems 1 2 f same show ?thesis by (auto simp: inputs_Cons Let_def)
  next
    case regular
    then have len: "k < length arr" "Suc k + length (inputs s (input_dir s) es) \<le> length arr"
      using Cons.prems by (auto simp: inputs_Cons)
    show ?thesis
    proof (cases c)
      case None
      with regular 1 2 3 len f same show ?thesis by (auto simp: Let_def)
    next
      case (Some c')
      with k3 same have "c' = ctx_of s ?p" by simp
      with Some regular 1 2 3 len f same Cons.IH [of "k + 1" s3 "arr[k := c]"] show ?thesis
        by (auto simp: inputs_Cons Let_def filled_upd simp flip: One_nat_def)
    qed
  qed
qed simp

text \<open>Every call succeeds.\<close>

definition all_succeed :: "'z os_scheme \<Rightarrow> bool" where
  "all_succeed s \<longleftrightarrow> (\<forall>n. grant s n) \<and> 0 < fresh s \<and> (\<forall>k f a. fst (answer s k f a) = (if f = ''fstat'' then 0 else 1))"

lemma all_succeed_simps [simp]:
  "all_succeed (printf m s) = all_succeed s" "all_succeed (console_output k m s) = all_succeed s"
  "all_succeed (snd (ext f a s)) = all_succeed s" "all_succeed (close_fd fd s) = all_succeed s"
  by (simp_all add: all_succeed_def printing_defs ext_eq close_fd_def split: out_type.splits)

lemma all_succeedD:
  assumes "all_succeed s"
  shows "grant s n" and "fresh s \<noteq> NULL" and "fst (answer s k f a) = (if f = ''fstat'' then 0 else 1)"
  using assms by (simp_all add: all_succeed_def)

lemma all_succeed_mono:
  "all_succeed s \<Longrightarrow> grant t = grant s \<Longrightarrow> answer t = answer s \<Longrightarrow> fresh s \<le> fresh t \<Longrightarrow> all_succeed t"
  by (simp add: all_succeed_def)

lemma succeeding_asprintf:
  assumes "all_succeed s" and "asprintf t s = (r, x, s')"
  shows "r = int (length t) \<and> all_succeed s'"
  using assms all_succeedD(1) [OF assms(1)] by (auto simp: asprintf_def intro: all_succeed_mono)

lemma succeeding_stat:
  fixes s :: "'z utils_scheme"
  assumes "all_succeed s" and "stat_path t s = (r, s')" and "files s t \<noteq> None \<or> dirs s t \<noteq> None"
  shows "r = 0 \<and> all_succeed s'"
  using assms all_succeedD(3) [OF assms(1)] by (auto simp: stat_path_def ext_eq intro: all_succeed_mono split: if_splits)

lemma succeeding_init:
  fixes s :: "'z utils_scheme"
  assumes "all_succeed s" and "init_file_ctx path s = (c, s')" and "is_file s path" and "CHR ''.'' \<in> set path"
  shows "c \<noteq> None \<and> all_succeed s'"
  using assms(2-) all_succeedD [OF assms(1)]
  by (auto simp: init_file_ctx_def mem_alloc_def malloc_def get_extension_def strrchr_def asprintf_def open_rd_def ext_eq
      get_file_size_def is_file_def close_fd_def split: if_splits option.splits intro!: all_succeed_mono [OF assms(1)])

lemma file_array_loop_succeeds:
  fixes s :: "'z file_state_scheme"
  assumes "all_succeed s" and "\<forall>e \<in> set es. files s (input_dir s @ ''/'' @ e) \<noteq> None \<or> dirs s (input_dir s @ ''/'' @ e) \<noteq> None"
    and "\<forall>p \<in> set (inputs s (input_dir s) es). CHR ''.'' \<in> set p" and "0 < k + length (inputs s (input_dir s) es)"
    and "file_array_loop es k arr s = Some (a, s')"
  shows "a \<noteq> None"
  using assms
proof (induction es arbitrary: k arr s)
  case (Cons e es)
  let ?p = "input_dir s @ ''/'' @ e"
  obtain r1 fp s1 where 1: "asprintf ?p s = (r1, fp, s1)" by (metis prod_cases3)
  obtain r2 s2 where 2: "stat_path ?p s1 = (r2, s2)" by fastforce
  obtain c s3 where 3: "init_file_ctx ?p s2 = (c, s3)" by fastforce
  note k1 = kept_calls(2) [OF 1] and k2 = kept_calls(3) [OF 2] and k3 = init_file_ctx_cases [OF 3]
  have f: "files s1 = files s" "dirs s1 = dirs s" "files s2 = files s" "dirs s2 = dirs s" "input_dir s2 = input_dir s"
      "files s3 = files s" "dirs s3 = dirs s" "input_dir s3 = input_dir s"
    using k1 k2 k3 by (auto simp: kept_def)
  have ok: "0 \<le> r1" "all_succeed s1" using succeeding_asprintf [OF Cons.prems(1) 1] by auto
  have ok2: "r2 = 0" "all_succeed s2" using succeeding_stat [OF ok(2) 2] Cons.prems(2) f by auto
  have same: "inputs s2 = inputs s" "inputs s3 = inputs s" "is_file s2 = is_file s"
    using f by (metis inputs_cong is_file_cong)+
  show ?case
  proof (cases "(e \<noteq> [] \<and> hd e = CHR ''.'') \<or> \<not> is_file s ?p")
    case True
    with Cons.IH [of s k arr] Cons.IH [of s2 k arr] Cons.prems 1 2 ok ok2 f same show ?thesis
      by (auto simp: inputs_Cons Let_def split: if_splits)
  next
    case False
    then have "CHR ''.'' \<in> set ?p" using Cons.prems(3) by (auto simp: inputs_Cons)
    with succeeding_init [OF ok2(2) 3] False same have "c \<noteq> None" "all_succeed s3" by auto
    with False Cons.IH [of s3 "k + 1" "arr[k := c]"] Cons.prems 1 2 3 ok ok2 f same show ?thesis
      by (auto simp: inputs_Cons Let_def split: if_splits)
  qed
qed (auto split: if_splits)

text \<open>The counting, as the set-up sees it.\<close>

lemma count_entries_kept:
  fixes s :: "'z file_state_scheme"
  assumes "count_entries dir es n s = (r, n', s')"
  shows "kept s' = kept s \<and> (r = 0 \<or> r = -1) \<and>
    (all_succeed s \<and> (\<forall>e \<in> set es. files s (dir @ ''/'' @ e) \<noteq> None \<or> dirs s (dir @ ''/'' @ e) \<noteq> None) \<longrightarrow> r = 0 \<and> all_succeed s')"
  using assms
proof (induction es arbitrary: n s)
  case Nil
  then show ?case by (auto simp: ext_eq kept_def printing_defs all_succeedD intro: all_succeed_mono split: if_splits)
next
  case (Cons e es)
  let ?p = "dir @ ''/'' @ e"
  obtain r1 fp s1 where 1: "asprintf ?p s = (r1, fp, s1)" by (metis prod_cases3)
  obtain r2 s2 where 2: "stat_path ?p s1 = (r2, s2)" by fastforce
  have k: "kept s1 = kept s" "kept s2 = kept s" using kept_calls(2) [OF 1] kept_calls(3) [OF 2] by auto
  have f: "files s1 = files s" "dirs s1 = dirs s" "files s2 = files s" "dirs s2 = dirs s" using k by (auto simp: kept_def)
  have ok: "all_succeed s \<Longrightarrow> files s ?p \<noteq> None \<or> dirs s ?p \<noteq> None \<Longrightarrow> \<not> r1 < 0 \<and> r2 = 0 \<and> all_succeed s2"
    using succeeding_asprintf [OF _ 1] succeeding_stat [OF _ 2] f by auto
  show ?case
  proof (cases "e \<noteq> [] \<and> hd e = CHR ''.'' \<or> r1 < 0 \<or> r2 < 0")
    case True
    with Cons 1 2 k ok show ?thesis by (auto split: if_splits)
  next
    case False
    with Cons.prems 1 2 have "count_entries dir es (if is_file s2 ?p then n + 1 else n) s2 = (r, n', s')"
      by (auto split: if_splits)
    from Cons.IH [OF this] k f ok show ?thesis by auto
  qed
qed

lemma count_files_kept:
  fixes s :: "'z file_state_scheme"
  assumes "count_files_directory n dir s = (r, n', s')" and "dirs s dir = Some es"
  shows "kept s' = kept s \<and> (r = 0 \<or> r = -1) \<and> (r = 0 \<longrightarrow> n' = n + word_of_nat (length (inputs s dir es))) \<and>
    (all_succeed s \<and> (\<forall>e \<in> set es. files s (dir @ ''/'' @ e) \<noteq> None \<or> dirs s (dir @ ''/'' @ e) \<noteq> None) \<longrightarrow> r = 0 \<and> all_succeed s')"
proof -
  obtain d t where d: "ext ''opendir'' [] s = (d, t)" by fastforce
  then have t: "kept t = kept s" "files t = files s" "dirs t = dirs s" "all_succeed s \<Longrightarrow> all_succeed t \<and> d = 1"
    by (auto simp: ext_eq kept_def all_succeedD intro: all_succeed_mono)
  have n: "n' = n + word_of_nat (length (inputs s dir es))" if "r = 0"
    using count_files_exact [OF assms(1) [unfolded that]] assms(2) by (auto simp: inputs_def)
  show ?thesis
  proof (cases "d = 0")
    case True
    with assms d t n show ?thesis by (auto simp: count_files_directory_def)
  next
    case False
    with assms d t have "count_entries dir es n t = (r, n', s')" by (simp add: count_files_directory_def)
    from count_entries_kept [OF this] t n show ?thesis by auto
  qed
qed

text \<open>A directory on which the set-up succeeds: every call does, every entry exists, there is a file and every
  file has an extension.\<close>

definition usable :: "'z utils_scheme \<Rightarrow> string \<Rightarrow> string list \<Rightarrow> bool" where
  "usable s dir es \<longleftrightarrow> all_succeed s \<and> (\<forall>e \<in> set es. files s (dir @ ''/'' @ e) \<noteq> None \<or> dirs s (dir @ ''/'' @ e) \<noteq> None) \<and>
     inputs s dir es \<noteq> [] \<and> (\<forall>p \<in> set (inputs s dir es). CHR ''.'' \<in> set p)"

lemma init_file_array_ok:
  fixes s :: "'z file_state_scheme"
  assumes es: "dirs s dir = Some es" and dir: "input_dir s = dir" and n: "unat n = length (inputs s dir es)"
  shows "\<exists>a s'. init_file_array dir n s = Some (a, s') \<and> kept s' = kept s \<and>
     (a = None \<or> a = Some (map (\<lambda>p. Some (ctx_of s p)) (inputs s dir es)) \<and> inputs s dir es \<noteq> []) \<and>
     (usable s dir es \<longrightarrow> a \<noteq> None)"
proof -
  obtain arr s2 where 2: "mem_alloc (ucast n * 8) s = (arr, s2)" by fastforce
  obtain d s3 where 3: "ext ''opendir'' [] s2 = (d, s3)" by fastforce
  have k: "kept s3 = kept s" "kept s2 = kept s" using kept_calls(1) [OF 2] kept_calls(4) [OF 3] by simp_all
  have f: "files s3 = files s" "dirs s3 = dirs s" "input_dir s3 = dir" using k dir by (auto simp: kept_def)
  have same: "inputs s3 = inputs s" "ctx_of s3 = ctx_of s" using f(1) by (metis inputs_cong ctx_of_cong)+
  have "0 + length (inputs s3 (input_dir s3) es) \<le> length (replicate (unat n) None)" using n same f(3) by simp
  from file_array_loop_ok [OF this] same f(3) n obtain a s4 where
    4: "file_array_loop es 0 (replicate (unat n) None) s3 = Some (a, s4)" "kept s4 = kept s3"
      "a = None \<or> a = Some (map (\<lambda>p. Some (ctx_of s p)) (inputs s dir es)) \<and> inputs s dir es \<noteq> []"
    using filled_all [of "map (ctx_of s) (inputs s dir es)"] by (auto simp: comp_def)
  have init: "init_file_array dir n s = (if arr = NULL then Some (None, console_output ERROR ''Can't create file index: %s'' s2)
      else if d = 0 then Some (None, console_output ERROR ''Can't open dir: %s'' s3) else Some (a, s4))"
    using 2 3 4(1) f(2) es by (simp add: init_file_array_def)
  have win: "arr \<noteq> NULL \<and> d \<noteq> 0 \<and> a \<noteq> None" if u: "usable s dir es"
  proof -
    have ok: "all_succeed s" using u by (simp add: usable_def)
    have "n \<noteq> 0" using u n by (auto simp: usable_def)
    then have "arr \<noteq> NULL" "d = 1" "all_succeed s3"
      using 2 3 all_succeedD [OF ok] by (auto simp: mem_alloc_def malloc_def ext_eq array_bytes_zero intro: all_succeed_mono [OF ok])
    then show ?thesis using file_array_loop_succeeds [OF _ _ _ _ 4(1)] u f same by (auto simp: usable_def)
  qed
  show ?thesis
  proof (cases "arr = NULL \<or> d = 0")
    case True
    with init k win show ?thesis by auto
  next
    case False
    with init k 4(2,3) win show ?thesis by auto
  qed
qed

text \<open>C33. The set-up of the file fuzzer on a directory with fewer than \<open>2^32\<close> entries always returns: the walk
  never writes behind the array that was sized by the count. When it reports success the array holds exactly the contexts
  of the visible regular files, in the order of the directory, and their number is \<open>file_count\<close>, so that an index
  below it is in the array; no file is changed. It succeeds when every call does, the entries exist,
  there is a file and every file has an extension.\<close>

theorem file_setup_exact:
  fixes s :: "'z file_state_scheme"
  assumes es: "dirs s input = Some es" and "length es < 2 ^ 32" and "file_count s = 0"
  shows "\<exists>r s'. setup_file_module exec input s = Some (r, s') \<and> files s' = files s \<and> (r = 0 \<or> r = -1) \<and>
     (r = 0 \<longrightarrow> inputs s input es \<noteq> [] \<and> file_setup s' = 1 \<and> path_to_exec s' = exec \<and>
        unat (file_count s') = length (inputs s input es) \<and>
        file_array s' = Some (map (\<lambda>p. Some (ctx_of s p)) (inputs s input es))) \<and>
     (usable s input es \<longrightarrow> r = 0)"
proof -
  let ?s = "s\<lparr>path_to_exec := exec, input_dir := input\<rparr>"
  have same: "inputs ?s = inputs s" "ctx_of ?s = ctx_of s" "all_succeed ?s = all_succeed s"
    by (rule inputs_cong ctx_of_cong, simp)+ (simp add: all_succeed_def)
  have len: "length (inputs s input es) < 2 ^ 32"
    using le_less_trans [OF length_filter_le [of "countable s input" es] assms(2)] by (simp add: inputs_def)
  obtain r cnt s1 where 1: "count_files_directory 0 input ?s = (r, cnt, s1)" by (metis prod_cases3)
  note c = count_files_kept [OF 1, of es, simplified same, simplified, OF es]
  let ?s1 = "s1\<lparr>file_count := cnt\<rparr>"
  have f: "files ?s1 = files s" "dirs ?s1 = dirs s" "input_dir ?s1 = input" "path_to_exec ?s1 = exec"
    using c by (auto simp: kept_def)
  have same1: "inputs ?s1 = inputs s" "ctx_of ?s1 = ctx_of s" using f(1) by (metis inputs_cong ctx_of_cong)+
  have use: "usable s input es \<Longrightarrow> r = 0 \<and> usable ?s1 input es"
    using c f same1 all_succeed_mono [of s1 ?s1] by (auto simp: usable_def)
  show ?thesis
  proof (cases "r = 0")
    case True
    with c len have n: "unat cnt = length (inputs s input es)" by (simp add: unat_of_nat take_bit_nat_eq_self)
    from init_file_array_ok [of ?s1 input es cnt] es f same1 n obtain a s2 where
      2: "init_file_array input cnt ?s1 = Some (a, s2)" "kept s2 = kept ?s1"
        "a = None \<or> a = Some (map (\<lambda>p. Some (ctx_of s p)) (inputs s input es)) \<and> inputs s input es \<noteq> []"
        "usable ?s1 input es \<Longrightarrow> a \<noteq> None" by auto
    have "files s2 = files s" "file_count s2 = cnt" "path_to_exec s2 = exec" using 2(2) f by (auto simp: kept_def)
    with 1 True assms(3) 2(1,3,4) use n show ?thesis by (cases a) (auto simp: setup_file_module_def Let_def)
  next
    case False
    with c have "r = -1" by simp
    with 1 assms(3) use f(1) show ?thesis by (auto simp: setup_file_module_def)
  qed
qed

definition file0 :: file_state where
  "file0 = utils.extend (utils0\<lparr>files := [''d/a.x'' \<mapsto> [1, 2, 3]], dirs := [''d'' \<mapsto> [''.h'', ''a.x''], ''d/.h'' \<mapsto> []]\<rparr>)
     (file_state.fields None 0 None 0 [] 0)"

lemmas file0_simps = file0_def utils0_def utils.defs file_state.defs

theorem file_setup_exact_witness:
  "\<exists>s'. setup_file_module (Some ''t'') ''d'' file0 = Some (0, s') \<and> file_count s' = 1 \<and>
     file_array s' = Some [Some \<lparr>fc_path = ''d/a.x'', fc_extension = ''x'' @ [newline], fc_size = 3\<rparr>]"
proof -
  have inp: "inputs file0 ''d'' [''.h'', ''a.x''] = [''d/a.x'']"
    by (simp add: inputs_def countable_def is_file_def file0_simps)
  have ctx: "ctx_of file0 ''d/a.x'' = \<lparr>fc_path = ''d/a.x'', fc_extension = ''x'' @ [newline], fc_size = 3\<rparr>"
    by (simp add: ctx_of_def strrchr_def file0_simps)
  have cnt: "unat x = 1 \<Longrightarrow> x = 1" for x :: u32 by (simp add: word_unat_eq_iff)
  have st: "dirs file0 ''d'' = Some [''.h'', ''a.x'']" "file_count file0 = 0" "files file0 ''d/a.x'' \<noteq> None" "dirs file0 ''d/.h'' \<noteq> None"
    by (simp_all add: file0_simps)
  have ok: "usable file0 ''d'' [''.h'', ''a.x'']" using st inp by (simp add: usable_def all_succeed_def) (simp add: file0_simps)
  obtain r s' where "setup_file_module (Some ''t'') ''d'' file0 = Some (r, s')" "r = 0" "unat (file_count s') = 1"
      "file_array s' = Some [Some (ctx_of file0 ''d/a.x'')]"
    using file_setup_exact [OF st(1) _ st(2), of "Some ''t''"] ok by (auto simp: inp)
  then show ?thesis using cnt ctx by auto
qed

end
