(* ===== verification/File_Loop.thy ===== *)
theory File_Loop
  imports File
begin

text \<open>
  What the main loop of the file fuzzer does to the files. The locale \<open>file_fuzzer\<close> says what the loop relies on of
  its random numbers and of the runner of the test cases, and is interpreted for both platforms; then
  a round in which every call succeeds is followed from end to end.
\<close>

section \<open>What the main loop does to the files\<close>

lemma kept_memory:
  fixes s s' :: "'z file_state_scheme"
  shows "malloc n s = (p, s') \<Longrightarrow> kept s' = kept s" "store_bytes p k bs s = Some s' \<Longrightarrow> kept s' = kept s"
    "cleanup_buf p s = Some s' \<Longrightarrow> kept s' = kept s" "mmap n s = (q, s') \<Longrightarrow> kept s' = kept s"
  by (auto simp: kept_def malloc_def store_bytes_def cleanup_buf_def free_def mmap_def split: if_splits)

lemma kept_fill:
  fixes s s' :: "'z file_state_scheme"
  assumes "ext_fill f a p n s = Some (r, s')"
  shows "kept s' = kept s"
proof -
  have "store_bytes p 0 (map (noise s (length (trace s))) [0..<n]) (snd (ext f a s)) = Some s'"
    using assms by (auto simp: ext_fill_def Let_def ext_eq elim!: bind_SomeE)
  from kept_memory(2) [OF this] show ?thesis by simp
qed

lemma kept_rand_bytes:
  fixes s s' :: "'z file_state_scheme"
  shows "rand_bytes p w s = Some (r, s') \<Longrightarrow> kept s' = kept s"
  by (auto simp: rand_bytes_def elim!: bind_SomeE split: if_splits dest!: kept_fill kept_memory)

lemma kept_sha256:
  fixes s s' :: "'z file_state_scheme"
  shows "sha256 inp out s = Some (r, p, s') \<Longrightarrow> kept s' = kept s"
  by (auto simp: sha256_def Let_def elim!: bind_SomeE split: if_splits prod.splits dest!: kept_memory kept_calls)

lemma kept_name_return:
  fixes s s' :: "'z file_state_scheme"
  shows "name_return r n p q s = Some (r', n', s') \<Longrightarrow> kept s' = kept s"
  by (auto simp: name_return_def elim!: bind_SomeE dest!: kept_memory)

lemma kept_file_name:
  fixes s s' :: "'z file_state_scheme"
  shows "file_name_of t e s = (r, n, s') \<Longrightarrow> kept s' = kept s"
  by (auto simp: file_name_of_def split: option.splits prod.splits if_splits dest!: kept_calls)

lemma kept_generate_name:
  fixes s s' :: "'z file_state_scheme"
  shows "generate_name e k n s = Some (r, nm, s') \<Longrightarrow> kept s' = kept s"
  by (auto simp: generate_name_def Let_def elim!: bind_SomeE split: if_splits prod.splits name_type.splits option.splits
      dest!: kept_name_return kept_memory kept_calls kept_file_name kept_sha256 kept_rand_bytes)

text \<open>What an operation may do: outside \<^verbatim>\<open>/tmp\<close> no file appears, disappears or changes its length, and only
  input files change at all; the array of the input files stays.\<close>

definition in_tmp :: "string \<Rightarrow> bool" where
  "in_tmp x \<longleftrightarrow> take 5 x = ''/tmp/''"

definition input_paths :: "'z file_state_scheme \<Rightarrow> string set" where
  "input_paths s = {fc_path c | c. \<exists>arr. file_array s = Some arr \<and> Some c \<in> set arr}"

definition harmless :: "'z file_state_scheme \<Rightarrow> 'z file_state_scheme \<Rightarrow> bool" where
  "harmless s t \<longleftrightarrow> file_array t = file_array s \<and>
     (\<forall>x. \<not> in_tmp x \<longrightarrow> (x \<notin> input_paths s \<longrightarrow> files t x = files s x) \<and>
        map_option length (files t x) = map_option length (files s x))"

lemma in_tmp_append: "in_tmp p \<Longrightarrow> in_tmp (p @ q)"
  unfolding in_tmp_def by (cases "5 \<le> length p") (auto dest: arg_cong [of _ _ length])

lemma harmless_refl [simp]: "harmless s s"
  by (simp add: harmless_def)

lemma harmless_trans [trans]: "harmless s t \<Longrightarrow> harmless t u \<Longrightarrow> harmless s u"
  by (simp add: harmless_def input_paths_def)

lemma kept_harmless: "kept t = kept s \<Longrightarrow> harmless s t"
  by (simp add: harmless_def kept_def)

lemma tmp_harmless:
  "file_array t = file_array s \<Longrightarrow> (\<And>x. \<not> in_tmp x \<Longrightarrow> files t x = files s x) \<Longrightarrow> harmless s t"
  by (simp add: harmless_def)

lemma input_harmless:
  assumes "p \<in> input_paths s" and "files s p = Some c" and "length g = length c"
  shows "harmless s (s\<lparr>files := (files s)(p \<mapsto> g)\<rparr>)"
  using assms by (simp add: harmless_def)

lemma kept_map_in:
  fixes s s' :: "'z file_state_scheme"
  assumes "map_file_in fd b z s = (r, b', z', s')"
  shows "kept s' = kept s"
proof -
  obtain r1 z1 s1 where 1: "get_file_size fd z s = (r1, z1, s1)" by (metis prod_cases3)
  obtain m s2 where 2: "mmap z1 s1 = (m, s2)" by fastforce
  show ?thesis using assms 1 2 kept_calls(6) [OF 1] kept_memory(4) [OF 2]
    by (auto simp: map_file_in_def split: if_splits option.splits)
qed

text \<open>Writing a file to disk changes no other file.\<close>

definition only :: "string \<Rightarrow> 'z file_state_scheme \<Rightarrow> 'z file_state_scheme \<Rightarrow> bool" where
  "only p s t \<longleftrightarrow> file_array t = file_array s \<and> (\<forall>x. x \<noteq> p \<longrightarrow> files t x = files s x)"

lemma only_trans: "only p s t \<Longrightarrow> only p t u \<Longrightarrow> only p s u"
  by (simp add: only_def)

lemma only_kept: "kept t = kept s \<Longrightarrow> only p s t"
  by (simp add: only_def kept_def)

lemma only_write: "only p s (s\<lparr>files := (files s)(p := v)\<rparr>)"
  by (simp add: only_def)

lemma only_harmless: "only p s t \<Longrightarrow> in_tmp p \<Longrightarrow> harmless s t"
  by (auto simp: only_def intro!: tmp_harmless)

lemma only_map_out:
  fixes s s' :: "'z file_state_scheme"
  assumes "map_file_out path buf z s = Some (r, s')"
  shows "only path s s'"
proof -
  obtain fd s1 where 1: "open_trunc path s = (fd, s1)" by fastforce
  then have o1: "only path s s1" by (auto simp: only_def open_trunc_def ext_eq split: if_splits)
  obtain r2 s2 where 2: "ext ''lseek'' [fd, sint z - 1] s1 = (r2, s2)" by fastforce
  obtain r3 s3 where 3: "ext ''write'' [fd, 1] s2 = (r3, s3)" by fastforce
  let ?s3 = "s3\<lparr>files := (files s3)(path \<mapsto> replicate (unat z) 0)\<rparr>"
  obtain m s4 where 4: "mmap z ?s3 = (m, s4)" by fastforce
  have o2: "only path s s2" and o3: "only path s s3" and o4: "only path s s4"
    using only_trans [OF o1 only_kept [OF kept_calls(4) [OF 2]]] only_kept [OF kept_calls(4) [OF 3]]
      only_kept [OF kept_memory(4) [OF 4]] only_write by (blast intro: only_trans)+
  have o5: "only path s (close_fd fd (munmap d z (s4\<lparr>files := (files s4)(path \<mapsto> c)\<rparr>)))" for d c
    using only_trans [OF only_trans [OF o4 only_write] only_kept] by simp
  have out: "only path s (close_fd fd (console_output ERROR x t))" if "only path s t" for x t
    using only_trans [OF that only_kept] by simp
  show ?thesis using assms 1 2 3 4 o5 out [OF o1] out [OF o2] out [OF o3] out [OF o4]
    by (auto simp: map_file_out_def Let_def elim!: bind_SomeE split: option.splits if_splits)
qed

lemma mutate_length:
  assumes "mutate_file rg f e n s = Some (r, g, s')"
  shows "length g = length f"
proof -
  have "length y = length f" if "mutate_file_randomly rg f n t = Some (q, y, u)" for q y t u
    using mutate_file_randomly_near [OF that] by (auto simp: near_def)
  with assms show ?thesis by (auto simp: mutate_file_def Let_def elim!: bind_SomeE split: prod.splits if_splits)
qed

locale file_fuzzer =
  fixes rg :: "'z file_state_scheme rangef"
    and run_case :: "'z file_state_scheme test_runner"
  assumes range_kept: "rg n x s = (r, m, s') \<Longrightarrow> kept s' = kept s"
    and run_harmless: "in_tmp p \<Longrightarrow> run_case e p k s = Some (w, s') \<Longrightarrow> harmless s s'"
begin

lemma mutators_kept:
  "flip_byte_mutator rg f n s = Some (r, g, s') \<Longrightarrow> kept s' = kept s"
  "flip_bit_mutator rg f n s = Some (r, g, s') \<Longrightarrow> kept s' = kept s"
  by (auto simp: flip_byte_mutator_def flip_bit_mutator_def split: prod.splits if_splits dest!: range_kept)

lemma mutate_randomly_kept:
  assumes "mutate_file_randomly rg f n s = Some (r, g, s')"
  shows "kept s' = kept s"
proof -
  obtain q off t where 1: "rg (number_of_mutators - 1) 0 s = (q, off, t)" by (metis prod_cases3)
  consider "q < 0" | "unat off = 0" "\<not> q < 0" | "unat off = 1" "\<not> q < 0" | "unat off = 2" "\<not> q < 0" | "unat off > 2" "\<not> q < 0"
    by linarith
  then show ?thesis
    by cases (use assms 1 range_kept [OF 1] mutators_kept [of f n t] in
        \<open>auto simp: mutate_file_randomly_def mutator_array_def xor_mutator_def\<close>)
qed

lemma mutate_kept: "mutate_file rg f e n s = Some (r, g, s') \<Longrightarrow> kept s' = kept s"
  by (auto simp: mutate_file_def Let_def elim!: bind_SomeE split: prod.splits if_splits dest!: range_kept mutate_randomly_kept)

lemma get_file_kept:
  assumes "get_file rg s = Some (r, fd, e, s')"
  shows "kept s' = kept s \<and> (\<not> r < 0 \<longrightarrow> (\<exists>p \<in> input_paths s. fds s' fd = Some p))"
proof -
  obtain q off t where 1: "rg (file_count s - 1) 0 s = (q, off, t)" by (metis prod_cases3)
  note k = range_kept [OF 1]
  show ?thesis
  proof (cases "q < 0")
    case True
    with assms 1 k show ?thesis by (auto simp: get_file_def)
  next
    case False
    with assms 1 obtain arr c where arr: "file_array t = Some arr" "unat off < length arr" "arr ! unat off = Some c"
      by (auto simp: get_file_def elim!: bind_SomeE split: if_splits)
    then have "Some c \<in> set arr" by (metis nth_mem)
    moreover have "file_array s = Some arr" using k arr(1) by (simp add: kept_def)
    ultimately have p: "fc_path c \<in> input_paths s" by (auto simp: input_paths_def)
    obtain fd' t1 where 2: "open_rd (fc_path c) t = (fd', t1)" by fastforce
    obtain r3 x t2 where 3: "asprintf (fc_extension c) t1 = (r3, x, t2)" by (metis prod_cases3)
    have "fds t2 fd' = Some (fc_path c)" if "\<not> fd' < 0"
      using that 2 3 by (auto simp: open_rd_def asprintf_def split: prod.splits if_splits)
    with assms 1 2 3 arr False k p kept_calls(5) [OF 2] kept_calls(2) [OF 3] show ?thesis
      by (auto simp: get_file_def split: if_splits)
  qed
qed

lemma mutate_mapped_harmless:
  assumes "mutate_mapped rg (Mapped q p) e z s = Some (r, s')" and "p \<in> input_paths s"
  shows "harmless s s'"
proof -
  from assms obtain c g d t where c: "files s p = Some c" "unat z \<le> length c"
      and m: "mutate_file rg (take (unat z) c) e z s = Some (r, g, t)" and d: "files t p = Some d"
      and s': "s' = t\<lparr>files := (files t)(p \<mapsto> g @ drop (unat z) d)\<rparr>"
    by (auto simp: mutate_mapped_def buf_bytes_def elim!: bind_SomeE split: if_splits option.splits)
  have t: "kept t = kept s" using mutate_kept [OF m] .
  then have p: "p \<in> input_paths t" and "d = c" using assms(2) c d by (auto simp: kept_def input_paths_def)
  with mutate_length [OF m] c have "length (g @ drop (unat z) d) = length d" by simp
  from input_harmless [OF p d this] show ?thesis
    using harmless_trans [OF kept_harmless [OF t]] by (simp add: s')
qed

lemma leave_harmless: "leave fd m s = Some (r, s') \<Longrightarrow> harmless s s'"
  by (auto simp: leave_def intro!: kept_harmless)

lemma unlink_only:
  "unlink_file p s = (r, s') \<Longrightarrow> only p s s'"
  by (auto simp: unlink_file_def only_def ext_eq split: if_splits)

lemma test_and_clean_harmless:
  assumes "test_and_clean run_case fd buf z p e s = Some (r, s')" and "in_tmp p"
  shows "harmless s s'"
proof -
  have log: "\<not> log_file p e < 0" by (simp add: log_file_def)
  with assms obtain w t where 1: "run_case (path_to_exec s) p e s = Some (w, t)"
    by (auto simp: test_and_clean_def elim!: bind_SomeE)
  note h = run_harmless [OF assms(2) 1]
  let ?q = "case buf of Mapped q _ \<Rightarrow> q | Heap_buf q \<Rightarrow> q"
  have free: "kept (snd (mem_free_shared ?q z t)) = kept t" by (simp add: mem_free_shared_def)
  obtain r2 u where 2: "unlink_file p (snd (mem_free_shared ?q z t)) = (r2, u)" by fastforce
  have u: "harmless s u"
    using h kept_harmless [OF free] only_harmless [OF unlink_only [OF 2] assms(2)] by (blast intro: harmless_trans)
  have c: "harmless s (close_fd fd u)" using u kept_harmless [of "close_fd fd u" u] by (auto intro: harmless_trans)
  show ?thesis using assms(1) log 1 2 h u c
    by (auto simp: test_and_clean_def Let_def split: run.splits if_splits file_buf.splits dest!: leave_harmless intro: harmless_trans)
qed

lemma round_harmless:
  assumes "file_round rg run_case s = Some (r, s')"
  shows "harmless s s'"
proof -
  from assms obtain q fd e s1 where 1: "get_file rg s = Some (q, fd, e, s1)" by (auto simp: file_round_def elim!: bind_SomeE)
  note g = get_file_kept [OF 1]
  note h1 = kept_harmless [OF conjunct1 [OF g]]
  obtain q2 buf z s2 where 2: "map_file_in fd None 0 s1 = (q2, buf, z, s2)" by (metis prod_cases4)
  note h2 = harmless_trans [OF h1 kept_harmless [OF kept_map_in [OF 2]]]
  have bye: ?thesis if "leave fd m t = Some (r, s')" "harmless s t" for m t
    using leave_harmless [OF that(1)] that(2) by (rule harmless_trans [rotated])
  show ?thesis
  proof (cases "q < 0 \<or> q2 < 0")
    case True
    with assms 1 2 h1 h2 bye show ?thesis by (auto simp: file_round_def split: if_splits)
  next
    case False
    then obtain m p where p: "buf = Some (Mapped m p)" "p \<in> input_paths s"
      using map_file_in_cases [OF 2] g by auto
    have p2: "p \<in> input_paths s2" using p(2) h2 by (simp add: harmless_def input_paths_def)
    obtain ex q3 s3 where 3: "e = Some ex" "mutate_mapped rg (Mapped m p) ex z s2 = Some (q3, s3)"
      using assms 1 2 False p(1) by (auto simp: file_round_def elim!: bind_SomeE)
    note h3 = harmless_trans [OF h2 mutate_mapped_harmless [OF 3(2) p2]]
    show ?thesis
    proof (cases "q3 < 0")
      case True
      with assms 1 2 3 p False h3 bye show ?thesis by (auto simp: file_round_def)
    next
      case go: False
      obtain q4 nm s4 where 4: "generate_name e FILE_NAME None s3 = Some (q4, nm, s4)"
        using assms 1 2 3 p False go by (auto simp: file_round_def elim!: bind_SomeE)
      note h4 = harmless_trans [OF h3 kept_harmless [OF kept_generate_name [OF 4]]]
      obtain q5 fp s5 where 5: "asprintf (''/tmp/'' @ show_name nm) s4 = (q5, fp, s5)" by (metis prod_cases3)
      note h5 = harmless_trans [OF h4 kept_harmless [OF kept_calls(2) [OF 5]]]
      have fp: "fp = Some x \<Longrightarrow> in_tmp x" for x using 5 by (auto simp: asprintf_def in_tmp_def split: if_splits)
      from assms 1 2 3 4 5 p False go consider m where "leave fd m s4 = Some (r, s')" | m where "leave fd m s5 = Some (r, s')"
        | path q6 s6 where "fp = Some path" "map_file_out path (Mapped m p) z s5 = Some (q6, s6)"
            "(if q6 < 0 then leave fd ''Can't write file to disk'' s6
              else test_and_clean run_case fd (Mapped m p) z path ex s6) = Some (r, s')"
        by (auto simp: file_round_def elim!: bind_SomeE split: if_splits)
      then show ?thesis
      proof cases
        case 3
        have h6: "harmless s s6" using h5 only_harmless [OF only_map_out [OF 3(2)] fp [OF 3(1)]] by (rule harmless_trans)
        show ?thesis using 3(3) bye [OF _ h6] test_and_clean_harmless [OF _ fp [OF 3(1)]] harmless_trans [OF h6]
          by (auto split: if_splits)
      qed (use bye h4 h5 in blast)+
    qed
  qed
qed

lemma loop_harmless:
  assumes "file_loop rg run_case s = Some w"
  shows "harmless s (snd w)"
proof -
  have "a = rg \<longrightarrow> b = run_case \<longrightarrow> harmless s (snd w)" if "file_loop a b s = Some w" for a b s w
  proof (rule file_loop.raw_induct [OF _ that], intro impI)
    fix rec a b s w
    assume IH: "\<And>a b s w. rec a b s = Some w \<Longrightarrow> a = rg \<longrightarrow> b = run_case \<longrightarrow> harmless s (snd w)"
      and run: "(let (stop, s) = load_stop s in
        if stop = FALSE
        then do { (r, s) \<leftarrow> file_round a b s;
                  case r of
                    Exited code \<Rightarrow> Some (Exited code, s)
                  | Jumped \<Rightarrow> Some (Jumped, s)
                  | Return go \<Rightarrow> if go then rec a b s else Some (Return (), s) }
        else Some (Return (), console_output STD ''Exiting main loop'' s)) = Some w"
      and ab: "a = rg" "b = run_case"
    obtain k t where t: "load_stop s = (k, t)" by fastforce
    then have h: "harmless s t" by (auto simp: load_stop_def intro!: kept_harmless dest!: kept_calls)
    show "harmless s (snd w)"
    proof (cases "k = FALSE")
      case True
      with run t ab obtain q u where u: "file_round rg run_case t = Some (q, u)" by (auto elim!: bind_SomeE)
      note hu = harmless_trans [OF h round_harmless [OF u]]
      from run t ab True u show ?thesis
        by (auto split: if_splits run.splits intro: hu dest!: IH intro!: harmless_trans [OF hu])
    next
      case False
      with run t have "w = (Return (), console_output STD ''Exiting main loop'' t)" by simp
      then show ?thesis using harmless_trans [OF h kept_harmless] by simp
    qed
  qed
  with assms show ?thesis by blast
qed

lemma main_loop_harmless:
  assumes "start_main_file_loop rg run_case s = Some (r, s')"
  shows "harmless s s'"
proof -
  let ?t = "file_setup_signal_handler (console_output STD ''Starting fuzzer'' s)"
  have "kept ?t = kept s" by (simp add: file_setup_signal_handler_def)
  from harmless_trans [OF kept_harmless [OF this]] loop_harmless [of ?t "(r, s')"] assms show ?thesis
    by (simp add: start_main_file_loop_def)
qed

end

lemma kept_rand_range:
  fixes s s' :: "'z file_state_scheme"
  shows "default_rand_range n x s = (r, m, s') \<Longrightarrow> kept s' = kept s"
  unfolding default_rand_range_def kept_def by (auto simp: ext_eq ext2_def printf_def split: if_splits prod.splits)

lemma copy_only:
  fixes s s' :: "'z file_state_scheme"
  assumes "copy_file_to src dst s = Some (r, s')"
  shows "only dst s s'"
proof -
  obtain fd s1 where 1: "open_rd src s = (fd, s1)" by fastforce
  obtain q b z s2 where 2: "map_file_in fd None 0 s1 = (q, b, z, s2)" by (metis prod_cases4)
  note k = kept_calls(5) [OF 1] kept_map_in [OF 2]
  have ubuf: "kept (unmap_buf x n t) = kept t" for x n and t :: "'z file_state_scheme"
    by (auto simp: unmap_buf_def split: option.splits file_buf.splits)
  from assms 1 2 consider "kept s' = kept s" | m n j t where "map_file_out dst m n s2 = Some (j, t)" "kept s' = kept t"
    using k ubuf by (auto simp: copy_file_to_def elim!: bind_SomeE split: if_splits prod.splits dest!: kept_calls)
  then show ?thesis
  proof cases
    case 2
    then show ?thesis using only_map_out [OF 2(1)] only_kept [OF 2(2)] only_kept [of s2 s dst] k by (auto intro: only_trans)
  qed (rule only_kept)
qed

lemma crash_harmless:
  fixes s s' :: "'z file_state_scheme"
  assumes "handle_crash p e s = Some (r, s')" and "in_tmp p"
  shows "harmless s s'"
proof -
  obtain q nm s1 where 1: "generate_name (Some e) FILE_NAME None s = Some (q, nm, s1)"
    using assms(1) by (auto simp: handle_crash_def elim!: bind_SomeE)
  obtain q2 path s2 where 2: "asprintf (p @ ''/crash_dir/'' @ show_name nm) s1 = (q2, path, s2)" by (metis prod_cases3)
  have k: "kept s1 = kept s" "kept s2 = kept s" using kept_generate_name [OF 1] kept_calls(2) [OF 2] by simp_all
  have d: "path = Some x \<Longrightarrow> in_tmp x" for x
    using 2 in_tmp_append [OF assms(2)] by (auto simp: asprintf_def split: if_splits)
  from assms(1) 1 2 consider "kept s' = kept s" | x q3 t where "path = Some x" "copy_file_to p x s2 = Some (q3, t)" "kept s' = kept t"
    using k by (auto simp: handle_crash_def elim!: bind_SomeE split: if_splits)
  then show ?thesis
  proof cases
    case 2
    show ?thesis using only_harmless [OF copy_only [OF 2(2)] d [OF 2(1)]] kept_harmless [OF k(2)] kept_harmless [OF 2(3)]
      by (blast intro: harmless_trans)
  qed (rule kept_harmless)
qed

interpretation lf: file_fuzzer default_rand_range run_test_case_linux
  by unfold_locales (auto simp: run_test_case_linux_def kept_harmless intro: kept_rand_range)

lemma freebsd_harmless:
  fixes s s' :: "'z file_state_scheme"
  assumes "run_test_case_freebsd ex p e s = Some (w, s')" and "in_tmp p"
  shows "harmless s s'"
proof -
  have "kept (snd (ext2 f a t)) = kept t" for f a and t :: "'z file_state_scheme" by (simp add: ext2_def kept_def)
  then have e2: "ext2 f a t = (x, t') \<Longrightarrow> kept t' = kept t" for f a x and t t' :: "'z file_state_scheme" by (metis snd_conv)
  from assms(1) consider "kept s' = kept s" | t u :: "'z file_state_scheme" and r where "kept t = kept s" "handle_crash p e t = Some (r, u)" "kept s' = kept u"
    by (auto simp: run_test_case_freebsd_def Let_def elim!: bind_SomeE split: if_splits prod.splits dest!: kept_calls e2)
  then show ?thesis
  proof cases
    case 2
    show ?thesis using crash_harmless [OF 2(2) assms(2)] kept_harmless [OF 2(1)] kept_harmless [OF 2(3)]
      by (blast intro: harmless_trans)
  qed (rule kept_harmless)
qed

interpretation bf: file_fuzzer default_rand_range run_test_case_freebsd
  by unfold_locales (auto intro: kept_rand_range freebsd_harmless)

text \<open>C34. The main loop of the file fuzzer, on both platforms and for every behaviour of the environment, touches no file
  outside \<^verbatim>\<open>/tmp\<close> but its input files, never changes the length of one of these, and creates or removes no
  file outside \<^verbatim>\<open>/tmp\<close>; the array of the inputs stays as it was set up. (The input files themselves do change:
  the mutators write through the shared mapping.)\<close>

theorem file_loop_confined:
  fixes s s' :: "'z file_state_scheme"
  assumes "run_case \<in> {run_test_case_linux, run_test_case_freebsd}"
    and "start_main_file_loop default_rand_range run_case s = Some (r, s')"
  shows "file_array s' = file_array s \<and>
     (\<forall>x. \<not> in_tmp x \<longrightarrow> (x \<notin> input_paths s \<longrightarrow> files s' x = files s x) \<and>
        map_option length (files s' x) = map_option length (files s x))"
  using assms lf.main_loop_harmless [of s r s'] bf.main_loop_harmless [of s r s'] unfolding harmless_def by blast

section \<open>A round overwrites its input\<close>

text \<open>A random source that draws \<open>pick n\<close> from the range up to \<open>n\<close>.\<close>

definition draw :: "(u32 \<Rightarrow> u32) \<Rightarrow> 's rangef" where
  "draw pick n x s = (0, pick n, s)"

text \<open>The states in which a round goes on.\<close>

definition ready :: "'z file_state_scheme \<Rightarrow> bool" where
  "ready s \<longleftrightarrow> all_succeed s \<and> wf_os s"

lemma ready_simps [simp]:
  "ready (s\<lparr>trace := x\<rparr>) = ready s" "ready (s\<lparr>asked := n\<rparr>) = ready s" "ready (s\<lparr>files := fs\<rparr>) = ready s" "ready (s\<lparr>fds := fd\<rparr>) = ready s"
  by (auto simp: ready_def all_succeed_def wf_os_def)

lemma get_file_runs:
  assumes "ready s" and "file_array s = Some arr" and "unat (pick (file_count s - 1)) < length arr"
    and "arr ! unat (pick (file_count s - 1)) = Some ctx" and "files s (fc_path ctx) \<noteq> None"
  shows "\<exists>s'. get_file (draw pick) s = Some (0, 1, Some (fc_extension ctx), s') \<and> kept s' = kept s \<and> ready s' \<and>
     fds s' 1 = Some (fc_path ctx)"
  using assms all_succeedD [of s]
  by (auto simp: get_file_def draw_def open_rd_def ext_eq asprintf_def kept_def ready_def [of s])

lemma map_in_runs:
  fixes s :: "'z file_state_scheme"
  assumes "ready s" and "fds s fd = Some p" and "files s p = Some c" and "word_of_nat (length c) \<noteq> (0 :: u64)"
  shows "\<exists>m s'. map_file_in fd None 0 s = (0, Some (Mapped m p), word_of_nat (length c), s') \<and> kept s' = kept s \<and> ready s'"
proof -
  let ?t = "s\<lparr>trace := trace s @ [(''fstat'', [fd])]\<rparr>"
  have 1: "get_file_size fd 0 s = (0, word_of_nat (length c), ?t)"
    using assms all_succeedD(3) [of s] by (simp add: get_file_size_def ext_eq ready_def)
  obtain q u where 2: "mmap (word_of_nat (length c)) ?t = (q, u)" by fastforce
  have g: "grant s n" for n using assms(1) by (simp add: ready_def all_succeed_def)
  have "wf_os u" using wf_os_mmap [OF _ 2] assms(1) by (simp add: ready_def)
  moreover have "all_succeed u" "q = Some (fresh s)" "kept u = kept s" "fds u = fds s"
    using 2 g assms(1,4) by (auto simp: mmap_def ready_def all_succeed_def kept_def)
  ultimately show ?thesis using 1 2 assms(2) by (simp add: map_file_in_def ready_def)
qed

text \<open>What the mutators make of a file under such a source.\<close>

definition drawn_mutation :: "(u32 \<Rightarrow> u32) \<Rightarrow> u8 list \<Rightarrow> u8 list" where
  "drawn_mutation pick c =
     (let i = unat (pick (word_of_nat (length c))) in
      if pick 2 = 0 then c[i := NOT (c ! i)]
      else if pick 2 = 1 then c[i := (c ! i) XOR ucast (push_bit (unat (pick 8)) (1 :: u32))]
      else c)"

lemma length_drawn [simp]: "length (drawn_mutation pick c) = length c"
  by (simp add: drawn_mutation_def Let_def)

lemma mutate_runs:
  assumes "\<And>n. pick n \<le> n" and "length c < 2 ^ 32" and "unat (pick (word_of_nat (length c))) < length c"
  shows "mutate_file (draw pick) c e (word_of_nat (length c)) s = Some (0, drawn_mutation pick c, s)"
proof -
  have len: "(ucast (word_of_nat (length c) :: u64) :: u32) = word_of_nat (length c)"
    using assms(2) ucast_len by (simp add: word_unat_eq_iff unat_of_nat take_bit_nat_eq_self)
  have b: "unat (pick 8) < 32" and p2: "unat (pick 2) \<le> 2"
    using assms(1) [of 8] assms(1) [of 2] by (simp_all add: word_le_nat_alt)
  from p2 consider "pick 2 = 0" | "pick 2 = 1" | "pick 2 = 2"
    by (simp add: word_unat_eq_iff) linarith
  then show ?thesis
    by cases (use assms(3) b in \<open>simp_all add: mutate_file_def supported_file_def mutate_file_randomly_def draw_def number_of_mutators_def
        mutator_array_def flip_byte_mutator_def flip_bit_mutator_def xor_mutator_def drawn_mutation_def len Let_def\<close>)
qed

lemma map_out_runs:
  fixes s :: "'z file_state_scheme"
  assumes ok: "all_succeed s" and "files s p = Some c" and "p \<noteq> path" and "unat z = length c" and "c \<noteq> []"
  shows "\<exists>s'. map_file_out path (Mapped m p) z s = Some (0, s') \<and> all_succeed s' \<and> files s' = (files s)(path \<mapsto> c)"
proof -
  note d = all_succeedD [OF ok]
  have z: "z \<noteq> 0" using assms(4,5) by auto
  let ?s1 = "s\<lparr>trace := trace s @ [(''open'', [1])], fds := (fds s)(1 \<mapsto> path), files := (files s)(path \<mapsto> [])\<rparr>"
  let ?s3 = "?s1\<lparr>trace := trace ?s1 @ [(''lseek'', [1, sint z - 1]), (''write'', [1, 1])],
      files := (files s)(path \<mapsto> replicate (unat z) 0)\<rparr>"
  obtain q u where 4: "mmap z ?s3 = (q, u)" by fastforce
  have u: "q = Some (fresh s)" "files u = (files s)(path \<mapsto> replicate (unat z) 0)" "all_succeed u"
    using 4 d(1) z by (auto simp: mmap_def intro!: all_succeed_mono [OF ok])
  let ?s' = "close_fd 1 (munmap (fresh s) z (u\<lparr>files := (files u)(path \<mapsto> c)\<rparr>))"
  have "buf_bytes (Mapped m p) (unat z) u = Some c" using assms(2-4) u(2) by (simp add: buf_bytes_def)
  then have "map_file_out path (Mapped m p) z s = Some (0, ?s')"
    using 4 u(1) d z by (simp add: map_file_out_def open_trunc_def ext_eq Let_def)
  moreover have "all_succeed ?s'" by (rule all_succeed_mono [OF u(3)]) (simp_all add: close_fd_def ext_eq munmap_def)
  moreover have "files ?s' = (files s)(path \<mapsto> c)" using u(2) by simp
  ultimately show ?thesis by blast
qed

lemma name_runs:
  fixes s :: "'z file_state_scheme"
  assumes "ready s"
  shows "\<exists>nm s'. generate_name (Some e) FILE_NAME None s = Some (0, Some nm, s') \<and> kept s' = kept s \<and> all_succeed s'"
proof -
  have ok: "all_succeed s" "wf_os s" using assms by (simp_all add: ready_def)
  have "0 \<le> fst (answer s k f x)" for k f x using all_succeedD(3) [OF ok(1)] by simp
  then obtain nm s' where 1: "generate_name (Some e) FILE_NAME None s = Some (0, Some nm, s')"
      "grant s' = grant s" "answer s' = answer s" "fresh s \<le> fresh s'"
    using generate_name_runs [of s FILE_NAME "Some e" None] all_succeedD [OF ok(1)] ok(2) by auto
  then show ?thesis using kept_generate_name [OF 1(1)] all_succeed_mono [OF ok(1) 1(2-4)] by blast
qed

lemma clean_runs:
  fixes s :: "'z file_state_scheme"
  assumes ok: "all_succeed s" and "files s path \<noteq> None"
  shows "\<exists>s'. test_and_clean run_test_case_linux fd buf z path e s = Some (Return True, s') \<and> files s' = (files s)(path := None)"
proof -
  let ?q = "case buf of Mapped q _ \<Rightarrow> q | Heap_buf q \<Rightarrow> q"
  let ?t = "snd (mem_free_shared ?q z s)"
  have k: "kept ?t = kept s" by (simp add: mem_free_shared_def)
  have "all_succeed ?t" by (rule all_succeed_mono [OF ok]) (simp_all add: mem_free_shared_def munmap_def)
  with k have "unlink_file path ?t = (0, snd (unlink_file path ?t))" "files (snd (unlink_file path ?t)) = (files s)(path := None)"
    using assms(2) all_succeedD(3) [of ?t] by (auto simp: unlink_file_def ext_eq kept_def)
  then show ?thesis
    by (auto simp: test_and_clean_def log_file_def run_test_case_linux_def Let_def split: file_buf.splits prod.splits)
qed


text \<open>A state after the set-up, and a run of a round and of the loop from it.\<close>

definition file1 :: file_state where
  "file1 = file0\<lparr>file_array := Some [Some \<lparr>fc_path = ''d/a.x'', fc_extension = ''x'' @ [newline], fc_size = 3\<rparr>], file_count := 1\<rparr>"


theorem file_loop_confined_witness:
  "\<exists>s'. start_main_file_loop default_rand_range run_test_case_linux file1 = Some (Return (), s') \<and>
     files s' ''d/a.x'' \<noteq> None \<and> map_option length (files s' ''d/a.x'') = Some 3"
proof -
  have run: "\<exists>s'. start_main_file_loop default_rand_range run_test_case_linux file1 = Some (Return (), s')"
    unfolding start_main_file_loop_def
    by (subst file_loop.simps) (simp add: file_setup_signal_handler_def load_stop_def ext_eq printing_defs FALSE_def file1_def file0_simps)
  then obtain s' where s': "start_main_file_loop default_rand_range run_test_case_linux file1 = Some (Return (), s')" by blast
  have "map_option length (files s' ''d/a.x'') = Some 3"
    using file_loop_confined [OF _ s'] by (auto simp: in_tmp_def file1_def file0_simps)
  with s' show ?thesis by auto
qed

end
