(* ===== verification/Genetic.thy ===== *)
theory Genetic
  imports Table
begin

text \<open>
  Model of \<^verbatim>\<open>src/src/genetic/genetic.c\<close> and of \<open>cleanup_syscall_table\<close> in \<^verbatim>\<open>src/src/syscall/syscall.c\<close>: the world of
  species that the genetic algorithm allocates, its first generation and its thread. A slot of the
  species index is \<open>None\<close> until it is written, and a write behind the index is undefined. The list of the
  organisms of a species is the list of their addresses, the head first. The only floating point
  number that is ever stored is zero.
\<close>

type_synonym double = int

datatype genetic_mode = FILE_FUZZING | SYSCALL_FUZZING | NETWORK_FUZZING

definition SPECIES_POP :: nat where
  "SPECIES_POP = 1000"

record organism_ctx =
  fitness :: double
  chromosome :: ptr

record species_ctx =
  species_population :: u32
  average_species_fitness :: double
  organism_list :: "ptr list"

record world_population =
  total_species :: u32
  current_generation :: u64
  species :: "species_ctx option list"

record genetic = syscall_state +
  gen_world :: "world_population option"
  organisms :: "ptr \<rightharpoonup> organism_ctx"
  gen_stop :: ptr
  gen_run_mode :: genetic_mode

text \<open>The first call releases what \<open>sys_entry[0]\<close> points to, a static object: the kernel refuses the address, and the
  pointer in the table is cleared. The second unmaps the table. A table that is not mapped cannot be read.\<close>

definition cleanup_syscall_table :: "ptr \<Rightarrow> 'z syscall_state_scheme \<Rightarrow> (ptr \<times> 'z syscall_state_scheme) option" where
  "cleanup_syscall_table table s =
     (if regions s table = None then None
      else
        let s = (if sys_entry (static_table s) = [] then s else snd (ext ''munmap'' [] s)) in
        Some (default_mem_free_shared table 456 s))"

section \<open>Creating the world\<close>

fun organism_loop :: "nat \<Rightarrow> species_ctx \<Rightarrow> 'z genetic_scheme \<Rightarrow> (int \<times> species_ctx \<times> 'z genetic_scheme) option" where
  "organism_loop 0 sp s = Some (0, sp, s)"
| "organism_loop (Suc n) sp s =
     (let (organism, s) = default_mem_alloc 24 s in
      if organism = NULL then Some (-1, sp, console_output ERROR ''Can't allocate organism context'' s)
      else
        let (chrom, s) = default_mem_alloc 8 s in
        if chrom = NULL
        then do { (_, s) \<leftarrow> default_mem_free organism (console_output ERROR ''Can't allocate chromosome context'' s);
                  Some (-1, sp, s) }
        else organism_loop n (sp\<lparr>organism_list := organism # organism_list sp\<rparr>)
               (s\<lparr>organisms := (organisms s)(organism \<mapsto> \<lparr>fitness = 0, chromosome = chrom\<rparr>)\<rparr>))"

definition new_species :: species_ctx where
  "new_species = \<lparr>species_population = 0, average_species_fitness = 0, organism_list = []\<rparr>"

fun species_loop ::
    "nat \<Rightarrow> nat \<Rightarrow> species_ctx option list \<Rightarrow> 'z genetic_scheme \<Rightarrow> (int \<times> species_ctx option list \<times> 'z genetic_scheme) option" where
  "species_loop 0 i sps s = Some (0, sps, s)"
| "species_loop (Suc n) i sps s =
     (let (specie, s) = default_mem_alloc 24 s in
      if specie = NULL then Some (-1, sps, console_output ERROR ''Can't allocate species_ctx'' s)
      else do {
        (rtrn, sp, s) \<leftarrow> organism_loop SPECIES_POP new_species s;
        if rtrn < 0 then Some (-1, sps, s)
        else if i < length sps then species_loop n (i + 1) (sps[i := Some sp]) s
        else None })"

text \<open>The fields of the new world are indeterminate until they are set; nothing reads them before.\<close>

definition init_world :: "'z genetic_scheme \<Rightarrow> (int \<times> 'z genetic_scheme) option" where
  "init_world s =
     (let s = console_output STD ''Creating world, may take a sec'' s;
          (world, s) = default_mem_alloc 32 s in
      if world = NULL then Some (-1, console_output ERROR ''Can't allocate world'' (s\<lparr>gen_world := None\<rparr>))
      else do {
        (table, s) \<leftarrow> get_syscall_table (s\<lparr>gen_world := Some \<lparr>total_species = 0, current_generation = 0, species = []\<rparr>\<rparr>);
        if table = NULL then Some (-1, console_output ERROR ''Can't get system table'' s)
        else if regions s table = None then None
        else
          let total = total_syscalls (static_table s);
              (index, s) = default_mem_alloc (ucast total * 8) s in
          if index = NULL
          then do { (_, s) \<leftarrow> cleanup_syscall_table table (console_output ERROR ''Can't create species index'' s); Some (-1, s) }
          else do {
            (rtrn, sps, s) \<leftarrow> species_loop (unat (total - 1)) 0 (replicate (unat total) None) s;
            Some (rtrn, s\<lparr>gen_world := Some \<lparr>total_species = total, current_generation = 0, species = sps\<rparr>\<rparr>) } })"

text \<open>The two loops over the calls and the organisms have empty bodies.\<close>

definition create_first_generation :: "'z genetic_scheme \<Rightarrow> (int \<times> 'z genetic_scheme) option" where
  "create_first_generation s =
     do { (table, s) \<leftarrow> get_syscall_table (console_output STD ''Creating first generation'' s);
          if table = NULL then Some (-1, console_output ERROR ''Can't get system table'' s)
          else do { (_, s) \<leftarrow> cleanup_syscall_table table s; Some (0, s) } }"

definition genesis :: "'z genetic_scheme \<Rightarrow> (int \<times> 'z genetic_scheme) option" where
  "genesis s =
     do { (rtrn, s) \<leftarrow> init_world s;
          if rtrn < 0 then Some (-1, console_output ERROR ''Can't init world'' s)
          else do { (rtrn, s) \<leftarrow> create_first_generation s;
                    if rtrn < 0 then Some (-1, console_output ERROR ''Can't create first generation'' s)
                    else Some (0, s) } }"

text \<open>The thread. A load through the stop pointer before it is set is undefined.\<close>

definition god_loop :: "'z genetic_scheme \<Rightarrow> 'z genetic_scheme option" where
  "god_loop s =
     (let (writter, s) = get_console_writter s; (allocator, s) = get_default_allocator s in
      if writter = NULL \<or> allocator = NULL then None
      else do { (rtrn, s) \<leftarrow> genesis s;
                if rtrn < 0 then Some (console_output ERROR ''Can't init ga'' s)
                else if gen_stop s = NULL then None
                else wait_for_stop s })"

definition setup_genetic_module :: "genetic_mode \<Rightarrow> ptr \<Rightarrow> 'z genetic_scheme \<Rightarrow> int \<times> 'z genetic_scheme" where
  "setup_genetic_module mode stop s =
     (let (rtrn, s) = ext ''pthread_create god_loop'' [] s in
      if rtrn < 0 then (-1, console_output ERROR ''Can't create thread'' s)
      else (0, s\<lparr>gen_run_mode := mode, gen_stop := stop\<rparr>))"

section \<open>The world and the table after genesis\<close>

text \<open>What the allocations of the world leave as it was.\<close>

definition enlarged :: "'z genetic_scheme \<Rightarrow> 'z genetic_scheme \<Rightarrow> bool" where
  "enlarged s t \<longleftrightarrow> grant t = grant s \<and> regions t = regions s \<and> static_table t = static_table s \<and> sys_table t = sys_table s \<and>
     table_set t = table_set s \<and> gen_stop t = gen_stop s \<and> fresh s \<le> fresh t \<and>
     (\<forall>q < fresh s. heap t q = heap s q \<and> organisms t q = organisms s q)"

lemma enlarged_refl [simp]: "enlarged s s"
  by (simp add: enlarged_def)

lemma enlarged_trans [trans]: "enlarged s t \<Longrightarrow> enlarged t u \<Longrightarrow> enlarged s u"
  by (simp add: enlarged_def)

definition alive :: "'z genetic_scheme \<Rightarrow> ptr \<Rightarrow> bool" where
  "alive t p \<longleftrightarrow> p < fresh t \<and> heap t p = Some 24 \<and>
     (\<exists>c. organisms t p = Some \<lparr>fitness = 0, chromosome = c\<rparr> \<and> c < fresh t \<and> heap t c = Some 8)"

lemma alive_enlarged: "alive s p \<Longrightarrow> enlarged s t \<Longrightarrow> alive t p"
  by (auto simp: alive_def enlarged_def)

lemma alloc_all:
  assumes "\<forall>n. grant s n" and "n \<noteq> 0" and "0 < fresh s"
  shows "default_mem_alloc n s = (fresh s, s\<lparr>asked := asked s + 1, fresh := fresh s + 1, heap := (heap s)(fresh s \<mapsto> n)\<rparr>)"
  using assms by (simp add: default_mem_alloc_def malloc_def)

lemma organism_loop_ok:
  assumes "\<forall>n. grant s n" and "0 < fresh s"
  shows "\<exists>ps s'. organism_loop n sp s = Some (0, sp\<lparr>organism_list := ps @ organism_list sp\<rparr>, s') \<and> length ps = n \<and>
     distinct ps \<and> (\<forall>p \<in> set ps. fresh s \<le> p \<and> alive s' p) \<and> enlarged s s'"
  using assms
proof (induction n arbitrary: sp s)
  case 0
  then show ?case by (intro exI [of _ "[]"]) simp
next
  case (Suc n)
  let ?f = "fresh s"
  let ?s1 = "s\<lparr>asked := asked s + 1, fresh := ?f + 1, heap := (heap s)(?f \<mapsto> 24)\<rparr>"
  let ?s2 = "s\<lparr>asked := asked s + 2, fresh := ?f + 2, heap := (heap s)(?f \<mapsto> 24, ?f + 1 \<mapsto> 8)\<rparr>"
  let ?s3 = "?s2\<lparr>organisms := (organisms s)(?f \<mapsto> \<lparr>fitness = 0, chromosome = ?f + 1\<rparr>)\<rparr>"
  let ?sp = "sp\<lparr>organism_list := ?f # organism_list sp\<rparr>"
  have step: "organism_loop (Suc n) sp s = organism_loop n ?sp ?s3"
    using Suc.prems by (simp add: alloc_all)
  have g: "enlarged s ?s3" and a: "alive ?s3 ?f" by (auto simp: enlarged_def alive_def)
  obtain ps s' where IH: "organism_loop n ?sp ?s3 = Some (0, ?sp\<lparr>organism_list := ps @ organism_list ?sp\<rparr>, s')"
      "length ps = n" "distinct ps" "\<forall>p \<in> set ps. ?f + 2 \<le> p \<and> alive s' p" "enlarged ?s3 s'"
    using Suc.IH [of ?s3 ?sp] Suc.prems by auto
  have "organism_loop (Suc n) sp s = Some (0, sp\<lparr>organism_list := (ps @ [?f]) @ organism_list sp\<rparr>, s')"
    using step IH(1) by simp
  moreover have "distinct (ps @ [?f])" using IH(3,4) by auto
  moreover have "\<forall>p \<in> set (ps @ [?f]). ?f \<le> p \<and> alive s' p" using IH(4) alive_enlarged [OF a IH(5)] by auto
  ultimately show ?case using IH(2) enlarged_trans [OF g IH(5)] by (intro exI [of _ "ps @ [?f]"] exI [of _ s']) simp
qed

definition populated :: "'z genetic_scheme \<Rightarrow> species_ctx \<Rightarrow> bool" where
  "populated t sp \<longleftrightarrow> species_population sp = 0 \<and> length (organism_list sp) = SPECIES_POP \<and> distinct (organism_list sp) \<and>
     (\<forall>p \<in> set (organism_list sp). alive t p)"

lemma populated_enlarged: "populated s sp \<Longrightarrow> enlarged s t \<Longrightarrow> populated t sp"
  using alive_enlarged by (auto simp: populated_def)

lemma species_loop_ok:
  assumes "\<forall>k. grant s k" and "0 < fresh s" and "i + n \<le> length sps"
  shows "\<exists>sps' s'. species_loop n i sps s = Some (0, sps', s') \<and> length sps' = length sps \<and> enlarged s s' \<and>
     (\<forall>k. k < i \<or> i + n \<le> k \<longrightarrow> sps' ! k = sps ! k) \<and> (\<forall>k. i \<le> k \<and> k < i + n \<longrightarrow> (\<exists>sp. sps' ! k = Some sp \<and> populated s' sp))"
  using assms
proof (induction n arbitrary: i sps s)
  case (Suc n)
  let ?s1 = "s\<lparr>asked := asked s + 1, fresh := fresh s + 1, heap := (heap s)(fresh s \<mapsto> 24)\<rparr>"
  have g1: "enlarged s ?s1" by (simp add: enlarged_def)
  obtain ps s2 where 2: "organism_loop SPECIES_POP new_species ?s1 = Some (0, new_species\<lparr>organism_list := ps\<rparr>, s2)"
      "length ps = SPECIES_POP" "distinct ps" "\<forall>p \<in> set ps. alive s2 p" "enlarged ?s1 s2"
    using organism_loop_ok [of ?s1 SPECIES_POP new_species] Suc.prems by (auto simp: new_species_def)
  let ?sp = "new_species\<lparr>organism_list := ps\<rparr>"
  have pop: "populated s2 ?sp" using 2 by (simp add: populated_def new_species_def)
  have "\<forall>k. grant s2 k" "0 < fresh s2" using Suc.prems enlarged_trans [OF g1 2(5)] by (auto simp: enlarged_def)
  then obtain sps' s' where 3: "species_loop n (i + 1) (sps[i := Some ?sp]) s2 = Some (0, sps', s')" "length sps' = length sps"
      "enlarged s2 s'" "\<forall>k. k < i + 1 \<or> i + 1 + n \<le> k \<longrightarrow> sps' ! k = sps[i := Some ?sp] ! k"
      "\<forall>k. i + 1 \<le> k \<and> k < i + 1 + n \<longrightarrow> (\<exists>sp. sps' ! k = Some sp \<and> populated s' sp)"
    using Suc.IH [of s2 "i + 1" "sps[i := Some ?sp]"] Suc.prems(3) by auto
  have "sps' ! i = Some ?sp" using 3(4) Suc.prems(3) by simp
  then have "\<exists>sp. sps' ! k = Some sp \<and> populated s' sp" if "i \<le> k" "k < i + Suc n" for k
    using that 3(5) populated_enlarged [OF pop 3(3)] by (cases "k = i") auto
  moreover have "species_loop (Suc n) i sps s = Some (0, sps', s')"
    using Suc.prems 2(1) 3(1) by (simp add: alloc_all)
  ultimately show ?case using 3 enlarged_trans [OF enlarged_trans [OF g1 2(5)] 3(3)] by (intro exI [of _ sps'] exI [of _ s']) auto
qed auto

lemma init_world_ok:
  assumes "\<forall>n. grant s n" and "0 < fresh s" and "table_set s = TRUE" and "sys_table s \<noteq> NULL"
    and "regions s (sys_table s) \<noteq> None" and "total_syscalls (static_table s) \<noteq> 0"
  shows "\<exists>w s'. init_world s = Some (0, s') \<and> gen_world s' = Some w \<and> total_species w = total_syscalls (static_table s) \<and>
     length (species w) = unat (total_species w) \<and> species w ! (length (species w) - 1) = None \<and>
     (\<forall>i < length (species w) - 1. \<exists>sp. species w ! i = Some sp \<and> populated s' sp) \<and> enlarged s s'"
proof -
  let ?n = "total_syscalls (static_table s)"
  let ?w = "\<lparr>total_species = 0, current_generation = 0, species = []\<rparr> :: world_population"
  let ?s0 = "console_output STD ''Creating world, may take a sec'' s"
  let ?s1 = "?s0\<lparr>asked := asked s + 1, fresh := fresh s + 1, heap := (heap s)(fresh s \<mapsto> 32), gen_world := Some ?w\<rparr>"
  let ?s2 = "?s1\<lparr>asked := asked s + 2, fresh := fresh s + 2, heap := (heap s)(fresh s \<mapsto> 32, fresh s + 1 \<mapsto> ucast ?n * 8)\<rparr>"
  have g: "enlarged s ?s2" by (simp add: enlarged_def printing_defs)
  have nz: "(ucast ?n * 8 :: u64) \<noteq> 0" using assms(6) by (simp add: array_bytes_zero)
  have n: "unat (?n - 1) = unat ?n - 1" "0 < unat ?n" 
  proof -
    show pos: "0 < unat ?n" using assms(6) by (simp add: unat_gt_0)
    then have "1 \<le> ?n" by (simp add: word_le_nat_alt)
    then show "unat (?n - 1) = unat ?n - 1" by (simp add: unat_sub)
  qed
  obtain sps s3 where 3: "species_loop (unat (?n - 1)) 0 (replicate (unat ?n) None) ?s2 = Some (0, sps, s3)" "length sps = unat ?n"
      "enlarged ?s2 s3" "\<forall>k. unat ?n - 1 \<le> k \<longrightarrow> sps ! k = replicate (unat ?n) None ! k"
      "\<forall>k < unat ?n - 1. \<exists>sp. sps ! k = Some sp \<and> populated s3 sp"
    using species_loop_ok [of ?s2 0 "unat (?n - 1)" "replicate (unat ?n) None"] assms(1,2) n by (auto simp: printing_defs)
  let ?s' = "s3\<lparr>gen_world := Some \<lparr>total_species = ?n, current_generation = 0, species = sps\<rparr>\<rparr>"
  have "init_world s = Some (0, ?s')"
    using assms 3(1) nz by (simp add: init_world_def alloc_all get_syscall_table_def printing_defs)
  moreover have e: "enlarged s3 ?s'" by (simp add: enlarged_def)
  moreover have "\<forall>i < unat ?n - 1. \<exists>sp. sps ! i = Some sp \<and> populated ?s' sp"
    using 3(5) populated_enlarged [OF _ e] by blast
  moreover have "sps ! (length sps - 1) = None" using 3(2,4) n(2) by simp
  moreover have "enlarged s ?s'" using enlarged_trans [OF enlarged_trans [OF g 3(3)] e] .
  ultimately show ?thesis using 3(2) by (intro exI [of _ "\<lparr>total_species = ?n, current_generation = 0, species = sps\<rparr>"] exI [of _ ?s']) simp
qed

text \<open>C35. With memory, and the table of the system calls set up and mapped, genesis reports success. The world then has
  one species for each system call, all but the last with a population of 1000 distinct organisms in
  live memory, although the counter of the population stays 0; the last one is never created. The
  table that all modules share is unmapped on the way, while it stays set: every later request for it
  delivers a pointer to unmapped memory.\<close>

theorem genesis_effect:
  fixes s :: "'z genetic_scheme"
  assumes "\<forall>n. grant s n" and "wf_os s" and "table_set s = TRUE" and "sys_table s \<noteq> NULL"
    and "regions s (sys_table s) \<noteq> None" and "total_syscalls (static_table s) \<noteq> 0"
  shows "\<exists>w s'. genesis s = Some (0, s') \<and> gen_world s' = Some w \<and> total_species w = total_syscalls (static_table s) \<and>
     length (species w) = unat (total_species w) \<and> species w ! (length (species w) - 1) = None \<and>
     (\<forall>i < length (species w) - 1. \<exists>sp. species w ! i = Some sp \<and> populated s' sp) \<and>
     get_syscall_table s' = Some (sys_table s, s') \<and> regions s' (sys_table s) = None"
proof -
  from init_world_ok [OF assms(1) wf_os_pos [OF assms(2)] assms(3-)] obtain w t where
    1: "init_world s = Some (0, t)" "gen_world t = Some w" "total_species w = total_syscalls (static_table s)"
      "length (species w) = unat (total_species w)" "species w ! (length (species w) - 1) = None"
      "\<forall>i < length (species w) - 1. \<exists>sp. species w ! i = Some sp \<and> populated t sp" "enlarged s t" by blast
  let ?t = "console_output STD ''Creating first generation'' t"
  obtain u where 2: "(if sys_entry (static_table ?t) = [] then ?t else snd (ext ''munmap'' [] ?t)) = u" by blast
  let ?s' = "u\<lparr>regions := (regions u)(sys_table s := None)\<rparr>"
  have u: "regions u = regions s" "sys_table u = sys_table s" "table_set u = TRUE" "gen_world u = Some w"
      "fresh u = fresh t" "heap u = heap t" "organisms u = organisms t"
    using 2 1(2,7) assms(3) by (auto simp: enlarged_def ext_eq printing_defs split: if_splits)
  have "create_first_generation t = Some (0, ?s')"
    using 1(7) 2 assms(3-5) by (auto simp: create_first_generation_def get_syscall_table_def cleanup_syscall_table_def
        default_mem_free_shared_def munmap_def enlarged_def printing_defs Let_def)
  with 1(1) have "genesis s = Some (0, ?s')" by (simp add: genesis_def)
  moreover have "populated ?s' sp" if "populated t sp" for sp using that u by (auto simp: populated_def alive_def)
  ultimately show ?thesis using 1(3-6) u by (auto simp: get_syscall_table_def)
qed

text \<open>The stop pointer is stored only after the thread was created: a thread that gets through genesis
  before loads through a null pointer.\<close>

lemma stop_set_too_late:
  assumes "genesis (snd (get_default_allocator (snd (get_console_writter s)))) = Some (0, s')" and "gen_stop s' = NULL"
  shows "god_loop s = None"
  using assms by (auto simp: god_loop_def split: prod.splits)

definition genetic0 :: genetic where
  "genetic0 = syscall_state.extend
     (syscall0\<lparr>grant := (\<lambda>_. True), static_table := freebsd_syscall_table, sys_table := 9, table_set := TRUE,
        heap := Map.empty, regions := [9 \<mapsto> 456]\<rparr>)
     (genetic.fields None Map.empty 0 SYSCALL_FUZZING)"

theorem genesis_effect_witness:
  "\<exists>w s'. genesis genetic0 = Some (0, s') \<and> gen_world s' = Some w \<and> total_species w = total_syscalls freebsd_syscall_table \<and>
     (\<exists>sp. species w ! 0 = Some sp \<and> populated s' sp) \<and> regions s' 9 = None"
proof -
  have st: "\<forall>n. grant genetic0 n" "wf_os genetic0" "table_set genetic0 = TRUE" "sys_table genetic0 = 9"
      "regions genetic0 9 \<noteq> None" "static_table genetic0 = freebsd_syscall_table"
    by (simp_all add: genetic0_def syscall_state.defs genetic.defs wf_os_def)
  have big: "1 < unat (total_syscalls freebsd_syscall_table)" "total_syscalls freebsd_syscall_table \<noteq> 0"
    by (simp_all add: freebsd_syscall_table_def)
  obtain w s' where "genesis genetic0 = Some (0, s')" "gen_world s' = Some w" "total_species w = total_syscalls freebsd_syscall_table"
      "length (species w) = unat (total_species w)"
      "\<forall>i < length (species w) - 1. \<exists>sp. species w ! i = Some sp \<and> populated s' sp" "regions s' 9 = None"
    using genesis_effect [OF st(1-3)] st(4-6) big(2) by auto
  with big(1) show ?thesis by auto
qed

end
