(* ===== verification/Probe.thy ===== *)
theory Probe
  imports File
begin

text \<open>
  Model of \<^verbatim>\<open>src/src/disas\<close> and \<^verbatim>\<open>src/src/probe\<close>: the search for branches in the target, its load address and the
  process that is stopped before it runs. The disassembler is the capstone library, an argument: \<open>iter\<close> delivers
  the mnemonic and the length of the instruction at the start of the bytes. dtrace and the ELF library are
  the environment. The versions of Linux and FreeBSD are modelled; a status is one of FreeBSD.
\<close>

record probe_state = file_state +
  probe_pid :: int
  target_path :: "string option"

section \<open>Branches of the target\<close>

definition branch_prefixes :: "string list" where
  "branch_prefixes =
     [''jne'', ''je'', ''jg'', ''jle'', ''jl'', ''jge'', ''jo'', ''jno'', ''js'', ''jns'', ''jz'', ''jb'', ''jnae'', ''jc'', ''jnb'',
      ''jae'', ''jnc'', ''jbe'', ''jna'', ''ja'', ''jnbe'', ''jl'', ''jnge'', ''jge'', ''jng'', ''jnle'', ''jp'', ''jpe'', ''jnp'',
      ''jpo'', ''jcxz'', ''jecxz'']"

definition is_branch :: "string \<Rightarrow> bool" where
  "is_branch mnemonic \<longleftrightarrow> (\<exists>p \<in> set branch_prefixes. take (length p) mnemonic = p)"

text \<open>The library moves its pointer and its size behind each instruction. The address of the last instruction is
  that of the buffer of one instruction, indeterminate before the first.\<close>

partial_function (option) disas_loop ::
    "(u8 list \<Rightarrow> (string \<times> nat) option) \<Rightarrow> u8 list \<Rightarrow> u64 \<Rightarrow> u64 \<Rightarrow> u32 \<Rightarrow> (u8 list \<times> u64 \<times> u32) option" where
  "disas_loop iter bs address prev cnt =
     (case iter bs of
        None \<Rightarrow> Some (bs, prev, cnt)
      | Some (mnemonic, n) \<Rightarrow>
          disas_loop iter (drop n bs) (address + word_of_nat n) address (if is_branch mnemonic then cnt + 1 else cnt))"

definition disas_executable_and_examine ::
    "(u8 list \<Rightarrow> (string \<times> nat) option) \<Rightarrow> u64 \<Rightarrow> 'z file_state_scheme \<Rightarrow> (int \<times> 'z file_state_scheme) option" where
  "disas_executable_and_examine iter junk s =
     (let (rtrn, exec, s) = get_exec_path None s in
      if rtrn < 0 then Some (-1, console_output ERROR ''Can't get exec path'' s)
      else
        let (file, s) = (case exec of None \<Rightarrow> (-1, snd (ext ''open'' [0] s)) | Some p \<Rightarrow> open_rd p s) in
        if file < 0 then Some (-1, close_fd file (console_output ERROR ''open: %s'' s))
        else
          let (rtrn, buf, fsize, s) = map_file_in file None 0 s in
          if rtrn < 0 then Some (-1, close_fd file (console_output ERROR ''Can't memory map file'' s))
          else do {
            b \<leftarrow> buf;
            let (insn, s) = ext ''cs_malloc'' [] (snd (ext ''cs_open'' [] s));
            bs \<leftarrow> buf_bytes b (unat fsize) s;
            (rest, address, cnt) \<leftarrow> disas_loop iter bs 0 junk 0;
            if insn = 0 then None
            else if set_end_offset address < 0
            then Some (-1, close_fd file (console_output ERROR ''Can't set end offset'' s))
            else Some (0, close_fd file (unmap_buf buf (word_of_nat (length rest)) (snd (ext ''cs_free'' [] s)))) })"

definition get_load_address_linux :: int where
  "get_load_address_linux = 0"

text \<open>The kinds of a file for the ELF library, and the entry point it reads.\<close>

datatype elf_kind = ELF_K_NONE | ELF_K_ELF | ELF_K_AR | ELF_K_COFF | ELF_K_NUM

definition get_load_address_freebsd :: "elf_kind \<Rightarrow> 'z file_state_scheme \<Rightarrow> int \<times> 'z file_state_scheme" where
  "get_load_address_freebsd kind s =
     (let (rtrn, exec, s) = get_exec_path None s in
      if rtrn < 0 then (-1, nx_output ERROR ''Can't get target exec path'' s)
      else
        let (fd, s) = (case exec of None \<Rightarrow> (-1, snd (ext ''open'' [0] s)) | Some p \<Rightarrow> open_rd p s) in
        if fd < 0 then (-1, nx_output ERROR ''open: %s'' s)
        else
          let (version, s) = ext ''elf_version'' [] s in
          if version = 0 then (-1, nx_output ERROR ''Can't init elf library: %s'' s)
          else
            let (elf, s) = ext ''elf_begin'' [fd] s in
            if elf = 0 then (-1, nx_output ERROR ''Can't read an elf file: %s'' s)
            else
              (case kind of
                 ELF_K_NONE \<Rightarrow> (-1, nx_output ERROR ''Not a ELF file.'' s)
               | ELF_K_ELF \<Rightarrow>
                   let ((hdr, entry), s) = ext2 ''gelf_getehdr'' [] s in
                   if hdr = 0 then (-1, nx_output ERROR ''Can't rget elf header: %s'' s)
                   else (0, snd (ext ''elf_end'' [] (set_start_addr (word_of_int entry) s)))
               | ELF_K_AR \<Rightarrow> (-1, nx_output ERROR ''This is an archive not an executable.'' s)
               | _ \<Rightarrow> (-1, nx_output ERROR ''Can't handle this file type.'' s)))"

section \<open>Probes\<close>

definition inject_probes_linux :: "int \<Rightarrow> int" where
  "inject_probes_linux pid = 0"

definition inject_probes :: "int \<Rightarrow> 'z os_scheme \<Rightarrow> int \<times> 'z os_scheme" where
  "inject_probes pid s =
     (let (rtrn, prog, s) = asprintf ''pid%d:::'' (printf ''Injecting probes'' s) in
      if rtrn < 0 then (-1, printf ''Can't create probe program string'' s)
      else
        let (handle, s) = ext ''dtrace_open'' [] s in
        if handle = 0 then (-1, fprintf_stderr ''failed to initialize dtrace: %s'' s)
        else
          let s = snd (ext ''dtrace_setopt'' [1] (snd (ext ''dtrace_setopt'' [0] s)));
              (prog, s) = ext ''dtrace_program_strcompile'' [pid] s in
          if prog = 0 then (-1, printf ''Failed to compile dtrace program'' s)
          else
            let (rtrn, s) = ext ''dtrace_program_exec'' [] s in
            if rtrn < 0 then (-1, printf ''Failed to enable dtrace probes'' s)
            else
              let (rtrn, s) = ext ''dtrace_go'' [] s in
              if rtrn < 0 then (-1, printf ''Can't start probes'' s)
              else (0, snd (ext ''dtrace_sleep'' [] s)))"

definition setup_probe_module :: "string option \<Rightarrow> 'z probe_state_scheme \<Rightarrow> int \<times> 'z probe_state_scheme" where
  "setup_probe_module exec s = (0, s\<lparr>target_path := exec\<rparr>)"

definition WIFCONTINUED :: "int \<Rightarrow> bool" where
  "WIFCONTINUED st \<longleftrightarrow> st = 19"

definition WIFEXITED :: "int \<Rightarrow> bool" where
  "WIFEXITED st \<longleftrightarrow> WTERMSIG st = 0"

definition WIFSTOPPED :: "int \<Rightarrow> bool" where
  "WIFSTOPPED st \<longleftrightarrow> WTERMSIG st = 127"

definition start_and_pause_target_linux :: int where "start_and_pause_target_linux = 0"

definition inject_fork_server_linux :: "u64 \<Rightarrow> int" where "inject_fork_server_linux main_address = 0"

text \<open>The result is what the function returns and the pid it stores through its argument. In the child the \<open>execv\<close>
  that succeeds does not return.\<close>

definition start_and_pause_target ::
    "'z probe_state_scheme \<Rightarrow> (int run \<times> int \<times> 'z probe_state_scheme)" where
  "start_and_pause_target s =
     (let (pid, s) = ext ''fork'' [] s in
      if pid = 0
      then
        let (pid, s) = ext ''getpid'' [] s; (rtrn, s) = drop_privileges s in
        if rtrn < 0 then (Return (-1), pid, nx_output ERROR ''Can't drop privileges'' s)
        else
          let (rtrn, s) = ext ''execv'' [] (snd (ext ''ptrace'' [0, 0] s)) in
          if rtrn < 0 then (Return (-1), pid, nx_output ERROR ''execv: %s'' s) else (Exited 0, pid, s)
      else if pid > 0
      then
        let ((_, status), s) = ext2 ''wait4'' [pid, 0] s in
        if WIFCONTINUED status then (Return (-1), pid, nx_output ERROR ''The process we are testing is continuing?'' s)
        else if WIFEXITED status then (Return (-1), pid, nx_output ERROR ''The process we are testing has exited prematurely'' s)
        else if WIFSIGNALED status then (Return (-1), pid, nx_output ERROR ''The process we are testing has exited due to a signal'' s)
        else if WIFSTOPPED status then (Return 0, pid, s\<lparr>probe_pid := pid\<rparr>)
        else (Return (-1), pid, s)
      else (Return 0, pid, s\<lparr>probe_pid := pid\<rparr>))"

definition inject_fork_server :: "'z probe_state_scheme \<Rightarrow> int \<times> 'z probe_state_scheme" where
  "inject_fork_server s =
     (let (orig, s) = ext ''ptrace'' [1, probe_pid s] (nx_output STD ''Creating fork server'' s);
          ((_, status), s) = ext2 ''waitpid'' [probe_pid s, 0] s in
      if WIFCONTINUED status then (-1, nx_output ERROR ''The process we are testing is continuing?'' s)
      else if WIFEXITED status then (-1, nx_output ERROR ''The process we are testing has exited prematurely'' s)
      else if WIFSIGNALED status then (-1, nx_output ERROR ''The process we are testing has exited due to a signal'' s)
      else (0, printf ''rax: Ox%lx'' (snd (ext ''ptrace'' [33, probe_pid s] s))))"

section \<open>The search for branches ends\<close>

text \<open>The instructions a disassembler finds, and the bytes that are left.\<close>

inductive decodes :: "(u8 list \<Rightarrow> (string \<times> nat) option) \<Rightarrow> u8 list \<Rightarrow> string list \<Rightarrow> u8 list \<Rightarrow> bool" for iter where
  stop: "iter bs = None \<Longrightarrow> decodes iter bs [] bs"
| step: "iter bs = Some (m, n) \<Longrightarrow> decodes iter (drop n bs) ms rest \<Longrightarrow> decodes iter bs (m # ms) rest"

lemma disas_loop_ends:
  assumes "\<And>bs m n. iter bs = Some (m, n) \<Longrightarrow> 0 < n \<and> n \<le> length bs"
  shows "\<exists>ms rest address'. decodes iter bs ms rest \<and>
     disas_loop iter bs a l c = Some (rest, address', c + word_of_nat (length (filter is_branch ms)))"
proof (induction "length bs" arbitrary: bs a l c rule: less_induct)
  case less
  show ?case
  proof (cases "iter bs")
    case None
    then show ?thesis using stop [of iter bs] by (subst disas_loop.simps) auto
  next
    case (Some x)
    then obtain m n where x: "iter bs = Some (m, n)" by (cases x) auto
    with assms [OF x] have "length (drop n bs) < length bs" by (cases bs) auto
    from less [OF this, of "a + word_of_nat n" a "if is_branch m then c + 1 else c"] obtain ms rest a' where
      "decodes iter (drop n bs) ms rest" "disas_loop iter (drop n bs) (a + word_of_nat n) a (if is_branch m then c + 1 else c) =
         Some (rest, a', (if is_branch m then c + 1 else c) + word_of_nat (length (filter is_branch ms)))" by blast
    with step [of iter bs m n] x show ?thesis
      by (intro exI [of _ "m # ms"] exI [of _ rest] exI [of _ a']) (subst disas_loop.simps, auto simp: ac_simps)
  qed
qed


definition nop_iter :: "u8 list \<Rightarrow> (string \<times> nat) option" where
  "nop_iter bs = (if bs = [] then None else Some (''nop'', 1))"


text \<open>The conditional jumps that the library names are found, except for one; other jumps are not.\<close>

lemma branches_found:
  "list_all is_branch [''jo'', ''jno'', ''jb'', ''jae'', ''je'', ''jne'', ''jbe'', ''ja'', ''js'', ''jns'', ''jp'', ''jnp'', ''jl'', ''jge'', ''jle'',
     ''jg'', ''jcxz'', ''jecxz''] \<and> \<not> is_branch ''jrcxz'' \<and> \<not> is_branch ''jmp'' \<and> \<not> is_branch ''call''"
  by (simp add: is_branch_def branch_prefixes_def)

section \<open>The stopped target\<close>

text \<open>C37. \<open>start_and_pause_target\<close> reports success exactly when the new process is stopped, or when no process could be
  created at all: the failure of \<open>fork\<close> is not noticed, and the pid stored for the other functions
  is then \<open>-1\<close>. A child that could not drop its privileges or execute the target returns to its caller.\<close>

theorem target_paused_exact:
  fixes s :: "'z probe_state_scheme"
  shows "\<exists>r p s'. start_and_pause_target s = (r, p, s') \<and>
     (let pid = fst (answer s (length (trace s)) ''fork'' []); st = snd (answer s (length (trace s) + 1) ''wait4'' [pid, 0]) in
      (r = Return 0 \<longleftrightarrow> pid < 0 \<or> 0 < pid \<and> WIFSTOPPED st) \<and>
      (if pid = 0 then r \<in> {Return (-1), Exited 0} \<and> probe_pid s' = probe_pid s
       else p = pid \<and> r \<in> {Return 0, Return (-1)} \<and> probe_pid s' = (if r = Return 0 then pid else probe_pid s)))"
proof -
  let ?pid = "fst (answer s (length (trace s)) ''fork'' [])" and ?t = "s\<lparr>trace := trace s @ [(''fork'', [])]\<rparr>"
  have fork: "ext ''fork'' [] s = (?pid, ?t)" by (simp add: ext_eq)
  consider (failed) "?pid < 0" | (child) "?pid = 0" | (parent) "0 < ?pid" by linarith
  then show ?thesis
  proof cases
    case failed
    with fork show ?thesis by (simp add: start_and_pause_target_def)
  next
    case child
    have pp: "drop_privileges u = (x, v) \<Longrightarrow> probe_pid v = probe_pid u" for x and u v :: "'z probe_state_scheme"
      by (auto simp: drop_privileges_def ext_eq printing_defs split: if_splits)
    show ?thesis using child fork by (auto simp: start_and_pause_target_def ext_eq printing_defs split: prod.splits dest!: pp)
  next
    case parent
    let ?st = "snd (answer s (Suc (length (trace s))) ''wait4'' [?pid, 0])"
    have "WIFSTOPPED ?st \<Longrightarrow> \<not> WIFCONTINUED ?st \<and> \<not> WIFEXITED ?st \<and> \<not> WIFSIGNALED ?st"
      by (auto simp: WIFSTOPPED_def WIFCONTINUED_def WIFEXITED_def WIFSIGNALED_def WTERMSIG_def)
    with parent fork show ?thesis by (auto simp: start_and_pause_target_def ext2_def printing_defs split: prod.splits)
  qed
qed

end
