(* ===== verification/Variants.thy ===== *)
theory Variants
  imports Probe Network Log Entries
begin

text \<open>
  The files that exist once for each platform and are not the ones the other theories follow: \<open>get_table\<close>, the sockets of
  \<^verbatim>\<open>network-bsd.c\<close>, the log of \<^verbatim>\<open>log-freebsd.c\<close>, the probes of \<^verbatim>\<open>probe-mac.c\<close>, the process name of Mac OS, and what
  \<^verbatim>\<open>utils.c\<close> compiles only on some platforms. Where two platforms have the same function, the lemmas compare them.
\<close>

section \<open>Tables and counts\<close>

definition get_table_linux :: syscall_table where "get_table_linux = linux_syscall_table"

definition get_table_freebsd :: syscall_table where "get_table_freebsd = freebsd_syscall_table"

definition get_table_mac :: syscall_table where "get_table_mac = mac_osx_syscall_table"

text \<open>The number of processors is converted to 32 bits unchecked: an error of \<open>sysconf\<close>, which is \<open>-1\<close>, becomes the
  largest count.\<close>

definition get_core_count_linux :: "'z os_scheme \<Rightarrow> int \<times> u32 \<times> 'z os_scheme" where
  "get_core_count_linux s = (let (n, s) = ext ''sysconf'' [] s in (0, word_of_int n, s))"

definition run_syscall :: "int \<Rightarrow> int" where
  "run_syscall number = 0"

text \<open>The order of \<open>fts_open\<close>: \<open>strcmp\<close> on the names, as the difference of the first characters that differ.\<close>

fun strcmp :: "string \<Rightarrow> string \<Rightarrow> int" where
  "strcmp [] [] = 0"
| "strcmp [] (d # ds) = - of_char d"
| "strcmp (c # cs) [] = of_char c"
| "strcmp (c # cs) (d # ds) = (if c = d then strcmp cs ds else of_char c - of_char d)"

definition entcmp :: "string \<Rightarrow> string \<Rightarrow> int" where
  "entcmp a b = strcmp a b"

section \<open>Sockets of the BSD systems\<close>

definition setup_ipv4_tcp_server_bsd :: "'z network_scheme \<Rightarrow> int \<times> int \<times> 'z network_scheme" where
  "setup_ipv4_tcp_server_bsd s =
     (let (sockFd, s) = ext ''socket'' [AF_INET, SOCK_STREAM, 0] s in
      if sockFd < 0 then (-1, sockFd, printf ''Socket: %s'' s)
      else
        let port = get_server_port s;
            (rtrn, s) = ext ''bind'' [sockFd, AF_INET, htons port] s in
        if rtrn < 0 then (-1, sockFd, printf ''Bind: %s'' s) else (0, sockFd, s))"

definition setup_ipv6_tcp_server_bsd :: "'z network_scheme \<Rightarrow> int \<times> int \<times> 'z network_scheme" where
  "setup_ipv6_tcp_server_bsd s =
     (let (sockFd, s) = ext ''socket'' [AF_INET6, SOCK_STREAM, 0] s in
      if sockFd < 0 then (-1, sockFd, printf ''Socket ipv6: %s'' s)
      else
        let port = get_server_port s;
            (rtrn, s) = ext ''bind'' [sockFd, AF_INET6, htons (port + 1)] s in
        if rtrn < 0 then (-1, sockFd, printf ''bind 6: %s'' s) else (0, sockFd, s))"

section \<open>The log of FreeBSD\<close>

definition log_arguments_freebsd ::
    "u32 \<Rightarrow> string \<Rightarrow> ptr list \<Rightarrow> arg_context option list \<Rightarrow> 'z os_scheme \<Rightarrow> (int \<times> 'z os_scheme) option" where
  "log_arguments_freebsd nargs name vals ctxs s =
     (let (arg_value, s) = mem_alloc 1024 s in
      if arg_value = NULL then Some (-1, nx_output ERROR ''Can't create arg_value buffer'' s)
      else
        let (log_buf, s) = mem_alloc 4096 s in
        if log_buf = NULL
        then do { s \<leftarrow> cleanup_buf arg_value (nx_output ERROR ''Can't create syscall_log_buf buffer'' s); Some (-1, s) }
        else do {
          buf \<leftarrow> sprintf_buf 4096 (name @ '':'');
          line \<leftarrow> log_args_loop (unat nargs) 0 vals ctxs buf s;
          let s = nx_output STD line s;
          s \<leftarrow> cleanup_buf log_buf s;
          s \<leftarrow> cleanup_buf arg_value s;
          Some (0, s) })"

section \<open>Probes of Mac OS\<close>

definition start_target :: "'z probe_state_scheme \<Rightarrow> int \<times> 'z probe_state_scheme" where
  "start_target s =
     (let (me, s) = ext ''getpid'' [] s; s = s\<lparr>probe_pid := me\<rparr>; (rtrn, s) = drop_privileges s in
      if rtrn < 0 then (-1, printf ''Can't drop privileges'' s)
      else let (rtrn, s) = ext ''execv'' [] s in if rtrn < 0 then (-1, printf ''execv: %d'' s) else (0, s))"

definition KERN_SUCCESS :: int where "KERN_SUCCESS = 0"

definition pause_target :: "int \<Rightarrow> 'z os_scheme \<Rightarrow> int \<times> 'z os_scheme" where
  "pause_target pid s =
     (let (kr, s) = ext ''task_for_pid'' [pid] s in
      if kr \<noteq> KERN_SUCCESS then (-1, fprintf_stderr ''Can't get target task port'' s)
      else
        let (kr, s) = ext ''task_suspend'' [pid] s in
        if kr \<noteq> KERN_SUCCESS then (-1, fprintf_stderr ''Can't suspend target process'' s) else (0, s))"

definition start_and_pause_target_mac :: "int \<Rightarrow> 'z probe_state_scheme \<Rightarrow> int run \<times> int \<times> 'z probe_state_scheme" where
  "start_and_pause_target_mac target s =
     (let (pid, s) = ext ''fork'' [] s; s = s\<lparr>probe_pid := pid\<rparr> in
      if pid = 0
      then let (rtrn, s) = start_target s in
           if rtrn < 0 then (Return (-1), target, printf ''Can't start target process'' s) else (Exited 0, target, s)
      else if pid > 0
      then let (rtrn, s) = pause_target pid s in
           if rtrn < 0 then (Return (-1), target, printf ''Can't pause target process'' s) else (Return 0, pid, s)
      else (Return (-1), target, printf ''Can't start and pause target process'' s))"

definition inject_fork_server_mac :: "'z probe_state_scheme \<Rightarrow> int \<times> 'z probe_state_scheme" where
  "inject_fork_server_mac s =
     (let (kr, s) = ext ''task_for_pid'' [probe_pid s] s in
      if kr \<noteq> KERN_SUCCESS then (-1, fprintf_stderr ''Can't get target task port'' s) else (0, s))"

definition get_load_address_mac :: int where "get_load_address_mac = 0"

section \<open>The process name of Mac OS\<close>

text \<open>The static variables of \<open>set_process_name\<close>; an address of 0 is a symbol that was not found.\<close>

record name_symbols =
  did_symbol_lookup :: bool
  get_asn_func :: int
  set_item_func :: int
  display_name_key :: int

definition lookup_symbols :: "name_symbols \<Rightarrow> 'z os_scheme \<Rightarrow> bool \<times> name_symbols \<times> 'z os_scheme" where
  "lookup_symbols v s =
     (let v = v\<lparr>did_symbol_lookup := True\<rparr>; (bundle, s) = ext ''CFBundleGetBundleWithIdentifier'' [] s in
      if bundle = 0 then (False, v, nx_output ERROR ''Failed to look up LaunchServices bundle'' s)
      else
        let (f, s) = ext ''CFBundleGetFunctionPointerForName'' [0] s;
            s = (if f = 0 then nx_output ERROR ''Could not find _LSGetCurrentApplicationASN'' s else s);
            (g, s) = ext ''CFBundleGetFunctionPointerForName'' [1] s;
            s = (if g = 0 then nx_output ERROR ''Could not find _LSSetApplicationInformationItem'' s else s);
            ((p, k), s) = ext2 ''CFBundleGetDataPointerForName'' [] s;
            key = (if p = 0 then 0 else k);
            s = (if key = 0 then nx_output ERROR ''Could not find _kLSDisplayNameKey'' s else s) in
        (True, v\<lparr>get_asn_func := f, set_item_func := g, display_name_key := key\<rparr>, snd (ext ''GetCurrentProcess'' [] s)))"

definition set_process_name :: "name_symbols \<Rightarrow> 'z os_scheme \<Rightarrow> name_symbols \<times> 'z os_scheme" where
  "set_process_name v s =
     (let s = snd (ext ''CFStringCreateWithCString'' [] s);
          (ok, v, s) = (if did_symbol_lookup v then (True, v, s) else lookup_symbols v s) in
      if \<not> ok then (v, s)
      else if get_asn_func v = 0 \<or> set_item_func v = 0 \<or> display_name_key v = 0 then (v, s)
      else
        let (asn, s) = ext ''_LSGetCurrentApplicationASN'' [] s in
        (v, snd (ext ''_LSSetApplicationInformationItem'' [-2, asn] s)))"

section \<open>The variants compared\<close>

lemma servers_bsd: "setup_ipv4_tcp_server_bsd = setup_ipv4_tcp_server" "setup_ipv6_tcp_server_bsd = setup_ipv6_tcp_server"
  by (intro ext; simp add: setup_ipv4_tcp_server_bsd_def setup_ipv4_tcp_server_def setup_ipv6_tcp_server_bsd_def setup_ipv6_tcp_server_def)+

lemma log_freebsd:
  assumes "grant s (asked s)" and "grant s (asked s + 1)" and "0 < fresh s"
  shows "log_arguments_freebsd nargs name vals ctxs s = log_arguments nargs name vals ctxs s"
  using assms by (simp add: log_arguments_freebsd_def log_arguments_def mem_alloc_def default_mem_alloc_def malloc_def printing_defs)

lemma core_count_linux_error:
  "fst (answer s (length (trace s)) ''sysconf'' []) = -1 \<Longrightarrow> \<exists>s'. get_core_count_linux s = (0, 2 ^ 32 - 1, s')"
  by (simp add: get_core_count_linux_def ext_eq)

lemma pause_target_result:
  fixes s :: "'z os_scheme"
  shows "\<exists>s'. pause_target pid s =
     (if fst (answer s (length (trace s)) ''task_for_pid'' [pid]) = 0
        \<and> fst (answer s (length (trace s) + 1) ''task_suspend'' [pid]) = 0 then 0 else -1, s')"
  by (cases "fst (answer s (length (trace s)) ''task_for_pid'' [pid]) = 0";
      cases "fst (answer s (length (trace s) + 1) ''task_suspend'' [pid]) = 0")
     (simp_all add: pause_target_def ext_eq KERN_SUCCESS_def)

text \<open>On Mac OS, unlike FreeBSD, the target counts as paused exactly when there is a new process and it was suspended.\<close>

lemma mac_paused_exact:
  fixes s :: "'z probe_state_scheme"
  shows "\<exists>r p s'. start_and_pause_target_mac target s = (r, p, s') \<and>
     (let pid = fst (answer s (length (trace s)) ''fork'' []);
          port = fst (answer s (length (trace s) + 1) ''task_for_pid'' [pid]);
          stopped = fst (answer s (length (trace s) + 2) ''task_suspend'' [pid]) in
      (r = Return 0 \<longleftrightarrow> 0 < pid \<and> port = 0 \<and> stopped = 0) \<and> (if r = Return 0 then p = pid else p = target))"
proof -
  let ?pid = "fst (answer s (length (trace s)) ''fork'' [])" and ?t = "s\<lparr>trace := trace s @ [(''fork'', [])]\<rparr>"
  have fork: "ext ''fork'' [] s = (?pid, ?t)" by (simp add: ext_eq)
  consider (failed) "?pid < 0" | (child) "?pid = 0" | (parent) "0 < ?pid" by linarith
  then show ?thesis
  proof cases
    case failed
    with fork show ?thesis by (simp add: start_and_pause_target_mac_def)
  next
    case child
    obtain r u where u: "start_target (?t\<lparr>probe_pid := 0\<rparr>) = (r, u)" by fastforce
    with child fork show ?thesis by (cases "r < 0") (simp_all add: start_and_pause_target_mac_def)
  next
    case parent
    obtain u where "pause_target ?pid (?t\<lparr>probe_pid := ?pid\<rparr>) =
        (if fst (answer s (length (trace s) + 1) ''task_for_pid'' [?pid]) = 0
           \<and> fst (answer s (length (trace s) + 2) ''task_suspend'' [?pid]) = 0 then 0 else -1, u)"
      using pause_target_result [of ?pid "?t\<lparr>probe_pid := ?pid\<rparr>"] by auto
    with parent fork show ?thesis by (simp add: start_and_pause_target_mac_def)
  qed
qed

text \<open>A failed lookup is never repeated: from then on the name stays as it is.\<close>

lemma name_lookup_once:
  fixes s :: "'z os_scheme"
  assumes "did_symbol_lookup v" and "get_asn_func v = 0 \<or> set_item_func v = 0 \<or> display_name_key v = 0"
  shows "set_process_name v s = (v, s\<lparr>trace := trace s @ [(''CFStringCreateWithCString'', [])]\<rparr>)"
  using assms by (auto simp: set_process_name_def ext_eq)

end
