(* ===== verification/Spec2Isabelle.thy ===== *)
theory Spec2Isabelle
  imports Spinlock Ck_Grace Concurrent Lifecycle Runtime File_Loop Genetic Probe Variants
begin

text \<open>
  Verification library for nextgen, a fuzzer for system calls, files and networks written in C for Linux,
  FreeBSD and Mac OS. This theory imports all others; paths are relative to \<^verbatim>\<open>src/src\<close> of the repository.

  \<^bold>\<open>The program.\<close> \<^verbatim>\<open>main.c\<close> parses the command line (\<^verbatim>\<open>runtime/nextgen.c\<close>). The system call fuzzer
  (\<^verbatim>\<open>syscall/syscall.c\<close>) builds a table of calls from static entries (\<^verbatim>\<open>syscall/linux\<close>, \<^verbatim>\<open>freebsd\<close>, \<^verbatim>\<open>mac\<close>), one context
  for each processor in shared memory, and forks one child for each context. A child draws a call, has its arguments
  made by the generators (\<^verbatim>\<open>syscall/generate.c\<close>), which take descriptors and paths from the resource module
  (\<^verbatim>\<open>resource/resource.c\<close>) and the network module (\<^verbatim>\<open>network\<close>), logs them (\<^verbatim>\<open>log\<close>), makes the call
  (\<^verbatim>\<open>syscall/set_test.c\<close>), and comes back by \<open>longjmp\<close> when a signal arrives (\<^verbatim>\<open>syscall/signals.c\<close>). The file fuzzer (\<^verbatim>\<open>file\<close>) mutates
  input files (\<^verbatim>\<open>mutate\<close>) and runs a target on them, whose branches the disassembler (\<^verbatim>\<open>disas\<close>) looks for and the probes
  (\<^verbatim>\<open>probe\<close>) count. The genetic algorithm (\<^verbatim>\<open>genetic\<close>) runs in a thread beside them. All rest on shared
  block pools (\<^verbatim>\<open>memory\<close>), epoch sections and compare-and-swap loops (\<^verbatim>\<open>concurrent\<close>), random numbers (\<^verbatim>\<open>crypto\<close>) and helpers for
  files and names (\<^verbatim>\<open>utils\<close>).

  \<^bold>\<open>How the code is modelled.\<close> State is passed explicitly in a record that each component extends by its static
  variables and the objects it keeps in memory: \<open>os\<close> (allocator, regions, console, trace of external calls), \<open>mem\<close> (pools and list
  links), \<open>epoch\<close>, \<open>utils\<close> (files, directories, descriptors), and so on up to \<open>syscall_state\<close>. A function of the
  source is one definition with the same name, or with the platform or the component as a suffix or prefix where several
  have the name. An integer that can wrap is a word of its width; an \<open>int32_t\<close> that only carries a result code is an \<open>int\<close>.
  Undefined behaviour, a crash, and a loop that does not end are the value \<open>None\<close>; error codes and error
  messages are ordinary results. Calls of the kernel, of the C library beyond memory and strings, and of OpenSSL, capstone,
  sqlite and dtrace go through \<open>ext\<close> and \<open>ext2\<close>: they are recorded in \<open>trace\<close> and answered by the function \<open>answer\<close> of the state, which no
  definition inspects, so that theorems hold for every behaviour of the environment unless a named hypothesis says
  what is documented of it. \<open>grant\<close> says in the same way which allocations succeed. Processes and threads
  are step relations whose steps are the accesses to shared memory.

  \<^bold>\<open>The theories.\<close>
  \<^item> \<^verbatim>\<open>Prelude\<close>, \<^verbatim>\<open>Platform\<close>: types, lemmas on options, words and lists; memory, external calls, \<^verbatim>\<open>io/io.c\<close>.
  \<^item> \<^verbatim>\<open>Slist\<close>, \<^verbatim>\<open>Memory\<close>, \<^verbatim>\<open>Pool_Conc\<close>, \<^verbatim>\<open>Spinlock\<close>: the list macros of the concurrency kit, \<^verbatim>\<open>memory/memory.c\<close>, a pool used by several
    processes, and the spinlock of the kit. The locale \<open>block_pool\<close> is the contract of a pool. A pool refines a pair of
    lists; under every interleaving no block is owned twice or lost; capacity; the lock, access by access, implements the
    atomic one and lets every process in.
  \<^item> \<^verbatim>\<open>Concurrent\<close>, \<^verbatim>\<open>Reallocarray\<close>, \<^verbatim>\<open>Epoch\<close>: \<^verbatim>\<open>concurrent\<close> and \<^verbatim>\<open>utils/reallocarray.c\<close>. Exact overflow check; which sequences of section starts and
    stops are safe (locale \<open>nesting\<close>).
  \<^item> \<^verbatim>\<open>Ck_Epoch\<close>, \<^verbatim>\<open>Ck_Grace\<close>: the epoch records of the concurrency kit, whose operations refine the counter kept in \<^verbatim>\<open>Epoch\<close>. The
    invariant of interleaved calls: a deferred callback runs only after the sections that were open when it was deferred.
  \<^item> \<^verbatim>\<open>Crypto\<close>, \<^verbatim>\<open>Random_Source\<close>: \<^verbatim>\<open>crypto/crypto.c\<close>; bounds of drawn numbers, digests, seeding; the locale \<open>random_source\<close> is what
    clients rely on.
  \<^item> \<^verbatim>\<open>Utils\<close>, \<^verbatim>\<open>Plugins\<close>, \<^verbatim>\<open>Mutate\<close>: \<^verbatim>\<open>utils/utils.c\<close>, \<^verbatim>\<open>plugins/plugin.c\<close>, \<^verbatim>\<open>mutate/mutate.c\<close>; exact copies, form of generated names, one byte for each mutation.
  \<^item> \<^verbatim>\<open>Arg_Types\<close>, \<^verbatim>\<open>Entries\<close>, \<^verbatim>\<open>Set_Test\<close>: the data of the system calls and the functions that make a call; an audit of the three tables.
  \<^item> \<^verbatim>\<open>Network\<close>, \<^verbatim>\<open>Resource\<close>: servers, clients, descriptors and paths; where clients connect, which resources can be had.
  \<^item> \<^verbatim>\<open>Child\<close>, \<^verbatim>\<open>Generate\<close>, \<^verbatim>\<open>Gen_Frame\<close>, \<^verbatim>\<open>Log\<close>, \<^verbatim>\<open>Signals\<close>, \<^verbatim>\<open>Syscall\<close>: \<^verbatim>\<open>syscall/syscall.c\<close>, the generators, logging, handlers. \<open>sysfix\<close> projects the state that
    generators leave alone, with one frame lemma for each function.
  \<^item> \<^verbatim>\<open>Table\<close>, \<^verbatim>\<open>Setup\<close>, \<^verbatim>\<open>Child_Epoch\<close>: what the set-up creates, how a call is drawn (locale \<open>child_random\<close>), that argument sizes stay zero, and the
    epoch sections of a child across \<open>setjmp\<close> (locale \<open>child_services\<close>).
  \<^item> \<^verbatim>\<open>Fleet\<close>, \<^verbatim>\<open>Spawn\<close>, \<^verbatim>\<open>Supervisor\<close>, \<^verbatim>\<open>Lifecycle\<close>: the processes of the fuzzer as a step relation with its invariant, the slots that are lost, and that
    \<open>create_child\<close>, \<open>exit_child\<close> and the handler of \<open>SIGCHLD\<close> do to the shared memory what the steps say; that the main process, from
    the set-up through its loop, returns when it is told to stop; and that a whole child, from its creation through its loop to its exit, leaves the shared
    bookkeeping as it was (locale \<open>child_life\<close>).
  \<^item> \<^verbatim>\<open>Runtime\<close>: \<^verbatim>\<open>main.c\<close> and \<^verbatim>\<open>runtime\<close>; which command lines are accepted with which configuration.
  \<^item> \<^verbatim>\<open>File\<close>, \<^verbatim>\<open>File_Loop\<close>: \<^verbatim>\<open>file\<close>; the set-up, and which files the loop can change (locale \<open>file_fuzzer\<close>, interpreted for Linux and FreeBSD).
  \<^item> \<^verbatim>\<open>Genetic\<close>, \<^verbatim>\<open>Probe\<close>, \<^verbatim>\<open>Variants\<close>: \<^verbatim>\<open>genetic\<close>, \<^verbatim>\<open>disas\<close>, \<^verbatim>\<open>probe\<close>, and the files of single platforms compared with the ones above.

  \<^bold>\<open>Loops.\<close> Loops over a counter are recursions on what is left of it and total. Loops that the code does not bound
  (searching a list, waiting for a stop flag, drawing until a name is free, the main loops) are partial functions into
  options without fuel; that they return is proved where it is claimed, and that they do not where the code has no exit.

  \<^bold>\<open>Not modelled.\<close> The vendored libraries under \<^verbatim>\<open>src/deps\<close>, which are parameters or answers of the environment,
  but for the list macros, the spinlock and the epoch records of the concurrency kit; the Objective-C files (\<^verbatim>\<open>main.m\<close>, \<^verbatim>\<open>objc\<close>, \<^verbatim>\<open>file-mac.m\<close>), which start the application on Mac OS and a
  target through its frameworks; the unit tests; headers that only declare or rename. Of the text that is printed the format
  string is kept and not its arguments. Memory is sequentially consistent.
\<close>

end
